(* ===== verification/Prelude.thy ===== *)
theory Prelude
  imports Main "HOL-Library.Word"
begin

text \<open>
  Shared vocabulary of the development: the machine integers of the C++ sources, the faults a
  translated operation can end in, byte sequences in host (little-endian) order with the
  byte-order conversions of \<^verbatim>\<open><endian.h>\<close>, and the contract every packed wire structure
  satisfies.
\<close>

section \<open>Machine types\<close>

text \<open>
  \<^verbatim>\<open>char\<close> and \<^verbatim>\<open>uint8_t\<close> are both bytes; where the code uses the signed value of a
  \<^verbatim>\<open>char\<close> the model writes \<open>sint\<close>.  \<^verbatim>\<open>int32_t\<close> prices are never computed with, only compared
  and copied, so they are mathematical integers once they are read (\<open>sint\<close> of the 32-bit word).
\<close>

type_synonym byte = "8 word"
type_synonym u16 = "16 word"
type_synonym u32 = "32 word"
type_synonym u64 = "64 word"
type_synonym i32 = int

definition ascii :: "char \<Rightarrow> byte" where
  "ascii c = of_nat (of_char c)"

section \<open>Faults\<close>

text \<open>
  A fault is an execution that leaves the defined behaviour of the program, or leaves the
  program: a read or write outside an object, a dereference of an end iterator, an access through
  an invalidated iterator, \<^verbatim>\<open>std::exit\<close>, or a C++ exception.
\<close>

datatype fault =
    OutOfBoundsRead
  | OutOfBoundsWrite
  | EndDereference
  | UseAfterFree
  | ProcessExit int
  | Thrown string

type_synonym 'a result = "fault + 'a"

fun res_bind :: "'e + 'a \<Rightarrow> ('a \<Rightarrow> 'e + 'b) \<Rightarrow> 'e + 'b" where
  "res_bind (Inl e) f = Inl e"
| "res_bind (Inr x) f = f x"

lemma res_bind_Inr_iff: "res_bind m f = Inr y \<longleftrightarrow> (\<exists>x. m = Inr x \<and> f x = Inr y)"
  by (cases m) auto

lemma res_bind_Inl_iff:
  "res_bind m f = Inl e \<longleftrightarrow> m = Inl e \<or> (\<exists>x. m = Inr x \<and> f x = Inl e)"
  by (cases m) auto

lemma res_bind_assoc: "res_bind (res_bind m f) g = res_bind m (\<lambda>x. res_bind (f x) g)"
  by (cases m) auto

lemma res_bind_return: "res_bind m Inr = m"
  by (cases m) auto

text \<open>Running a handler over a list of inputs; the first fault ends the run.\<close>

fun res_fold :: "('s \<Rightarrow> 'e \<Rightarrow> 's result) \<Rightarrow> 's \<Rightarrow> 'e list \<Rightarrow> 's result" where
  "res_fold f s [] = Inr s"
| "res_fold f s (x # xs) = res_bind (f s x) (\<lambda>s'. res_fold f s' xs)"

lemma res_fold_append:
  "res_fold f s (xs @ ys) = res_bind (res_fold f s xs) (\<lambda>s'. res_fold f s' ys)"
  by (induction xs arbitrary: s) (auto simp: res_bind_assoc)

lemma res_fold_invariant:
  assumes step: "\<And>s x s'. I s \<Longrightarrow> f s x = Inr s' \<Longrightarrow> I s'"
  shows "I s \<Longrightarrow> res_fold f s xs = Inr s' \<Longrightarrow> I s'"
proof (induction xs arbitrary: s)
  case (Cons x xs)
  from Cons.prems(2) obtain t where "f s x = Inr t" and "res_fold f t xs = Inr s'"
    by (auto simp: res_bind_Inr_iff)
  with Cons.IH Cons.prems(1) step show ?case by blast
qed simp

section \<open>Little-endian byte sequences\<close>

text \<open>
  The sources target x86-64: an integer object is stored with its least significant byte first.
  \<open>le_bytes n v\<close> is the object representation of \<open>v\<close> in \<open>n\<close> bytes and \<open>le_val\<close> reads one back.
\<close>

primrec le_bytes :: "nat \<Rightarrow> nat \<Rightarrow> byte list" where
  "le_bytes 0 v = []"
| "le_bytes (Suc n) v = of_nat v # le_bytes n (v div 256)"

primrec le_val :: "byte list \<Rightarrow> nat" where
  "le_val [] = 0"
| "le_val (b # bs) = unat b + 256 * le_val bs"

named_theorems wire \<open>lengths and round trips of the byte-level codecs\<close>

lemma length_le_bytes [simp, wire]: "length (le_bytes n v) = n"
  by (induction n arbitrary: v) auto

lemma unat_bound: "unat (w :: 'a::len word) < 2 ^ LENGTH('a)"
  by (rule unsigned_less)

lemma unat_byte_less: "unat (b :: byte) < 256"
  using unat_bound [of b] by simp

lemma le_val_less: "le_val bs < 256 ^ length bs"
proof (induction bs)
  case (Cons b bs)
  have "unat b + 256 * le_val bs < 256 + 256 * le_val bs"
    using unat_byte_less [of b] by simp
  also have "\<dots> = 256 * Suc (le_val bs)" by simp
  also have "\<dots> \<le> 256 * 256 ^ length bs"
    using Cons.IH by (intro mult_le_mono2) simp
  finally show ?case by simp
qed simp

lemma unat_of_nat_byte: "unat (of_nat v :: byte) = v mod 256"
  by (simp add: unat_of_nat)

lemma le_val_le_bytes: "le_val (le_bytes n v) = v mod 256 ^ n"
proof (induction n arbitrary: v)
  case (Suc n)
  have "v mod 256 + 256 * (v div 256 mod 256 ^ n) = v mod (256 * 256 ^ n)"
    by (simp add: mod_mult2_eq)
  then show ?case using Suc by (simp add: unat_of_nat_byte)
qed simp

lemma le_bytes_le_val: "le_bytes (length bs) (le_val bs) = bs"
proof (induction bs)
  case (Cons b bs)
  have "(unat b + 256 * le_val bs) div 256 = le_val bs"
    using unat_byte_less [of b] by simp
  moreover have "of_nat (unat b + 256 * le_val bs) = b"
    by (rule word_unat_eq_iff [THEN iffD2])
      (use unat_byte_less [of b] in \<open>simp add: unat_of_nat_byte del: of_nat_add of_nat_mult\<close>)
  ultimately show ?case using Cons.IH by simp
qed simp

text \<open>Reversing the object representation of an \<open>n\<close>-byte integer: the network byte order.\<close>

definition bswap :: "nat \<Rightarrow> nat \<Rightarrow> nat" where
  "bswap n v = le_val (rev (le_bytes n v))"

lemma bswap_less: "bswap n v < 256 ^ n"
  unfolding bswap_def using le_val_less [of "rev (le_bytes n v)"] by simp

lemma bswap_bswap: "v < 256 ^ n \<Longrightarrow> bswap n (bswap n v) = v"
proof -
  assume v: "v < 256 ^ n"
  have "le_bytes n (le_val (rev (le_bytes n v))) = rev (le_bytes n v)"
    using le_bytes_le_val [of "rev (le_bytes n v)"] by simp
  then show ?thesis using v by (simp add: bswap_def le_val_le_bytes)
qed

text \<open>\<^verbatim>\<open>be16toh\<close>, \<^verbatim>\<open>be32toh\<close>, \<^verbatim>\<open>be64toh\<close> and their inverses are the same byte swap.\<close>

definition be16toh :: "u16 \<Rightarrow> u16" where "be16toh w = of_nat (bswap 2 (unat w))"
definition be32toh :: "u32 \<Rightarrow> u32" where "be32toh w = of_nat (bswap 4 (unat w))"
definition be64toh :: "u64 \<Rightarrow> u64" where "be64toh w = of_nat (bswap 8 (unat w))"

lemma unat_be16toh: "unat (be16toh w) = bswap 2 (unat w)"
  using bswap_less [of 2] by (simp add: be16toh_def unat_of_nat)

lemma unat_be32toh: "unat (be32toh w) = bswap 4 (unat w)"
  using bswap_less [of 4] by (simp add: be32toh_def unat_of_nat)

lemma unat_be64toh: "unat (be64toh w) = bswap 8 (unat w)"
  using bswap_less [of 8] by (simp add: be64toh_def unat_of_nat)

lemma be16toh_be16toh [simp]: "be16toh (be16toh w) = w"
  using unat_bound [of w] by (simp add: word_unat_eq_iff unat_be16toh bswap_bswap)

lemma be32toh_be32toh [simp]: "be32toh (be32toh w) = w"
  using unat_bound [of w] by (simp add: word_unat_eq_iff unat_be32toh bswap_bswap)

lemma be64toh_be64toh [simp]: "be64toh (be64toh w) = w"
  using unat_bound [of w] by (simp add: word_unat_eq_iff unat_be64toh bswap_bswap)

section \<open>Conversions and decimals\<close>

lemma unat_ucast_wide:
  "unat (ucast (w :: u32) :: u64) = unat w" "unat (ucast (v :: u16) :: u32) = unat v"
  "unat (ucast (v :: u16) :: u64) = unat v"
  using unat_bound [of w] unat_bound [of v] by (simp_all add: unsigned_ucast_eq take_bit_nat_eq_self)

lemma sint_small: "unat (w :: u32) < 2 ^ 31 \<Longrightarrow> sint w = int (unat w)"
proof -
  assume "unat w < 2 ^ 31"
  then have "int (unat w) < 2 ^ 31" by (simp del: of_nat_unat)
  then have small: "uint w < 2 ^ 31" by (simp only: uint_nat)
  have "signed_take_bit 31 (uint w) = uint w"
    using small by (intro signed_take_bit_int_eq_self order_trans [OF _ uint_ge_0]) simp_all
  then show ?thesis by (simp add: sint_uint)
qed

lemma sint_large:
  assumes "2 ^ 31 \<le> unat (w :: u32)"
  shows "sint w = - 1 * int (2 ^ 32 - unat w)"
proof -
  have u: "2 ^ 31 \<le> uint w" "uint w < 2 ^ 32"
    using assms unat_bound [of w] by (simp_all add: uint_nat del: of_nat_unat)
  then have "uint w div 2 ^ 31 = 1" by (intro int_div_pos_eq [where r = "uint w - 2 ^ 31"]) simp_all
  then have "bit (uint w) 31" by (simp add: bit_iff_odd)
  moreover have "take_bit 32 (uint w) = uint w" using u by (simp add: take_bit_int_eq_self)
  ultimately have "sint w = uint w - 2 ^ 32"
    by (simp add: sint_uint signed_take_bit_eq_take_bit_minus)
  also have "\<dots> = int (unat w) - 2 ^ 32" by (simp only: uint_nat)
  also have "\<dots> = - 1 * int (2 ^ 32 - unat w)"
    using unat_bound [of w] by (simp add: of_nat_diff del: of_nat_unat)
  finally show ?thesis .
qed

text \<open>\<^verbatim>\<open>std::to_string\<close> of an unsigned integer.\<close>

fun to_string :: "nat \<Rightarrow> byte list" where
  "to_string n =
     (if n < 10 then [of_nat (48 + n)] else to_string (n div 10) @ [of_nat (48 + n mod 10)])"

declare to_string.simps [simp del]

end
