(* ===== verification/Level_Book.thy ===== *)
theory Level_Book
  imports Prelude
begin

text \<open>
  The interface between a price-aggregated book and its client.  A book promises a \<open>depth\<close>: for
  each side and price, the quantity of the level, if there is one.  The client keeps individual
  orders, and the question is whether the book is the aggregate of those orders.  The answer is
  proved here once, from the laws of the interface only.
\<close>

section \<open>Depth\<close>

type_synonym depth = "bool \<Rightarrow> i32 \<Rightarrow> u64 option"

definition is_buy :: "byte \<Rightarrow> bool" where
  "is_buy side \<longleftrightarrow> side = ascii CHR ''B''"

definition depth_set :: "depth \<Rightarrow> bool \<Rightarrow> i32 \<Rightarrow> u64 option \<Rightarrow> depth" where
  "depth_set d buy p v = d(buy := (d buy)(p := v))"

lemma depth_set_apply [simp]:
  "depth_set d buy p v buy' p' = (if buy' = buy \<and> p' = p then v else d buy' p')"
  by (simp add: depth_set_def)

section \<open>Resting orders and their total quantity\<close>

text \<open>A resting order is its side (\<open>True\<close> for buy), its price and the quantity left.\<close>

type_synonym resting = "bool \<times> i32 \<times> u64"

fun weight :: "bool \<Rightarrow> i32 \<Rightarrow> resting option \<Rightarrow> nat" where
  "weight buy p None = 0"
| "weight buy p (Some (buy', p', q)) = (if buy' = buy \<and> p' = p then unat q else 0)"

definition level_total :: "('k \<rightharpoonup> resting) \<Rightarrow> bool \<Rightarrow> i32 \<Rightarrow> nat" where
  "level_total r buy p = (\<Sum>k \<in> dom r. weight buy p (r k))"

lemma level_total_empty [simp]: "level_total Map.empty buy p = 0"
  by (simp add: level_total_def)

lemma level_total_superset:
  assumes "finite D" and "dom r \<subseteq> D"
  shows "level_total r buy p = (\<Sum>k \<in> D. weight buy p (r k))"
proof -
  have "\<forall>k \<in> D - dom r. weight buy p (r k) = 0" by (metis DiffD2 domIff weight.simps(1))
  then show ?thesis unfolding level_total_def using assms by (intro sum.mono_neutral_left) auto
qed

lemma level_total_upd:
  assumes "finite (dom r)"
  shows "level_total (r(k := e)) buy p + weight buy p (r k) = level_total r buy p + weight buy p e"
proof -
  let ?D = "insert k (dom r)" and ?w = "\<lambda>r k. weight buy p (r k)"
  have D: "finite ?D" using assms by simp
  have split: "(\<Sum>j \<in> ?D. ?w f j) = ?w f k + (\<Sum>j \<in> ?D - {k}. ?w f j)" for f
    using D by (intro sum.remove) simp_all
  have rest: "(\<Sum>j \<in> ?D - {k}. ?w (r(k := e)) j) = (\<Sum>j \<in> ?D - {k}. ?w r j)"
    by (rule sum.cong) auto
  have sub: "dom (r(k := e)) \<subseteq> ?D" by auto
  have "level_total (r(k := e)) buy p = weight buy p e + (\<Sum>j \<in> ?D - {k}. ?w r j)"
    using level_total_superset [OF D sub, of buy p] split [of "r(k := e)"] rest by simp
  moreover have "level_total r buy p = weight buy p (r k) + (\<Sum>j \<in> ?D - {k}. ?w r j)"
    using level_total_superset [OF D, of r buy p] split [of r] by auto
  ultimately show ?thesis by simp
qed

lemma weight_le_level_total: "finite (dom r) \<Longrightarrow> weight buy p (r k) \<le> level_total r buy p"
  using level_total_upd [of r k None buy p] by simp

text \<open>
  A depth represents a set of resting orders when every level is the sum of the orders at its
  price, no order is empty, and no level needs more than 64 bits.
\<close>

definition represents :: "depth \<Rightarrow> ('k \<rightharpoonup> resting) \<Rightarrow> bool" where
  "represents d r \<longleftrightarrow>
     finite (dom r) \<and> (\<forall>k buy p q. r k = Some (buy, p, q) \<longrightarrow> q \<noteq> 0) \<and>
     (\<forall>buy p. level_total r buy p < 2 ^ 64 \<and>
        d buy p = (if level_total r buy p = 0 then None else Some (of_nat (level_total r buy p))))"

lemma represents_empty [simp]: "represents (\<lambda>_ _. None) Map.empty"
  by (simp add: represents_def)

lemma represents_level:
  assumes "represents d r" and "r k = Some (buy, p, q)"
  shows "\<exists>x. d buy p = Some x \<and> unat x = level_total r buy p \<and> unat q \<le> unat x \<and> q \<noteq> 0"
proof -
  have fin: "finite (dom r)" and q: "q \<noteq> 0" and bound: "level_total r buy p < 2 ^ 64"
    and level: "d buy p = (if level_total r buy p = 0 then None else Some (of_nat (level_total r buy p)))"
    using assms by (auto simp: represents_def)
  have le: "unat q \<le> level_total r buy p"
    using weight_le_level_total [OF fin, of buy p k] assms(2) by simp
  have "unat (of_nat (level_total r buy p) :: u64) = level_total r buy p"
    using bound by (simp add: unat_of_nat)
  moreover have "0 < unat q" using q by (simp add: word_neq_0_conv unat_gt_0)
  ultimately show ?thesis using level le q by auto
qed

lemma level_total_pos_iff:
  assumes "finite (dom r)" and "\<And>k buy p q. r k = Some (buy, p, q) \<Longrightarrow> q \<noteq> 0"
  shows "0 < level_total r buy p \<longleftrightarrow> (\<exists>k q. r k = Some (buy, p, q))"
proof
  assume pos: "0 < level_total r buy p"
  have "\<not> (\<forall>k \<in> dom r. weight buy p (r k) = 0)"
  proof
    assume "\<forall>k \<in> dom r. weight buy p (r k) = 0"
    then have "level_total r buy p = 0" by (simp add: level_total_def)
    with pos show False by simp
  qed
  then obtain k where "k \<in> dom r" "0 < weight buy p (r k)" by blast
  moreover from this obtain buy' p' q where "r k = Some (buy', p', q)" by auto
  ultimately show "\<exists>k q. r k = Some (buy, p, q)" by (auto split: if_splits)
next
  assume "\<exists>k q. r k = Some (buy, p, q)"
  then obtain k q where k: "r k = Some (buy, p, q)" by blast
  then have "0 < weight buy p (r k)" using assms(2) by (simp add: unat_gt_0)
  then show "0 < level_total r buy p" using weight_le_level_total [OF assms(1), of buy p k] by simp
qed

lemma represents_dom:
  assumes "represents d r"
  shows "dom (d buy) = {p. \<exists>k q. r k = Some (buy, p, q)}"
proof -
  have "finite (dom r)" "\<And>k buy p q. r k = Some (buy, p, q) \<Longrightarrow> q \<noteq> 0"
    using assms by (auto simp: represents_def)
  then have "0 < level_total r buy p \<longleftrightarrow> (\<exists>k q. r k = Some (buy, p, q))" for p
    by (rule level_total_pos_iff)
  then show ?thesis using assms by (auto simp: represents_def dom_def)
qed

text \<open>
  Changing one order from \<open>r k\<close> to \<open>e\<close> changes one level, and the depth keeps representing the
  orders when that level is set to the new total.
\<close>

lemma represents_upd:
  assumes rep: "represents d r" and sum: "level_total (r(k := e)) buy p < 2 ^ 64"
    and other: "\<And>buy' p'. (buy', p') \<noteq> (buy, p) \<Longrightarrow> weight buy' p' e = weight buy' p' (r k)"
    and pos: "\<And>buy p q. e = Some (buy, p, q) \<Longrightarrow> q \<noteq> 0"
  shows "represents
    (depth_set d buy p
      (if level_total (r(k := e)) buy p = 0 then None else Some (of_nat (level_total (r(k := e)) buy p))))
    (r(k := e))"
proof -
  have fin: "finite (dom r)" using rep by (simp add: represents_def)
  have same: "level_total (r(k := e)) buy' p' = level_total r buy' p'" if "(buy', p') \<noteq> (buy, p)" for buy' p'
    using level_total_upd [OF fin, of k e buy' p'] other [OF that] by simp
  show ?thesis
    unfolding represents_def
  proof (intro conjI allI impI)
    show "finite (dom (r(k := e)))" using fin by (cases e) auto
    show "q \<noteq> 0" if "(r(k := e)) j = Some (b, x, q)" for j b x q
      using that pos rep by (auto simp: represents_def split: if_splits)
    fix buy' p'
    show "level_total (r(k := e)) buy' p' < 2 ^ 64"
      using sum same rep by (cases "(buy', p') = (buy, p)") (auto simp: represents_def)
    show "depth_set d buy p
        (if level_total (r(k := e)) buy p = 0 then None else Some (of_nat (level_total (r(k := e)) buy p))) buy' p' =
      (if level_total (r(k := e)) buy' p' = 0 then None else Some (of_nat (level_total (r(k := e)) buy' p')))"
      using same rep by (cases "(buy', p') = (buy, p)") (auto simp: represents_def)
  qed
qed

section \<open>The interface\<close>

locale level_book =
  fixes inv :: "'b \<Rightarrow> bool" and depth :: "'b \<Rightarrow> depth" and empty_book :: 'b
    and add :: "'b \<Rightarrow> byte \<Rightarrow> i32 \<Rightarrow> u64 \<Rightarrow> 'b"
    and execute :: "'b \<Rightarrow> byte \<Rightarrow> i32 \<Rightarrow> u64 \<Rightarrow> 'b result"
    and delete :: "'b \<Rightarrow> byte \<Rightarrow> i32 \<Rightarrow> u64 \<Rightarrow> 'b result"
  assumes inv_empty: "inv empty_book"
    and depth_empty: "depth empty_book = (\<lambda>_ _. None)"
    and inv_add: "inv b \<Longrightarrow> inv (add b s p q)"
    and depth_add: "inv b \<Longrightarrow> depth (add b s p q) = depth_set (depth b) (is_buy s) p
          (Some (case depth b (is_buy s) p of None \<Rightarrow> q | Some x \<Rightarrow> x + q))"
    and execute_ok: "inv b \<Longrightarrow> depth b (is_buy s) p = Some x \<Longrightarrow>
          \<exists>b'. execute b s p q = Inr b' \<and> inv b' \<and>
            depth b' = depth_set (depth b) (is_buy s) p (if q < x then Some (x - q) else None)"
    and delete_ok: "inv b \<Longrightarrow> depth b (is_buy s) p = Some x \<Longrightarrow>
          \<exists>b'. delete b s p q = Inr b' \<and> inv b' \<and>
            depth b' = depth_set (depth b) (is_buy s) p (if x = q then None else Some (x - q))"
begin

lemma add_represents:
  assumes inv: "inv b" and rep: "represents (depth b) r" and fresh: "r k = None" and q: "q \<noteq> 0"
    and bound: "level_total r (is_buy s) p + unat q < 2 ^ 64"
  shows "represents (depth (add b s p q)) (r(k \<mapsto> (is_buy s, p, q)))"
proof -
  let ?e = "Some (is_buy s, p, q)"
  have fin: "finite (dom r)" using rep by (simp add: represents_def)
  have tot: "level_total (r(k := ?e)) (is_buy s) p = level_total r (is_buy s) p + unat q"
    using level_total_upd [OF fin, of k ?e "is_buy s" p] fresh by simp
  have pos: "0 < unat q" using q by (simp add: unat_gt_0)
  have level: "(case depth b (is_buy s) p of None \<Rightarrow> q | Some x \<Rightarrow> x + q)
    = of_nat (level_total (r(k := ?e)) (is_buy s) p)"
    using rep by (auto simp: tot represents_def)
  have "represents (depth_set (depth b) (is_buy s) p
      (if level_total (r(k := ?e)) (is_buy s) p = 0 then None
       else Some (of_nat (level_total (r(k := ?e)) (is_buy s) p)))) (r(k := ?e))"
    using rep bound fresh q by (intro represents_upd) (auto simp: tot)
  then show ?thesis using depth_add [OF inv, of s p q] level pos tot by simp
qed

lemma take_represents:
  assumes rep: "represents (depth b) r" and k: "r k = Some (is_buy s, p, q)"
    and x: "x \<le> q" and level: "depth b (is_buy s) p = Some y"
    and d: "d = depth_set (depth b) (is_buy s) p (if y = x then None else Some (y - x))"
  shows "represents d (r(k := (if x = q then None else Some (is_buy s, p, q - x))))"
proof -
  define e where "e = (if x = q then None else Some (is_buy s, p, q - x))"
  have fin: "finite (dom r)" using rep by (simp add: represents_def)
  have y: "unat y = level_total r (is_buy s) p" "unat q \<le> unat y"
    using represents_level [OF rep k] level by auto
  have xq: "unat x \<le> unat q" using x by (simp add: word_le_nat_alt)
  have sub: "unat (q - x) = unat q - unat x" "unat (y - x) = unat y - unat x"
    using x xq y(2) by (auto simp: unat_sub word_le_nat_alt)
  have w: "weight (is_buy s) p e = unat q - unat x" using sub by (simp add: e_def)
  have tot: "level_total (r(k := e)) (is_buy s) p = unat y - unat x"
    using level_total_upd [OF fin, of k e "is_buy s" p] w k y xq by simp
  have "represents (depth_set (depth b) (is_buy s) p
      (if level_total (r(k := e)) (is_buy s) p = 0 then None
       else Some (of_nat (level_total (r(k := e)) (is_buy s) p)))) (r(k := e))"
  proof (rule represents_upd [OF rep])
    show "level_total (r(k := e)) (is_buy s) p < 2 ^ 64"
      unfolding tot using unat_bound [of y] by simp
    show "weight buy' p' e = weight buy' p' (r k)" if "(buy', p') \<noteq> (is_buy s, p)" for buy' p'
      using that k by (auto simp: e_def)
    show "q' \<noteq> 0" if "e = Some (buy, p'', q')" for buy p'' q'
      using that by (auto simp: e_def split: if_splits)
  qed
  moreover have "unat y - unat x = 0 \<longleftrightarrow> y = x"
    using y(2) xq by (auto simp: word_unat_eq_iff)
  moreover have diff: "of_nat (unat y - unat x) = y - x"
    using sub(2) [symmetric] by simp
  ultimately show ?thesis unfolding d tot e_def [symmetric] diff by simp
qed

lemma execute_represents:
  assumes inv: "inv b" and rep: "represents (depth b) r" and k: "r k = Some (is_buy s, p, q)"
    and x: "x \<le> q"
  shows "\<exists>b'. execute b s p x = Inr b' \<and> inv b' \<and>
    represents (depth b') (r(k := (if x = q then None else Some (is_buy s, p, q - x))))"
proof -
  obtain y where y: "depth b (is_buy s) p = Some y" "unat q \<le> unat y"
    using represents_level [OF rep k] by auto
  have "x \<le> y" using x y(2) by (simp add: word_le_nat_alt)
  then have "(if x < y then Some (y - x) else None) = (if y = x then None else Some (y - x))"
    by auto
  then show ?thesis
    using execute_ok [OF inv y(1), of x] take_represents [OF rep k x y(1)] by auto
qed

lemma delete_represents:
  assumes inv: "inv b" and rep: "represents (depth b) r" and k: "r k = Some (is_buy s, p, q)"
  shows "\<exists>b'. delete b s p q = Inr b' \<and> inv b' \<and> represents (depth b') (r(k := None))"
proof -
  obtain y where y: "depth b (is_buy s) p = Some y"
    using represents_level [OF rep k] by auto
  show ?thesis
    using delete_ok [OF inv y, of q] take_represents [OF rep k order_refl y] by auto
qed

end

end
