(* ===== verification/L2_Orderbook.thy ===== *)
theory L2_Orderbook
  imports Level_Book
begin

text \<open>
  The price-aggregated order book of \<^verbatim>\<open>src/lib/core/l2_orderbook.hpp\<close>: two vectors of
  \<open>(price, quantity)\<close> levels, each with its best level at the end.  The operations are translated
  with the vectors as lists and the reverse iterators as positions; the lemmas relate them to a
  finite map from prices to quantities.
\<close>

section \<open>Vectors and reverse iterators\<close>

text \<open>
  A \<^verbatim>\<open>reverse_iterator\<close> is the position of its \<^verbatim>\<open>base()\<close>: \<open>length levels\<close> is \<^verbatim>\<open>rbegin()\<close>,
  \<open>0\<close> is \<^verbatim>\<open>rend()\<close>, and position \<open>k > 0\<close> refers to element \<open>k - 1\<close>.
\<close>

type_synonym level = "i32 \<times> u64"

record L2Orderbook =
  m_bids :: "level list"
  m_asks :: "level list"

abbreviation (input) rend :: nat where "rend \<equiv> 0"

definition vec_insert :: "'a list \<Rightarrow> nat \<Rightarrow> 'a \<Rightarrow> 'a list" where
  "vec_insert xs i x = take i xs @ x # drop i xs"

definition vec_erase :: "'a list \<Rightarrow> nat \<Rightarrow> 'a list" where
  "vec_erase xs i = take i xs @ drop (Suc i) xs"

section \<open>Operations on one side of the book\<close>

primrec GetLevel_loop :: "level list \<Rightarrow> i32 \<Rightarrow> nat \<Rightarrow> nat" where
  "GetLevel_loop levels price 0 = rend"
| "GetLevel_loop levels price (Suc k) =
     (if fst (levels ! k) \<noteq> price then GetLevel_loop levels price k else Suc k)"

definition GetLevel :: "level list \<Rightarrow> i32 \<Rightarrow> nat" where
  "GetLevel levels price = GetLevel_loop levels price (length levels)"

primrec AddOrder_loop :: "(i32 \<Rightarrow> i32 \<Rightarrow> bool) \<Rightarrow> level list \<Rightarrow> i32 \<Rightarrow> nat \<Rightarrow> nat" where
  "AddOrder_loop cmp levels price 0 = rend"
| "AddOrder_loop cmp levels price (Suc k) =
     (if cmp (fst (levels ! k)) price then Suc k else AddOrder_loop cmp levels price k)"

text \<open>
  \<open>AddOrder_loop\<close> is the search for the insertion point; the insertion in its body happens at the
  position where it stops, and the test after the loop inserts at the front when it ran to
  \<^verbatim>\<open>rend()\<close>.  The vectors have a million elements reserved, so an insertion does not reallocate
  and the position compared after the loop is the one the loop stopped at.
\<close>

definition AddOrder_levels ::
  "(i32 \<Rightarrow> i32 \<Rightarrow> bool) \<Rightarrow> level list \<Rightarrow> i32 \<Rightarrow> u64 \<Rightarrow> level list" where
  "AddOrder_levels cmp levels price qty =
     (if levels = [] then [(price, qty)]
      else
        let iter = GetLevel levels price in
        if iter \<noteq> rend \<and> fst (levels ! (iter - 1)) = price
        then levels[iter - 1 := (fst (levels ! (iter - 1)), snd (levels ! (iter - 1)) + qty)]
        else
          let level_iter = AddOrder_loop cmp levels price (length levels);
              levels' = (if level_iter \<noteq> rend
                         then vec_insert levels level_iter (price, qty) else levels)
          in if level_iter = rend then vec_insert levels' 0 (price, qty) else levels')"

definition DeleteOrder_levels :: "level list \<Rightarrow> i32 \<Rightarrow> u64 \<Rightarrow> level list result" where
  "DeleteOrder_levels levels price qty =
     (let iter = GetLevel levels price in
      if \<not> (iter \<noteq> rend \<and> fst (levels ! (iter - 1)) = price) then Inl (ProcessExit 42)
      else
        let left = snd (levels ! (iter - 1)) - qty;
            levels' = levels[iter - 1 := (fst (levels ! (iter - 1)), left)]
        in if left \<le> 0 then Inr (vec_erase levels' (iter - 1)) else Inr levels')"

definition ReplaceOrder_levels ::
  "(i32 \<Rightarrow> i32 \<Rightarrow> bool) \<Rightarrow> level list \<Rightarrow> i32 \<Rightarrow> u64 \<Rightarrow> i32 \<Rightarrow> u64 \<Rightarrow> level list result" where
  "ReplaceOrder_levels cmp levels oldPrice oldQty newPrice newQty =
     (let iter = GetLevel levels oldPrice in
      if iter = rend then Inl EndDereference
      else
        let p = fst (levels ! (iter - 1)); q = snd (levels ! (iter - 1)) in
        if oldPrice = newPrice then Inr (levels[iter - 1 := (p, q - oldQty + newQty)])
        else
          let levels' = (if q > oldQty then levels[iter - 1 := (p, q - oldQty)]
                         else vec_erase levels (iter - 1))
          in Inr (AddOrder_levels cmp levels' newPrice newQty))"

definition ExecuteOrderImpl :: "level list \<Rightarrow> i32 \<Rightarrow> u64 \<Rightarrow> level list result" where
  "ExecuteOrderImpl levels price qty =
     (let iter = GetLevel levels price in
      if iter = rend then Inl EndDereference
      else
        let p = fst (levels ! (iter - 1)); q = snd (levels ! (iter - 1)) in
        if q > qty then Inr (levels[iter - 1 := (p, q - qty)])
        else Inr (vec_erase levels (iter - 1)))"

section \<open>Operations on the book\<close>

text \<open>A side is the character of the message; every character but \<open>B\<close> selects the asks.\<close>

definition empty_L2 :: L2Orderbook where
  "empty_L2 = \<lparr>m_bids = [], m_asks = []\<rparr>"

definition AddOrder :: "L2Orderbook \<Rightarrow> byte \<Rightarrow> i32 \<Rightarrow> u64 \<Rightarrow> L2Orderbook" where
  "AddOrder b side price qty =
     (if side = ascii CHR ''B''
      then b\<lparr>m_bids := AddOrder_levels (<) (m_bids b) price qty\<rparr>
      else b\<lparr>m_asks := AddOrder_levels (>) (m_asks b) price qty\<rparr>)"

definition DeleteOrder :: "L2Orderbook \<Rightarrow> byte \<Rightarrow> i32 \<Rightarrow> u64 \<Rightarrow> L2Orderbook result" where
  "DeleteOrder b side price qty =
     (if side = ascii CHR ''B''
      then res_bind (DeleteOrder_levels (m_bids b) price qty) (\<lambda>ls. Inr (b\<lparr>m_bids := ls\<rparr>))
      else res_bind (DeleteOrder_levels (m_asks b) price qty) (\<lambda>ls. Inr (b\<lparr>m_asks := ls\<rparr>)))"

definition ReplaceOrder ::
  "L2Orderbook \<Rightarrow> byte \<Rightarrow> i32 \<Rightarrow> u64 \<Rightarrow> i32 \<Rightarrow> u64 \<Rightarrow> L2Orderbook result" where
  "ReplaceOrder b side oldPrice oldQty newPrice newQty =
     (if side = ascii CHR ''B''
      then res_bind (ReplaceOrder_levels (<) (m_bids b) oldPrice oldQty newPrice newQty)
             (\<lambda>ls. Inr (b\<lparr>m_bids := ls\<rparr>))
      else res_bind (ReplaceOrder_levels (>) (m_asks b) oldPrice oldQty newPrice newQty)
             (\<lambda>ls. Inr (b\<lparr>m_asks := ls\<rparr>)))"

definition ExecuteOrder :: "L2Orderbook \<Rightarrow> byte \<Rightarrow> i32 \<Rightarrow> u64 \<Rightarrow> L2Orderbook result" where
  "ExecuteOrder b side price qty =
     (if side = ascii CHR ''B''
      then res_bind (ExecuteOrderImpl (m_bids b) price qty) (\<lambda>ls. Inr (b\<lparr>m_bids := ls\<rparr>))
      else res_bind (ExecuteOrderImpl (m_asks b) price qty) (\<lambda>ls. Inr (b\<lparr>m_asks := ls\<rparr>)))"

definition GetBestPrices :: "L2Orderbook \<Rightarrow> (i32 \<times> i32) result" where
  "GetBestPrices b =
     (if m_bids b = [] \<or> m_asks b = [] then Inl EndDereference
      else Inr (fst (last (m_bids b)), fst (last (m_asks b))))"

text \<open>\<^verbatim>\<open>Dump\<close> walks the asks and then the bids from the best one down; its result is whether it
  reports \<^verbatim>\<open>BAD ORDERBOOK\<close>.\<close>

definition INT_MAX :: i32 where "INT_MAX = 2147483647"

fun Dump_scan :: "i32 \<Rightarrow> bool \<Rightarrow> level list \<Rightarrow> i32 \<times> bool" where
  "Dump_scan prev_price bad [] = (prev_price, bad)"
| "Dump_scan prev_price bad ((px, qty) # ls) =
     Dump_scan px (bad \<or> prev_price \<le> px \<or> qty = 0) ls"

definition Dump :: "L2Orderbook \<Rightarrow> bool" where
  "Dump b =
     (case Dump_scan INT_MAX False (m_asks b) of
        (prev_price, bad) \<Rightarrow> snd (Dump_scan prev_price bad (rev (m_bids b))))"

section \<open>Vectors as finite maps\<close>

lemma vec_erase_decomp: "i < length ls \<Longrightarrow> ls = take i ls @ ls ! i # drop (Suc i) ls"
  by (rule id_take_nth_drop)

lemma map_fst_update [simp]:
  "i < length ls \<Longrightarrow> map fst (ls[i := (fst (ls ! i), q)]) = map fst ls"
  by (metis fst_conv list_update_id map_update nth_map)

lemma map_of_update:
  assumes "distinct (map fst ls)" and "i < length ls"
  shows "map_of (ls[i := (fst (ls ! i), q)]) = (map_of ls)(fst (ls ! i) \<mapsto> q)"
  using assms
proof (induction ls arbitrary: i)
  case (Cons l ls)
  then show ?case by (cases l; cases i) (auto simp: fun_eq_iff dest: nth_mem)
qed simp

lemma map_of_erase:
  assumes "distinct (map fst ls)" and "i < length ls"
  shows "map_of (vec_erase ls i) = (map_of ls)(fst (ls ! i) := None)"
  using assms
proof (induction ls arbitrary: i)
  case (Cons l ls)
  show ?case
  proof (cases i)
    case 0
    with Cons.prems show ?thesis
      by (cases l) (auto simp: vec_erase_def fun_eq_iff map_of_eq_None_iff)
  next
    case (Suc j)
    with Cons show ?thesis
      by (cases l) (auto simp: vec_erase_def fun_eq_iff dest: nth_mem)
  qed
qed simp

lemma map_of_insert:
  "p \<notin> fst ` set ls \<Longrightarrow> map_of (vec_insert ls i (p, q)) = (map_of ls)(p \<mapsto> q)"
proof -
  assume p: "p \<notin> fst ` set ls"
  have "p \<notin> fst ` set (take i ls)"
    using p by (auto dest: in_set_takeD)
  then have "map_of (take i ls) p = None"
    by (simp add: map_of_eq_None_iff)
  then have "map_of (vec_insert ls i (p, q)) = (map_of (take i ls @ drop i ls))(p \<mapsto> q)"
    unfolding vec_insert_def map_of_append by (auto simp: fun_eq_iff map_add_def split: option.splits)
  then show ?thesis by simp
qed

lemma map_fst_erase: "map fst (vec_erase ls i) = vec_erase (map fst ls) i"
  by (simp add: vec_erase_def take_map drop_map)

lemma map_fst_insert: "map fst (vec_insert ls i l) = vec_insert (map fst ls) i (fst l)"
  by (simp add: vec_insert_def take_map drop_map)

lemma sorted_wrt_erase: "sorted_wrt R xs \<Longrightarrow> sorted_wrt R (vec_erase xs i)"
proof -
  assume "sorted_wrt R xs"
  then have "sorted_wrt R (take i xs @ drop i xs)" by simp
  then show ?thesis
    unfolding vec_erase_def sorted_wrt_append
    by (metis drop_Suc drop_drop in_set_dropD plus_1_eq_Suc sorted_wrt_drop tl_drop)
qed

lemma vec_erase_update [simp]: "vec_erase (xs[i := x]) i = vec_erase xs i"
  by (simp add: vec_erase_def)

section \<open>The level search\<close>

lemma GetLevel_loop_bound: "GetLevel_loop ls p k \<le> k"
  by (induction k) auto

lemma GetLevel_loop_hit: "GetLevel_loop ls p k = Suc i \<Longrightarrow> fst (ls ! i) = p"
  by (induction k) (auto split: if_splits)

lemma GetLevel_loop_miss: "GetLevel_loop ls p k = 0 \<longleftrightarrow> (\<forall>i < k. fst (ls ! i) \<noteq> p)"
  by (induction k) (auto simp: less_Suc_eq)

lemma GetLevel_rend: "GetLevel ls p = rend \<longleftrightarrow> map_of ls p = None"
  unfolding GetLevel_def GetLevel_loop_miss map_of_eq_None_iff
  by (metis (no_types, opaque_lifting) image_iff in_set_conv_nth)

lemma GetLevel_hit:
  assumes "GetLevel ls p = Suc i"
  shows "i < length ls" and "fst (ls ! i) = p"
  using assms GetLevel_loop_bound [of ls p "length ls"] GetLevel_loop_hit
  by (auto simp: GetLevel_def)

lemma GetLevel_cases [case_names miss hit]:
  assumes "GetLevel ls p = rend \<Longrightarrow> map_of ls p = None \<Longrightarrow> P"
    and "\<And>i. GetLevel ls p = Suc i \<Longrightarrow> i < length ls \<Longrightarrow> fst (ls ! i) = p \<Longrightarrow> P"
  shows P
  using assms GetLevel_rend GetLevel_hit by (cases "GetLevel ls p") auto

lemma map_of_nth_distinct:
  "distinct (map fst ls) \<Longrightarrow> i < length ls \<Longrightarrow> map_of ls (fst (ls ! i)) = Some (snd (ls ! i))"
  by (simp add: map_of_eq_Some_iff)

lemma AddOrder_loop_bound: "AddOrder_loop cmp ls p k \<le> k"
  by (induction k) auto

lemma AddOrder_loop_stop:
  "AddOrder_loop cmp ls p k = Suc i \<Longrightarrow> cmp (fst (ls ! i)) p"
  by (induction k) (auto split: if_splits)

lemma AddOrder_loop_passed:
  "AddOrder_loop cmp ls p k \<le> i \<Longrightarrow> i < k \<Longrightarrow> \<not> cmp (fst (ls ! i)) p"
  by (induction k) (auto simp: less_Suc_eq split: if_splits)

section \<open>The ordering contract of one side\<close>

text \<open>
  Both sides run the same code with a different comparator, \<^verbatim>\<open>std::less<>\<close> for the bids and
  \<^verbatim>\<open>std::greater<>\<close> for the asks.  What the code needs of a comparator is a strict linear order;
  the facts about one side are proved once from that.
\<close>

locale price_order =
  fixes cmp :: "i32 \<Rightarrow> i32 \<Rightarrow> bool"
  assumes cmp_irrefl: "\<not> cmp x x"
    and cmp_trans: "cmp x y \<Longrightarrow> cmp y z \<Longrightarrow> cmp x z"
    and cmp_total: "x \<noteq> y \<Longrightarrow> cmp x y \<or> cmp y x"
begin

lemma sorted_distinct: "sorted_wrt cmp xs \<Longrightarrow> distinct xs"
  by (induction xs) (auto simp: cmp_irrefl)

lemma sorted_insert:
  assumes "sorted_wrt cmp xs" and "i \<le> length xs"
    and "\<And>x. x \<in> set (take i xs) \<Longrightarrow> cmp x p" and "\<And>x. x \<in> set (drop i xs) \<Longrightarrow> cmp p x"
  shows "sorted_wrt cmp (vec_insert xs i p)"
proof -
  have "sorted_wrt cmp (take i xs @ drop i xs)" using assms(1) by simp
  then show ?thesis
    using assms(3,4) unfolding vec_insert_def sorted_wrt_append by auto
qed

text \<open>The insertion point splits the levels into the ones before and the ones after the price.\<close>

lemma insertion_point:
  assumes sorted: "sorted_wrt cmp (map fst ls)" and new: "p \<notin> fst ` set ls"
    and i: "i = AddOrder_loop cmp ls p (length ls)"
  shows "i \<le> length ls"
    and "x \<in> set (take i (map fst ls)) \<Longrightarrow> cmp x p"
    and "x \<in> set (drop i (map fst ls)) \<Longrightarrow> cmp p x"
proof -
  show bound: "i \<le> length ls"
    unfolding i by (rule AddOrder_loop_bound)
  show "cmp x p" if x: "x \<in> set (take i (map fst ls))"
  proof -
    from x obtain j where j: "j < i" "x = fst (ls ! j)"
      using bound by (auto simp: in_set_conv_nth)
    then obtain k where k: "i = Suc k" by (cases i) auto
    have stop: "cmp (fst (ls ! k)) p"
      using AddOrder_loop_stop i k by metis
    show ?thesis
    proof (cases "j = k")
      case True
      then show ?thesis using stop j by simp
    next
      case False
      then have "cmp (fst (ls ! j)) (fst (ls ! k))"
        using sorted_wrt_nth_less [OF sorted, of j k] j k bound by simp
      then show ?thesis using stop cmp_trans j by blast
    qed
  qed
  show "cmp p x" if x: "x \<in> set (drop i (map fst ls))"
  proof -
    from x obtain j where j: "i \<le> j" "j < length ls" "x = fst (ls ! j)"
      using bound by (auto simp: in_set_conv_nth) (metis add.commute le_add2 less_diff_conv nth_map)
    have "\<not> cmp x p" using AddOrder_loop_passed [of cmp ls p "length ls" j] i j by simp
    moreover have "x \<noteq> p" using new j by (metis image_eqI nth_mem)
    ultimately show ?thesis using cmp_total by blast
  qed
qed

lemma AddOrder_levels_new:
  assumes sorted: "sorted_wrt cmp (map fst ls)" and new: "map_of ls p = None"
  shows "sorted_wrt cmp (map fst (AddOrder_levels cmp ls p q))"
    and "map_of (AddOrder_levels cmp ls p q) = (map_of ls)(p \<mapsto> q)"
proof -
  define i where "i = AddOrder_loop cmp ls p (length ls)"
  have new': "p \<notin> fst ` set ls" using new by (simp add: map_of_eq_None_iff)
  have eq: "AddOrder_levels cmp ls p q = vec_insert ls i (p, q)"
    using GetLevel_rend [of ls p] new
    by (auto simp: AddOrder_levels_def i_def Let_def vec_insert_def)
  note split = insertion_point [OF sorted new' i_def]
  show "sorted_wrt cmp (map fst (AddOrder_levels cmp ls p q))"
    unfolding eq map_fst_insert using split sorted by (intro sorted_insert) auto
  show "map_of (AddOrder_levels cmp ls p q) = (map_of ls)(p \<mapsto> q)"
    unfolding eq using new' by (rule map_of_insert)
qed

lemma AddOrder_levels_old:
  assumes sorted: "sorted_wrt cmp (map fst ls)" and old: "map_of ls p = Some x"
  shows "sorted_wrt cmp (map fst (AddOrder_levels cmp ls p q))"
    and "map_of (AddOrder_levels cmp ls p q) = (map_of ls)(p \<mapsto> x + q)"
proof -
  have dist: "distinct (map fst ls)" using sorted by (rule sorted_distinct)
  obtain i where i: "GetLevel ls p = Suc i" "i < length ls" "fst (ls ! i) = p"
    using old by (cases rule: GetLevel_cases [of ls p]) auto
  have x: "snd (ls ! i) = x"
    using map_of_nth_distinct [OF dist i(2)] i(3) old by simp
  have eq: "AddOrder_levels cmp ls p q = ls[i := (fst (ls ! i), x + q)]"
    using i x by (auto simp: AddOrder_levels_def Let_def)
  show "sorted_wrt cmp (map fst (AddOrder_levels cmp ls p q))"
    unfolding eq map_fst_update [OF i(2)] by (rule sorted)
  show "map_of (AddOrder_levels cmp ls p q) = (map_of ls)(p \<mapsto> x + q)"
    unfolding eq using map_of_update [OF dist i(2)] i(3) by simp
qed

lemma AddOrder_levels_sorted:
  "sorted_wrt cmp (map fst ls) \<Longrightarrow> sorted_wrt cmp (map fst (AddOrder_levels cmp ls p q))"
  using AddOrder_levels_new(1) AddOrder_levels_old(1) by (cases "map_of ls p") auto

lemma AddOrder_levels_map:
  "sorted_wrt cmp (map fst ls) \<Longrightarrow>
   map_of (AddOrder_levels cmp ls p q) =
     (map_of ls)(p \<mapsto> (case map_of ls p of None \<Rightarrow> q | Some x \<Rightarrow> x + q))"
  using AddOrder_levels_new(2) AddOrder_levels_old(2) by (cases "map_of ls p") auto

text \<open>The two primitive changes of an existing level: overwrite its quantity, drop it.\<close>

lemma set_level:
  assumes sorted: "sorted_wrt cmp (map fst ls)" and i: "i < length ls" "fst (ls ! i) = p"
  shows "sorted_wrt cmp (map fst (ls[i := (p, q)]))"
    and "map_of (ls[i := (p, q)]) = (map_of ls)(p \<mapsto> q)"
  using sorted map_fst_update [OF i(1)] map_of_update [OF sorted_distinct [OF sorted] i(1)] i(2)
  by auto

lemma drop_level:
  assumes sorted: "sorted_wrt cmp (map fst ls)" and i: "i < length ls" "fst (ls ! i) = p"
  shows "sorted_wrt cmp (map fst (vec_erase ls i))"
    and "map_of (vec_erase ls i) = (map_of ls)(p := None)"
  using sorted sorted_wrt_erase map_of_erase [OF sorted_distinct [OF sorted] i(1)] i(2)
  by (auto simp: map_fst_erase)

lemma level_value:
  assumes "sorted_wrt cmp (map fst ls)" and "i < length ls" and "fst (ls ! i) = p"
  shows "map_of ls p = Some (snd (ls ! i))"
  using assms map_of_nth_distinct sorted_distinct by metis

lemma DeleteOrder_levels_spec:
  assumes sorted: "sorted_wrt cmp (map fst ls)"
  shows "case DeleteOrder_levels ls p q of
      Inl e \<Rightarrow> map_of ls p = None \<and> e = ProcessExit 42
    | Inr ls' \<Rightarrow> \<exists>x. map_of ls p = Some x \<and> sorted_wrt cmp (map fst ls') \<and>
        map_of ls' = (map_of ls)(p := (if x = q then None else Some (x - q)))"
proof (cases rule: GetLevel_cases [of ls p])
  case (hit i)
  then show ?thesis
    using set_level [OF sorted hit(2,3)] drop_level [OF sorted hit(2,3)]
      level_value [OF sorted hit(2,3)]
    by (auto simp: DeleteOrder_levels_def Let_def)
qed (simp add: DeleteOrder_levels_def)

lemma ExecuteOrderImpl_spec:
  assumes sorted: "sorted_wrt cmp (map fst ls)"
  shows "case ExecuteOrderImpl ls p q of
      Inl e \<Rightarrow> map_of ls p = None \<and> e = EndDereference
    | Inr ls' \<Rightarrow> \<exists>x. map_of ls p = Some x \<and> sorted_wrt cmp (map fst ls') \<and>
        map_of ls' = (map_of ls)(p := (if q < x then Some (x - q) else None))"
proof (cases rule: GetLevel_cases [of ls p])
  case (hit i)
  then show ?thesis
    using set_level [OF sorted hit(2,3)] drop_level [OF sorted hit(2,3)]
      level_value [OF sorted hit(2,3)]
    by (auto simp: ExecuteOrderImpl_def Let_def)
qed (simp add: ExecuteOrderImpl_def)

lemma ReplaceOrder_levels_spec:
  assumes sorted: "sorted_wrt cmp (map fst ls)"
  shows "case ReplaceOrder_levels cmp ls p q p' q' of
      Inl e \<Rightarrow> map_of ls p = None \<and> e = EndDereference
    | Inr ls' \<Rightarrow> \<exists>x. map_of ls p = Some x \<and> sorted_wrt cmp (map fst ls') \<and>
        map_of ls' =
          (if p = p' then (map_of ls)(p \<mapsto> x - q + q')
           else (map_of ls)(p := (if q < x then Some (x - q) else None),
                            p' \<mapsto> (case map_of ls p' of None \<Rightarrow> q' | Some y \<Rightarrow> y + q')))"
proof (cases rule: GetLevel_cases [of ls p])
  case (hit i)
  note facts = set_level [OF sorted hit(2,3)] drop_level [OF sorted hit(2,3)]
    level_value [OF sorted hit(2,3)]
  show ?thesis
  proof (cases "p = p'")
    case True
    then show ?thesis using hit facts by (auto simp: ReplaceOrder_levels_def Let_def)
  next
    case False
    define ls1 where "ls1 = (if q < snd (ls ! i) then ls[i := (p, snd (ls ! i) - q)]
                             else vec_erase ls i)"
    have ls1: "sorted_wrt cmp (map fst ls1)"
      "map_of ls1 = (map_of ls)(p := (if q < snd (ls ! i) then Some (snd (ls ! i) - q) else None))"
      using facts by (auto simp: ls1_def)
    have "ReplaceOrder_levels cmp ls p q p' q' = Inr (AddOrder_levels cmp ls1 p' q')"
      using hit False by (auto simp: ReplaceOrder_levels_def ls1_def Let_def)
    then show ?thesis
      using AddOrder_levels_sorted [OF ls1(1)] AddOrder_levels_map [OF ls1(1), of p' q'] ls1(2)
        False facts(5)
      by simp
  qed
qed (simp add: ReplaceOrder_levels_def)

text \<open>A side is determined by the quantities at its prices.\<close>

lemma same_levels:
  assumes "sorted_wrt cmp (map fst xs)" and "sorted_wrt cmp (map fst ys)" and "set xs = set ys"
  shows "xs = ys"
  using assms
proof (induction xs arbitrary: ys)
  case (Cons x xs)
  then obtain y zs where ys: "ys = y # zs" by (cases ys) auto
  have x: "x \<notin> set xs" "y \<notin> set zs" and ahead: "\<forall>l \<in> set xs. cmp (fst x) (fst l)"
    "\<forall>l \<in> set zs. cmp (fst y) (fst l)"
    using Cons.prems(1,2) cmp_irrefl by (auto simp: ys)
  have "x = y"
  proof (rule ccontr)
    assume "x \<noteq> y"
    then have "cmp (fst x) (fst y)" "cmp (fst y) (fst x)" using Cons.prems(3) ahead by (auto simp: ys)
    then show False using cmp_trans cmp_irrefl by blast
  qed
  then have "set xs = set zs" using Cons.prems(3) x by (auto simp: ys)
  then show ?case using Cons.IH [of zs] Cons.prems(1,2) \<open>x = y\<close> by (simp add: ys)
qed simp

lemma same_map:
  assumes "sorted_wrt cmp (map fst xs)" and "sorted_wrt cmp (map fst ys)" and "map_of xs = map_of ys"
  shows "xs = ys"
proof -
  have "set xs = set ys"
    using map_of_eq_Some_iff [OF sorted_distinct [OF assms(1)]]
      map_of_eq_Some_iff [OF sorted_distinct [OF assms(2)]] assms(3) by auto
  then show ?thesis by (rule same_levels [OF assms(1,2)])
qed

text \<open>The best level is the last one: every other price compares before it.\<close>

lemma best_is_last:
  "sorted_wrt cmp (map fst ls) \<Longrightarrow> p \<in> fst ` set ls \<Longrightarrow> p = fst (last ls) \<or> cmp p (fst (last ls))"
  by (induction ls) auto

end

interpretation bid_order: price_order "(<)"
  by unfold_locales auto

interpretation ask_order: price_order "(>)"
  by unfold_locales auto

section \<open>The book as a depth\<close>

definition book_ok :: "L2Orderbook \<Rightarrow> bool" where
  "book_ok b \<longleftrightarrow> sorted_wrt (<) (map fst (m_bids b)) \<and> sorted_wrt (>) (map fst (m_asks b))"

definition book_depth :: "L2Orderbook \<Rightarrow> depth" where
  "book_depth b buy = map_of (if buy then m_bids b else m_asks b)"

lemmas book_defs = book_ok_def book_depth_def is_buy_def [symmetric] depth_set_def fun_eq_iff

lemma AddOrder_ok: "book_ok b \<Longrightarrow> book_ok (AddOrder b s p q)"
  using bid_order.AddOrder_levels_sorted ask_order.AddOrder_levels_sorted
  by (auto simp: AddOrder_def book_ok_def)

lemma AddOrder_depth:
  "book_ok b \<Longrightarrow> book_depth (AddOrder b s p q) = depth_set (book_depth b) (is_buy s) p
     (Some (case book_depth b (is_buy s) p of None \<Rightarrow> q | Some x \<Rightarrow> x + q))"
  using bid_order.AddOrder_levels_map [of "m_bids b"] ask_order.AddOrder_levels_map [of "m_asks b"]
  by (auto simp: AddOrder_def book_defs)

lemma DeleteOrder_depth:
  assumes "book_ok b"
  shows "case DeleteOrder b s p q of
      Inl e \<Rightarrow> book_depth b (is_buy s) p = None \<and> e = ProcessExit 42
    | Inr b' \<Rightarrow> \<exists>x. book_depth b (is_buy s) p = Some x \<and> book_ok b' \<and>
        book_depth b' = depth_set (book_depth b) (is_buy s) p
          (if x = q then None else Some (x - q))"
  using assms bid_order.DeleteOrder_levels_spec [of "m_bids b" p q]
    ask_order.DeleteOrder_levels_spec [of "m_asks b" p q]
  by (cases "DeleteOrder_levels (m_bids b) p q"; cases "DeleteOrder_levels (m_asks b) p q")
    (auto simp: DeleteOrder_def book_defs)

lemma ExecuteOrder_depth:
  assumes "book_ok b"
  shows "case ExecuteOrder b s p q of
      Inl e \<Rightarrow> book_depth b (is_buy s) p = None \<and> e = EndDereference
    | Inr b' \<Rightarrow> \<exists>x. book_depth b (is_buy s) p = Some x \<and> book_ok b' \<and>
        book_depth b' = depth_set (book_depth b) (is_buy s) p
          (if q < x then Some (x - q) else None)"
  using assms bid_order.ExecuteOrderImpl_spec [of "m_bids b" p q]
    ask_order.ExecuteOrderImpl_spec [of "m_asks b" p q]
  by (cases "ExecuteOrderImpl (m_bids b) p q"; cases "ExecuteOrderImpl (m_asks b) p q")
    (auto simp: ExecuteOrder_def book_defs)

lemma ReplaceOrder_depth:
  assumes "book_ok b"
  shows "case ReplaceOrder b s p q p' q' of
      Inl e \<Rightarrow> book_depth b (is_buy s) p = None \<and> e = EndDereference
    | Inr b' \<Rightarrow> \<exists>x. book_depth b (is_buy s) p = Some x \<and> book_ok b' \<and>
        book_depth b' =
          (if p = p' then depth_set (book_depth b) (is_buy s) p (Some (x - q + q'))
           else depth_set
             (depth_set (book_depth b) (is_buy s) p (if q < x then Some (x - q) else None))
             (is_buy s) p'
             (Some (case book_depth b (is_buy s) p' of None \<Rightarrow> q' | Some y \<Rightarrow> y + q')))"
  using assms bid_order.ReplaceOrder_levels_spec [of "m_bids b" p p' q q']
    ask_order.ReplaceOrder_levels_spec [of "m_asks b" p p' q q']
  by (cases "ReplaceOrder_levels (<) (m_bids b) p q p' q'";
      cases "ReplaceOrder_levels (>) (m_asks b) p q p' q'")
    (auto simp: ReplaceOrder_def book_defs)

interpretation l2: level_book book_ok book_depth empty_L2 AddOrder ExecuteOrder DeleteOrder
proof
  show "book_ok empty_L2" and "book_depth empty_L2 = (\<lambda>_ _. None)"
    by (auto simp: empty_L2_def book_ok_def book_depth_def fun_eq_iff)
next
  fix b s p q x
  assume inv: "book_ok b"
  show "book_ok (AddOrder b s p q)" using inv by (rule AddOrder_ok)
  show "book_depth (AddOrder b s p q) = depth_set (book_depth b) (is_buy s) p
     (Some (case book_depth b (is_buy s) p of None \<Rightarrow> q | Some x \<Rightarrow> x + q))"
    using inv by (rule AddOrder_depth)
  assume x: "book_depth b (is_buy s) p = Some x"
  show "\<exists>b'. ExecuteOrder b s p q = Inr b' \<and> book_ok b' \<and>
      book_depth b' = depth_set (book_depth b) (is_buy s) p (if q < x then Some (x - q) else None)"
    using ExecuteOrder_depth [OF inv, of s p q] x by (cases "ExecuteOrder b s p q") auto
  show "\<exists>b'. DeleteOrder b s p q = Inr b' \<and> book_ok b' \<and>
      book_depth b' = depth_set (book_depth b) (is_buy s) p (if x = q then None else Some (x - q))"
    using DeleteOrder_depth [OF inv, of s p q] x by (cases "DeleteOrder b s p q") auto
qed

lemma book_eqI:
  assumes "book_ok b" and "book_ok b'" and "book_depth b = book_depth b'"
  shows "b = b'"
proof -
  have "map_of (m_bids b) = map_of (m_bids b')" "map_of (m_asks b) = map_of (m_asks b')"
    using fun_cong [OF assms(3), of True] fun_cong [OF assms(3), of False]
    by (simp_all add: book_depth_def)
  then have "m_bids b = m_bids b'" "m_asks b = m_asks b'"
    using assms(1,2) bid_order.same_map ask_order.same_map by (auto simp: book_ok_def)
  then show ?thesis by simp
qed

lemma DeleteOrder_AddOrder:
  assumes "book_ok b" and "qty \<noteq> 0" and "book_depth b (is_buy side) price \<noteq> Some 0"
  shows "DeleteOrder (AddOrder b side price qty) side price qty = Inr b"
proof -
  note add = AddOrder_ok [OF assms(1), of side price qty] AddOrder_depth [OF assms(1), of side price qty]
  let ?d = "DeleteOrder (AddOrder b side price qty) side price qty"
  obtain b' where b': "?d = Inr b'" "book_ok b'" "book_depth b' = book_depth b"
    using DeleteOrder_depth [OF add(1), of side price qty] add(2) assms(2,3)
    by (cases ?d) (auto simp: depth_set_def fun_eq_iff split: option.splits)
  then show ?thesis using book_eqI [OF b'(2) assms(1) b'(3)] by simp
qed

section \<open>Best prices and the consistency check\<close>

lemma dom_book_depth:
  "dom (book_depth b True) = fst ` set (m_bids b)" "dom (book_depth b False) = fst ` set (m_asks b)"
  by (auto simp: book_depth_def dom_map_of_conv_image_fst)

lemma best_bid:
  assumes "book_ok b" and "m_bids b \<noteq> []"
  shows "fst (last (m_bids b)) = Max (dom (book_depth b True))"
proof (rule Max_eqI [symmetric])
  show "fst (last (m_bids b)) \<in> dom (book_depth b True)"
    using assms(2) by (simp add: dom_book_depth)
  show "p \<le> fst (last (m_bids b))" if "p \<in> dom (book_depth b True)" for p
    using that assms(1) bid_order.best_is_last [of "m_bids b" p]
    by (auto simp: dom_book_depth book_ok_def)
qed (simp add: dom_book_depth)

lemma best_ask:
  assumes "book_ok b" and "m_asks b \<noteq> []"
  shows "fst (last (m_asks b)) = Min (dom (book_depth b False))"
proof (rule Min_eqI [symmetric])
  show "fst (last (m_asks b)) \<in> dom (book_depth b False)"
    using assms(2) by (simp add: dom_book_depth)
  show "fst (last (m_asks b)) \<le> p" if "p \<in> dom (book_depth b False)" for p
    using that assms(1) ask_order.best_is_last [of "m_asks b" p]
    by (auto simp: dom_book_depth book_ok_def)
qed (simp add: dom_book_depth)

lemma Dump_scan_append:
  "Dump_scan prev bad (xs @ ys) = (case Dump_scan prev bad xs of (p, b) \<Rightarrow> Dump_scan p b ys)"
  by (induction prev bad xs rule: Dump_scan.induct) auto

lemma Dump_scan_ok:
  "\<not> snd (Dump_scan prev bad ls) \<longleftrightarrow>
     \<not> bad \<and> sorted_wrt (>) (prev # map fst ls) \<and> (\<forall>l \<in> set ls. snd l \<noteq> 0)"
  by (induction prev bad ls rule: Dump_scan.induct) fastforce+

section \<open>Properties\<close>

text \<open>A two-sided book for the concrete instances.\<close>

definition sample_book :: L2Orderbook where
  "sample_book = \<lparr>m_bids = [(90, 5), (100, 7)], m_asks = [(120, 1), (110, 2)]\<rparr>"

lemma sample_book_ok: "book_ok sample_book"
  by (simp add: sample_book_def book_ok_def)

lemma sample_depth:
  "book_depth sample_book buy = (if buy then [90 \<mapsto> 5, 100 \<mapsto> 7] else [120 \<mapsto> 1, 110 \<mapsto> 2])"
  by (auto simp: sample_book_def book_depth_def fun_eq_iff)

lemmas sample_defs = sample_depth is_buy_def ascii_def

text \<open>
  C6. Adding an order keeps both sides strictly sorted with the best price at the end, adds the
  quantity (modulo \<open>2 ^ 64\<close>) to the level of its price or creates that level, and changes nothing else.
\<close>

theorem l2_AddOrder_refines:
  assumes "book_ok b"
  shows "book_ok (AddOrder b side price qty) \<and>
    book_depth (AddOrder b side price qty) = depth_set (book_depth b) (is_buy side) price
      (Some (case book_depth b (is_buy side) price of None \<Rightarrow> qty | Some x \<Rightarrow> x + qty))"
  using assms AddOrder_ok AddOrder_depth by blast

theorem l2_AddOrder_refines_witness:
  "book_ok sample_book \<and>
   book_depth (AddOrder sample_book (ascii CHR ''B'') 95 3) True 95 = Some 3 \<and>
   book_depth (AddOrder sample_book (ascii CHR ''S'') 110 4) False 110 = Some 6"
  using l2_AddOrder_refines [OF sample_book_ok, of "ascii CHR ''B''" 95 3]
    l2_AddOrder_refines [OF sample_book_ok, of "ascii CHR ''S''" 110 4] sample_book_ok
  by (simp add: sample_defs)

text \<open>
  C7. Deleting takes the quantity off the level and erases the level exactly when it reaches zero;
  without a level at that price the process exits with status 42.
\<close>

theorem l2_DeleteOrder_refines:
  assumes "book_ok b"
  shows "case book_depth b (is_buy side) price of
      None \<Rightarrow> DeleteOrder b side price qty = Inl (ProcessExit 42)
    | Some x \<Rightarrow> \<exists>b'. DeleteOrder b side price qty = Inr b' \<and> book_ok b' \<and>
        book_depth b' = depth_set (book_depth b) (is_buy side) price
          (if x = qty then None else Some (x - qty))"
  using DeleteOrder_depth [OF assms, of side price qty]
  by (cases "DeleteOrder b side price qty") auto

theorem l2_DeleteOrder_refines_witness:
  "(\<exists>b'. DeleteOrder sample_book (ascii CHR ''B'') 100 7 = Inr b' \<and> book_depth b' True 100 = None) \<and>
   DeleteOrder sample_book (ascii CHR ''B'') 95 7 = Inl (ProcessExit 42)"
  using l2_DeleteOrder_refines [OF sample_book_ok, of "ascii CHR ''B''" 100 7]
    l2_DeleteOrder_refines [OF sample_book_ok, of "ascii CHR ''B''" 95 7]
  by (auto simp: sample_defs)

text \<open>
  C8. Executing takes the quantity off the level, or erases the level when no more than that was
  there; without a level at that price the end iterator is dereferenced.
\<close>

theorem l2_ExecuteOrder_refines:
  assumes "book_ok b"
  shows "case book_depth b (is_buy side) price of
      None \<Rightarrow> ExecuteOrder b side price qty = Inl EndDereference
    | Some x \<Rightarrow> \<exists>b'. ExecuteOrder b side price qty = Inr b' \<and> book_ok b' \<and>
        book_depth b' = depth_set (book_depth b) (is_buy side) price
          (if qty < x then Some (x - qty) else None)"
  using ExecuteOrder_depth [OF assms, of side price qty]
  by (cases "ExecuteOrder b side price qty") auto

theorem l2_ExecuteOrder_refines_witness:
  "(\<exists>b'. ExecuteOrder sample_book (ascii CHR ''B'') 100 4 = Inr b' \<and> book_depth b' True 100 = Some 3) \<and>
   ExecuteOrder sample_book (ascii CHR ''S'') 95 7 = Inl EndDereference"
  using l2_ExecuteOrder_refines [OF sample_book_ok, of "ascii CHR ''B''" 100 4]
    l2_ExecuteOrder_refines [OF sample_book_ok, of "ascii CHR ''S''" 95 7]
  by (auto simp: sample_defs)

text \<open>
  C9. Replacing at another price is deleting the old quantity and adding the new one: when the old
  quantity is at most what the level holds, the result is that of the two operations in sequence.
\<close>

theorem l2_ReplaceOrder_moves:
  assumes "book_ok b" and "book_depth b (is_buy side) oldPrice = Some x" and "oldQty \<le> x"
    and "oldPrice \<noteq> newPrice"
  shows "ReplaceOrder b side oldPrice oldQty newPrice newQty =
    res_bind (DeleteOrder b side oldPrice oldQty) (\<lambda>b'. Inr (AddOrder b' side newPrice newQty))"
proof -
  obtain r where r: "ReplaceOrder b side oldPrice oldQty newPrice newQty = Inr r" "book_ok r"
    "book_depth r = depth_set (depth_set (book_depth b) (is_buy side) oldPrice
        (if oldQty < x then Some (x - oldQty) else None)) (is_buy side) newPrice
        (Some (case book_depth b (is_buy side) newPrice of None \<Rightarrow> newQty | Some y \<Rightarrow> y + newQty))"
    using ReplaceOrder_depth [OF assms(1), of side oldPrice newPrice oldQty newQty] assms(2,4)
    by (cases "ReplaceOrder b side oldPrice oldQty newPrice newQty") auto
  obtain d where d: "DeleteOrder b side oldPrice oldQty = Inr d" "book_ok d"
    "book_depth d = depth_set (book_depth b) (is_buy side) oldPrice
        (if x = oldQty then None else Some (x - oldQty))"
    using DeleteOrder_depth [OF assms(1), of side oldPrice oldQty] assms(2)
    by (cases "DeleteOrder b side oldPrice oldQty") auto
  have "(if oldQty < x then Some (x - oldQty) else None) =
      (if x = oldQty then None else Some (x - oldQty))" using assms(3) by auto
  then have "r = AddOrder d side newPrice newQty"
    using r d assms(4) AddOrder_ok AddOrder_depth by (intro book_eqI) auto
  then show ?thesis using r d by simp
qed

theorem l2_ReplaceOrder_moves_witness:
  "ReplaceOrder sample_book (ascii CHR ''B'') 100 7 95 3 =
     res_bind (DeleteOrder sample_book (ascii CHR ''B'') 100 7)
       (\<lambda>b'. Inr (AddOrder b' (ascii CHR ''B'') 95 3))"
  by (rule l2_ReplaceOrder_moves [OF sample_book_ok, where x = 7]) (simp_all add: sample_defs)

text \<open>
  On a sorted book \<open>GetBestPrices\<close> returns the highest bid and the lowest ask, and it
  dereferences an end iterator exactly when one side is empty.
\<close>

theorem l2_best_prices:
  assumes "book_ok b"
  shows "GetBestPrices b =
    (if dom (book_depth b True) = {} \<or> dom (book_depth b False) = {} then Inl EndDereference
     else Inr (Max (dom (book_depth b True)), Min (dom (book_depth b False))))"
  using best_bid [OF assms] best_ask [OF assms] by (auto simp: GetBestPrices_def dom_book_depth)

theorem l2_best_prices_witness: "GetBestPrices sample_book = Inr (100, 110)"
proof -
  have "dom (book_depth sample_book True) = {90, 100}" "dom (book_depth sample_book False) = {120, 110}"
    by (simp_all add: dom_book_depth sample_book_def)
  then show ?thesis using l2_best_prices [OF sample_book_ok] by simp
qed

text \<open>
  Deleting the order that was just added restores the book, level vectors included, when the
  quantity is not zero and the level it joined, if any, was not empty.
\<close>

theorem l2_add_delete_roundtrip:
  assumes "book_ok b" and "qty \<noteq> 0" and "book_depth b (is_buy side) price \<noteq> Some 0"
  shows "DeleteOrder (AddOrder b side price qty) side price qty = Inr b"
  using assms by (rule DeleteOrder_AddOrder)

theorem l2_add_delete_roundtrip_witness:
  "DeleteOrder (AddOrder sample_book (ascii CHR ''B'') 100 4) (ascii CHR ''B'') 100 4 = Inr sample_book"
  by (rule l2_add_delete_roundtrip [OF sample_book_ok]) (simp_all add: sample_defs)

text \<open>The order in which orders are added does not matter: any two additions commute.\<close>

theorem l2_add_commutes:
  assumes "book_ok b"
  shows "AddOrder (AddOrder b s1 p1 q1) s2 p2 q2 = AddOrder (AddOrder b s2 p2 q2) s1 p1 q1"
  using assms
  by (intro book_eqI)
    (auto simp: AddOrder_ok AddOrder_depth depth_set_def fun_eq_iff ac_simps split: option.splits)

theorem l2_add_commutes_witness:
  "AddOrder (AddOrder sample_book (ascii CHR ''B'') 95 3) (ascii CHR ''B'') 97 1 =
   AddOrder (AddOrder sample_book (ascii CHR ''B'') 97 1) (ascii CHR ''B'') 95 3"
  by (rule l2_add_commutes [OF sample_book_ok])

text \<open>
  \<open>Dump\<close> reports a bad book exactly when the book is not sorted, holds an empty level, is crossed
  or locked, or has a price at the top of the 32-bit range.
\<close>

theorem l2_Dump_complete:
  "\<not> Dump b \<longleftrightarrow>
     book_ok b \<and> (\<forall>l \<in> set (m_bids b) \<union> set (m_asks b). snd l \<noteq> 0 \<and> fst l < INT_MAX) \<and>
     (\<forall>bid \<in> set (m_bids b). \<forall>ask \<in> set (m_asks b). fst bid < fst ask)"
proof -
  have "Dump b = snd (Dump_scan INT_MAX False (m_asks b @ rev (m_bids b)))"
    by (simp add: Dump_def Dump_scan_append case_prod_beta)
  moreover have "sorted_wrt (\<lambda>x y. y < x) (rev (map fst (m_bids b))) \<longleftrightarrow> sorted_wrt (<) (map fst (m_bids b))"
    by (simp add: sorted_wrt_rev)
  ultimately show ?thesis
    by (auto simp: Dump_scan_ok book_ok_def sorted_wrt_append simp flip: rev_map)
qed

theorem l2_Dump_complete_witness:
  "\<not> Dump sample_book \<and> Dump (sample_book\<lparr>m_bids := [(90, 5), (110, 7)]\<rparr>)"
  using l2_Dump_complete [of sample_book] l2_Dump_complete [of "sample_book\<lparr>m_bids := [(90, 5), (110, 7)]\<rparr>"]
  by (simp add: sample_book_def book_ok_def INT_MAX_def)

end
