(* ===== verification/Wire.thy ===== *)
theory Wire
  imports Prelude
begin

text \<open>
  Packed structures over byte buffers.  A structure overlaid on a buffer (\<^verbatim>\<open>reinterpret_cast\<close>,
  \<^verbatim>\<open>memcpy\<close>, \<^verbatim>\<open>std::bit_cast\<close>) is read by a \<open>get\<close> and written by a \<open>put\<close>; the contract of such a
  pair is the locale \<open>wire_codec\<close>, and every structure of the protocols is an interpretation of it.
  Integer fields hold the bytes as the host reads them, before any byte-order conversion.
\<close>

section \<open>The contract of a fixed-size structure\<close>

locale wire_codec =
  fixes width :: nat and valid :: "'a \<Rightarrow> bool"
    and put :: "'a \<Rightarrow> byte list" and get :: "byte list \<Rightarrow> 'a"
  assumes put_length: "valid x \<Longrightarrow> length (put x) = width"
    and get_put: "valid x \<Longrightarrow> get (put x @ ys) = x"
    and valid_get: "width \<le> length bs \<Longrightarrow> valid (get bs)"
    and put_get: "width \<le> length bs \<Longrightarrow> put (get bs) = take width bs"
begin

lemma put_inject: "valid x \<Longrightarrow> valid y \<Longrightarrow> put x = put y \<longleftrightarrow> x = y"
  by (metis append_Nil2 get_put)

lemma get_take: "width \<le> length bs \<Longrightarrow> get (take width bs) = get bs"
  by (metis append_Nil2 get_put put_get valid_get)

lemma get_append: "width \<le> length bs \<Longrightarrow> get (bs @ ys) = get bs"
  using get_take [of bs] get_take [of "bs @ ys"] by simp

lemma get_eq_iff: "width \<le> length bs \<Longrightarrow> valid x \<Longrightarrow> get bs = x \<longleftrightarrow> take width bs = put x"
  using put_get valid_get put_inject by metis

lemma put_get_drop:
  "off + width \<le> length bs \<Longrightarrow> put (get (drop off bs)) = take width (drop off bs)"
  by (rule put_get) simp

lemma overlay:
  assumes "off + width \<le> length bs" and "valid x"
  shows "get (drop off (take off bs @ put x @ drop (off + width) bs)) = x"
  using assms get_put by simp

end

section \<open>Integers\<close>

definition put8 :: "byte \<Rightarrow> byte list" where "put8 b = [b]"
definition put16 :: "u16 \<Rightarrow> byte list" where "put16 w = le_bytes 2 (unat w)"
definition put32 :: "u32 \<Rightarrow> byte list" where "put32 w = le_bytes 4 (unat w)"
definition put64 :: "u64 \<Rightarrow> byte list" where "put64 w = le_bytes 8 (unat w)"

definition get8 :: "byte list \<Rightarrow> byte" where "get8 bs = (case bs of [] \<Rightarrow> 0 | b # _ \<Rightarrow> b)"
definition get16 :: "byte list \<Rightarrow> u16" where "get16 bs = of_nat (le_val (take 2 bs))"
definition get32 :: "byte list \<Rightarrow> u32" where "get32 bs = of_nat (le_val (take 4 bs))"
definition get64 :: "byte list \<Rightarrow> u64" where "get64 bs = of_nat (le_val (take 8 bs))"

lemma le_bytes_take: "n \<le> length bs \<Longrightarrow> le_bytes n (le_val (take n bs)) = take n bs"
  using le_bytes_le_val [of "take n bs"] by (simp add: min_absorb2)

lemma le_val_take_less: "n \<le> length bs \<Longrightarrow> le_val (take n bs) < 256 ^ n"
  using le_val_less [of "take n bs"] by (simp add: min_absorb2)

interpretation codec8: wire_codec 1 "\<lambda>_. True" put8 get8
  by unfold_locales (auto simp: put8_def get8_def split: list.splits)

interpretation codec16: wire_codec 2 "\<lambda>_. True" put16 get16
  using unat_bound [where 'a = 16] le_val_take_less [of 2]
  by unfold_locales (auto simp: put16_def get16_def le_val_le_bytes le_bytes_take unat_of_nat)

interpretation codec32: wire_codec 4 "\<lambda>_. True" put32 get32
  using unat_bound [where 'a = 32] le_val_take_less [of 4]
  by unfold_locales (auto simp: put32_def get32_def le_val_le_bytes le_bytes_take unat_of_nat)

interpretation codec64: wire_codec 8 "\<lambda>_. True" put64 get64
  using unat_bound [where 'a = 64] le_val_take_less [of 8]
  by unfold_locales (auto simp: put64_def get64_def le_val_le_bytes le_bytes_take unat_of_nat)

text \<open>An integer sent in network order is read back by the conversion: most significant byte first.\<close>

definition be_val :: "byte list \<Rightarrow> nat" where "be_val bs = le_val (rev bs)"

lemma unat_get:
  "2 \<le> length bs \<Longrightarrow> unat (get16 bs) = le_val (take 2 bs)"
  "4 \<le> length bs \<Longrightarrow> unat (get32 bs) = le_val (take 4 bs)"
  "8 \<le> length bs \<Longrightarrow> unat (get64 bs) = le_val (take 8 bs)"
  using le_val_take_less [of 2 bs] le_val_take_less [of 4 bs] le_val_take_less [of 8 bs]
  by (simp_all add: get16_def get32_def get64_def unat_of_nat)

lemma bswap_get: "n \<le> length bs \<Longrightarrow> bswap n (le_val (take n bs)) = be_val (take n bs)"
  by (simp add: bswap_def be_val_def le_bytes_take)

lemma network_order:
  "2 \<le> length bs \<Longrightarrow> unat (be16toh (get16 bs)) = be_val (take 2 bs)"
  "4 \<le> length bs \<Longrightarrow> unat (be32toh (get32 bs)) = be_val (take 4 bs)"
  "8 \<le> length bs \<Longrightarrow> unat (be64toh (get64 bs)) = be_val (take 8 bs)"
  by (simp_all add: unat_be16toh unat_be32toh unat_be64toh unat_get bswap_get)

section \<open>Rewriting with layouts\<close>

text \<open>
  Reading a field of a freshly written structure, and joining the slices of a structure that was
  read from a buffer.
\<close>

named_theorems layout \<open>the offsets, sizes and field lists of the packed structures\<close>

lemmas [wire] =
  codec8.put_length [OF TrueI] codec16.put_length [OF TrueI]
  codec32.put_length [OF TrueI] codec64.put_length [OF TrueI]
  codec8.get_put [OF TrueI] codec16.get_put [OF TrueI]
  codec32.get_put [OF TrueI] codec64.get_put [OF TrueI]
  codec8.put_get codec16.put_get codec32.put_get codec64.put_get

lemma take_drop_join [wire]:
  "k' = k + n \<Longrightarrow> take n (drop k bs) @ take m (drop k' bs) = take (n + m) (drop k bs)"
  "k' = k + n \<Longrightarrow> take n (drop k bs) @ take m (drop k' bs) @ zs = take (n + m) (drop k bs) @ zs"
  by (simp_all add: take_add add.commute [of n k])

lemma take_join [wire]:
  "take n bs @ take m (drop n bs) = take (n + m) bs"
  "take n bs @ take m (drop n bs) @ zs = take (n + m) bs @ zs"
  by (simp_all add: take_add)

section \<open>Reading a structure from memory\<close>

text \<open>
  \<open>mem\<close> is the memory a pointer may be used to access, from the pointer to the end of the object
  it points into.  A read of \<open>width\<close> bytes at \<open>off\<close> outside it is a fault.
\<close>

definition load :: "nat \<Rightarrow> (byte list \<Rightarrow> 'a) \<Rightarrow> byte list \<Rightarrow> nat \<Rightarrow> 'a result" where
  "load width get mem off =
     (if off + width \<le> length mem then Inr (get (drop off mem)) else Inl OutOfBoundsRead)"

end
