(* ===== verification/Protocol_Types.thy ===== *)
theory Protocol_Types
  imports Wire
begin

text \<open>
  The shared vocabulary of the wire protocols: \<^verbatim>\<open>src/lib/types.hpp\<close>, \<^verbatim>\<open>src/lib/constants.hpp\<close> and the
  enumerations of \<^verbatim>\<open>soupbintcp_types.hpp\<close> and \<^verbatim>\<open>ouch_types.hpp\<close>.  A C++ enumeration with a fixed
  underlying type can hold any value of that type, so a field of enumeration type is a word; the
  enumerators are a datatype and \<open>..._val\<close> gives their values.  A \<^verbatim>\<open>StrongType<T, Tag>\<close> is its \<open>T\<close>;
  \<open>sizeof_...\<close> is its size.
\<close>

section \<open>Sizes of the field types\<close>

definition sizeof_TimestampNanoseconds :: nat where [layout]: "sizeof_TimestampNanoseconds = 4"
definition sizeof_TimestampOuchNanoseconds :: nat where [layout]: "sizeof_TimestampOuchNanoseconds = 8"
definition sizeof_MatchId :: nat where [layout]: "sizeof_MatchId = 8"
definition sizeof_ComboGroupId :: nat where [layout]: "sizeof_ComboGroupId = 4"
definition sizeof_Quantity :: nat where [layout]: "sizeof_Quantity = 8"
definition sizeof_OrderbookId :: nat where [layout]: "sizeof_OrderbookId = 4"
definition sizeof_OrderId :: nat where [layout]: "sizeof_OrderId = 8"
definition sizeof_Price :: nat where [layout]: "sizeof_Price = 4"
definition sizeof_OrderAttributes :: nat where [layout]: "sizeof_OrderAttributes = 2"
definition sizeof_NumberOfDecimalsInPrice :: nat where [layout]: "sizeof_NumberOfDecimalsInPrice = 2"
definition sizeof_LotSize :: nat where [layout]: "sizeof_LotSize = 4"
definition sizeof_NominalValue :: nat where [layout]: "sizeof_NominalValue = 8"
definition sizeof_NumberOfLegs :: nat where [layout]: "sizeof_NumberOfLegs = 1"
definition sizeof_ExpirationDate :: nat where [layout]: "sizeof_ExpirationDate = 4"
definition sizeof_LegRatio :: nat where [layout]: "sizeof_LegRatio = 4"
definition sizeof_TickSize :: nat where [layout]: "sizeof_TickSize = 8"
definition sizeof_OrderbookPosition :: nat where [layout]: "sizeof_OrderbookPosition = 4"
definition sizeof_Second :: nat where [layout]: "sizeof_Second = 4"
definition sizeof_SequenceNumber :: nat where [layout]: "sizeof_SequenceNumber = 8"
definition sizeof_MessageCount :: nat where [layout]: "sizeof_MessageCount = 2"
definition sizeof_MessageLength :: nat where [layout]: "sizeof_MessageLength = 2"
definition sizeof_Port :: nat where [layout]: "sizeof_Port = 2"

definition sizeof_MessageType :: nat where [layout]: "sizeof_MessageType = 1"
definition sizeof_Side :: nat where [layout]: "sizeof_Side = 1"
definition sizeof_PutOrCall :: nat where [layout]: "sizeof_PutOrCall = 1"
definition sizeof_LotType :: nat where [layout]: "sizeof_LotType = 1"
definition sizeof_FinancialProduct :: nat where [layout]: "sizeof_FinancialProduct = 1"
definition sizeof_EventCode :: nat where [layout]: "sizeof_EventCode = 1"
definition sizeof_OccurredAtCross :: nat where [layout]: "sizeof_OccurredAtCross = 1"
definition sizeof_Printable :: nat where [layout]: "sizeof_Printable = 1"

definition SESSION_NAME_SIZE :: nat where [layout]: "SESSION_NAME_SIZE = 10"
definition ORDER_TOKEN_LENGTH :: nat where [layout]: "ORDER_TOKEN_LENGTH = 14"
definition CLIENT_ACCOUNT_LENGTH :: nat where [layout]: "CLIENT_ACCOUNT_LENGTH = 16"
definition CUSTOMER_INFO_LENGTH :: nat where [layout]: "CUSTOMER_INFO_LENGTH = 15"
definition EXCHANGE_INFO_LENGTH :: nat where [layout]: "EXCHANGE_INFO_LENGTH = 32"
definition OUCH_MATCH_ID_LENGTH :: nat where [layout]: "OUCH_MATCH_ID_LENGTH = 12"

text \<open>\<^verbatim>\<open>constants.hpp\<close>\<close>

definition MSG_TYPE_OFFSET :: nat where [layout]: "MSG_TYPE_OFFSET = 0"
definition TIMESTAMP_NANOSECONDS_OFFSET :: nat where [layout]:
  "TIMESTAMP_NANOSECONDS_OFFSET = MSG_TYPE_OFFSET + sizeof_MessageType"

section \<open>Enumerations of \<^verbatim>\<open>types.hpp\<close>\<close>

datatype MessageType =
    MessageType_AddOrder
  | MessageType_AddOrderWithMPID
  | MessageType_OrderDelete
  | MessageType_OrderExecuted
  | MessageType_OrderExecutedWithPrice
  | MessageType_OrderReplace
  | MessageType_Trade
  | MessageType_EquilibriumPriceUpdate
  | MessageType_OrderbookFlush
  | MessageType_Seconds
  | MessageType_OrderbookDirectory
  | MessageType_CombinationOrderbookLeg
  | MessageType_TickSizeTableEntry
  | MessageType_ShortSellStatus
  | MessageType_SystemEvent
  | MessageType_OrderbookState

primrec MessageType_val :: "MessageType \<Rightarrow> byte" where
  "MessageType_val MessageType_AddOrder = ascii CHR ''A''"
| "MessageType_val MessageType_AddOrderWithMPID = ascii CHR ''F''"
| "MessageType_val MessageType_OrderDelete = ascii CHR ''D''"
| "MessageType_val MessageType_OrderExecuted = ascii CHR ''E''"
| "MessageType_val MessageType_OrderExecutedWithPrice = ascii CHR ''C''"
| "MessageType_val MessageType_OrderReplace = ascii CHR ''U''"
| "MessageType_val MessageType_Trade = ascii CHR ''P''"
| "MessageType_val MessageType_EquilibriumPriceUpdate = ascii CHR ''Z''"
| "MessageType_val MessageType_OrderbookFlush = ascii CHR ''Y''"
| "MessageType_val MessageType_Seconds = ascii CHR ''T''"
| "MessageType_val MessageType_OrderbookDirectory = ascii CHR ''R''"
| "MessageType_val MessageType_CombinationOrderbookLeg = ascii CHR ''M''"
| "MessageType_val MessageType_TickSizeTableEntry = ascii CHR ''L''"
| "MessageType_val MessageType_ShortSellStatus = ascii CHR ''V''"
| "MessageType_val MessageType_SystemEvent = ascii CHR ''S''"
| "MessageType_val MessageType_OrderbookState = ascii CHR ''O''"

datatype ProductType =
    ProductType_UNKNOWN_PRODUCT
  | ProductType_OPTION
  | ProductType_FORWARD
  | ProductType_FUTURE
  | ProductType_FRA
  | ProductType_CASH
  | ProductType_PAYMENT
  | ProductType_EXCHANGE_RATE
  | ProductType_INTEREST_RATE_SWAP
  | ProductType_REPO
  | ProductType_SYNTHETIC_BOX_LEG_REFERENCE
  | ProductType_STANDARD_COMBINATION
  | ProductType_GUARANTEE
  | ProductType_OTC_GENRAL
  | ProductType_EQUITY_WARRANT
  | ProductType_SECURITY_LENDING
  | ProductType_CERTIFICATE

primrec ProductType_val :: "ProductType \<Rightarrow> u32" where
  "ProductType_val ProductType_UNKNOWN_PRODUCT = 0"
| "ProductType_val ProductType_OPTION = 1"
| "ProductType_val ProductType_FORWARD = 2"
| "ProductType_val ProductType_FUTURE = 3"
| "ProductType_val ProductType_FRA = 4"
| "ProductType_val ProductType_CASH = 5"
| "ProductType_val ProductType_PAYMENT = 6"
| "ProductType_val ProductType_EXCHANGE_RATE = 7"
| "ProductType_val ProductType_INTEREST_RATE_SWAP = 8"
| "ProductType_val ProductType_REPO = 9"
| "ProductType_val ProductType_SYNTHETIC_BOX_LEG_REFERENCE = 10"
| "ProductType_val ProductType_STANDARD_COMBINATION = 11"
| "ProductType_val ProductType_GUARANTEE = 12"
| "ProductType_val ProductType_OTC_GENRAL = 13"
| "ProductType_val ProductType_EQUITY_WARRANT = 14"
| "ProductType_val ProductType_SECURITY_LENDING = 15"
| "ProductType_val ProductType_CERTIFICATE = 18"

datatype TradingStatus =
    TradingStatus_TRADING_STATUS_UNKNOWN
  | TradingStatus_TRADING_STATUS_OPEN
  | TradingStatus_TRADING_STATUS_OPEN_EXTENDED
  | TradingStatus_TRADING_STATUS_CLOSE
  | TradingStatus_TRADING_STATUS_QUOTE
  | TradingStatus_TRADING_STATUS_QUOTE_OPEN
  | TradingStatus_TRADING_STATUS_QUOTE_CLOSE
  | TradingStatus_TRADING_STATUS_QUOTE_CIRCUIT_BREAKER
  | TradingStatus_TRADING_STATUS_SUSPEND
  | TradingStatus_TRADING_STATUS_LAST_TRADING_PHASE
  | TradingStatus_TRADING_STATUS_HALTED
  | TradingStatus_TRADING_STATUS_PRE_OPEN
  | TradingStatus_TRADING_STATUS_PRE_CLOSE
  | TradingStatus_TRADING_STATUS_POST_TRADING
  | TradingStatus_TRADING_STATUS_OPENNING_OR_CLOSING

primrec TradingStatus_val :: "TradingStatus \<Rightarrow> u32" where
  "TradingStatus_val TradingStatus_TRADING_STATUS_UNKNOWN = 0"
| "TradingStatus_val TradingStatus_TRADING_STATUS_OPEN = 1"
| "TradingStatus_val TradingStatus_TRADING_STATUS_OPEN_EXTENDED = 2"
| "TradingStatus_val TradingStatus_TRADING_STATUS_CLOSE = 3"
| "TradingStatus_val TradingStatus_TRADING_STATUS_QUOTE = 4"
| "TradingStatus_val TradingStatus_TRADING_STATUS_QUOTE_OPEN = 5"
| "TradingStatus_val TradingStatus_TRADING_STATUS_QUOTE_CLOSE = 6"
| "TradingStatus_val TradingStatus_TRADING_STATUS_QUOTE_CIRCUIT_BREAKER = 7"
| "TradingStatus_val TradingStatus_TRADING_STATUS_SUSPEND = 8"
| "TradingStatus_val TradingStatus_TRADING_STATUS_LAST_TRADING_PHASE = 9"
| "TradingStatus_val TradingStatus_TRADING_STATUS_HALTED = 10"
| "TradingStatus_val TradingStatus_TRADING_STATUS_PRE_OPEN = 11"
| "TradingStatus_val TradingStatus_TRADING_STATUS_PRE_CLOSE = 12"
| "TradingStatus_val TradingStatus_TRADING_STATUS_POST_TRADING = 13"
| "TradingStatus_val TradingStatus_TRADING_STATUS_OPENNING_OR_CLOSING = 14"

datatype Side =
    Side_Buy
  | Side_Sell

primrec Side_val :: "Side \<Rightarrow> byte" where
  "Side_val Side_Buy = ascii CHR ''B''"
| "Side_val Side_Sell = ascii CHR ''S''"

datatype PutOrCall =
    PutOrCall_Call
  | PutOrCall_Put

primrec PutOrCall_val :: "PutOrCall \<Rightarrow> byte" where
  "PutOrCall_val PutOrCall_Call = 1"
| "PutOrCall_val PutOrCall_Put = 2"

datatype LegSide =
    LegSide_AsDefined
  | LegSide_Opposite

primrec LegSide_val :: "LegSide \<Rightarrow> byte" where
  "LegSide_val LegSide_AsDefined = ascii CHR ''B''"
| "LegSide_val LegSide_Opposite = ascii CHR ''C''"

datatype LotType =
    LotType_RoundLot

primrec LotType_val :: "LotType \<Rightarrow> byte" where
  "LotType_val LotType_RoundLot = 2"

datatype ImbalanceDirection =
    ImbalanceDirection_UNDEFINED
  | ImbalanceDirection_BUY
  | ImbalanceDirection_SELL
  | ImbalanceDirection_NONE

primrec ImbalanceDirection_val :: "ImbalanceDirection \<Rightarrow> u32" where
  "ImbalanceDirection_val ImbalanceDirection_UNDEFINED = 0"
| "ImbalanceDirection_val ImbalanceDirection_BUY = 1"
| "ImbalanceDirection_val ImbalanceDirection_SELL = 2"
| "ImbalanceDirection_val ImbalanceDirection_NONE = 3"

datatype FinancialProduct =
    FinancialProduct_Option
  | FinancialProduct_Forward
  | FinancialProduct_Future
  | FinancialProduct_FRA
  | FinancialProduct_Cash
  | FinancialProduct_Payment
  | FinancialProduct_ExchangeRate
  | FinancialProduct_InterestRateSwap
  | FinancialProduct_REPO
  | FinancialProduct_SyntheticBoxLeg_Reference
  | FinancialProduct_StandardCombination
  | FinancialProduct_Guarantee
  | FinancialProduct_OTCGeneral
  | FinancialProduct_EquityWarrant
  | FinancialProduct_SecurityLending
  | FinancialProduct_Certificate

primrec FinancialProduct_val :: "FinancialProduct \<Rightarrow> byte" where
  "FinancialProduct_val FinancialProduct_Option = 1"
| "FinancialProduct_val FinancialProduct_Forward = 2"
| "FinancialProduct_val FinancialProduct_Future = 3"
| "FinancialProduct_val FinancialProduct_FRA = 4"
| "FinancialProduct_val FinancialProduct_Cash = 5"
| "FinancialProduct_val FinancialProduct_Payment = 6"
| "FinancialProduct_val FinancialProduct_ExchangeRate = 7"
| "FinancialProduct_val FinancialProduct_InterestRateSwap = 8"
| "FinancialProduct_val FinancialProduct_REPO = 9"
| "FinancialProduct_val FinancialProduct_SyntheticBoxLeg_Reference = 10"
| "FinancialProduct_val FinancialProduct_StandardCombination = 11"
| "FinancialProduct_val FinancialProduct_Guarantee = 12"
| "FinancialProduct_val FinancialProduct_OTCGeneral = 13"
| "FinancialProduct_val FinancialProduct_EquityWarrant = 14"
| "FinancialProduct_val FinancialProduct_SecurityLending = 15"
| "FinancialProduct_val FinancialProduct_Certificate = 18"

datatype ShortSellRestriction =
    ShortSellRestriction_Allowed
  | ShortSellRestriction_Prohibited

primrec ShortSellRestriction_val :: "ShortSellRestriction \<Rightarrow> byte" where
  "ShortSellRestriction_val ShortSellRestriction_Allowed = 1"
| "ShortSellRestriction_val ShortSellRestriction_Prohibited = 2"

datatype ShortSellValidation =
    ShortSellValidation_NoValidation
  | ShortSellValidation_PriceGreaterOrEqualToLTP
  | ShortSellValidation_NotAllowed

primrec ShortSellValidation_val :: "ShortSellValidation \<Rightarrow> byte" where
  "ShortSellValidation_val ShortSellValidation_NoValidation = 0"
| "ShortSellValidation_val ShortSellValidation_PriceGreaterOrEqualToLTP = 1"
| "ShortSellValidation_val ShortSellValidation_NotAllowed = 2"

datatype EventCode =
    EventCode_StartOfMessages
  | EventCode_EndOfMessages

primrec EventCode_val :: "EventCode \<Rightarrow> byte" where
  "EventCode_val EventCode_StartOfMessages = ascii CHR ''O''"
| "EventCode_val EventCode_EndOfMessages = ascii CHR ''C''"

datatype OccurredAtCross =
    OccurredAtCross_Yes
  | OccurredAtCross_No

primrec OccurredAtCross_val :: "OccurredAtCross \<Rightarrow> byte" where
  "OccurredAtCross_val OccurredAtCross_Yes = ascii CHR ''Y''"
| "OccurredAtCross_val OccurredAtCross_No = ascii CHR ''N''"

datatype Printable =
    Printable_Yes
  | Printable_No

primrec Printable_val :: "Printable \<Rightarrow> byte" where
  "Printable_val Printable_Yes = ascii CHR ''Y''"
| "Printable_val Printable_No = ascii CHR ''N''"

datatype ClientCategory =
    ClientCategory_Client
  | ClientCategory_House
  | ClientCategory_Fund
  | ClientCategory_InvestmentTrust
  | ClientCategory_PrimaryDealerGovt
  | ClientCategory_PrimaryDealerCorp
  | ClientCategory_PortfolioMgmtCompany

primrec ClientCategory_val :: "ClientCategory \<Rightarrow> byte" where
  "ClientCategory_val ClientCategory_Client = 1"
| "ClientCategory_val ClientCategory_House = 2"
| "ClientCategory_val ClientCategory_Fund = 7"
| "ClientCategory_val ClientCategory_InvestmentTrust = 9"
| "ClientCategory_val ClientCategory_PrimaryDealerGovt = 10"
| "ClientCategory_val ClientCategory_PrimaryDealerCorp = 11"
| "ClientCategory_val ClientCategory_PortfolioMgmtCompany = 12"

datatype OffHours =
    OffHours_NormalHours
  | OffHours_OffHour

primrec OffHours_val :: "OffHours \<Rightarrow> byte" where
  "OffHours_val OffHours_NormalHours = 0"
| "OffHours_val OffHours_OffHour = 1"

datatype OrderState =
    OrderState_OnBook
  | OrderState_NotOnBook
  | OrderState_Paused

primrec OrderState_val :: "OrderState \<Rightarrow> byte" where
  "OrderState_val OrderState_OnBook = 1"
| "OrderState_val OrderState_NotOnBook = 2"
| "OrderState_val OrderState_Paused = 98"

datatype CancelReason =
    CancelReason_wqe
  | CancelReason_asd

primrec CancelReason_val :: "CancelReason \<Rightarrow> byte" where
  "CancelReason_val CancelReason_wqe = 0"
| "CancelReason_val CancelReason_asd = 1"

datatype RejectCode =
    RejectCode_blabla
  | RejectCode_asd

primrec RejectCode_val :: "RejectCode \<Rightarrow> u32" where
  "RejectCode_val RejectCode_blabla = - 800105"
| "RejectCode_val RejectCode_asd = - 800104"

datatype TimeInForce =
    TimeInForce_Day
  | TimeInForce_ImmediateOrCancel
  | TimeInForce_FillOrKill

primrec TimeInForce_val :: "TimeInForce \<Rightarrow> byte" where
  "TimeInForce_val TimeInForce_Day = 0"
| "TimeInForce_val TimeInForce_ImmediateOrCancel = 1"
| "TimeInForce_val TimeInForce_FillOrKill = 2"

datatype OpenClose =
    OpenClose_Default
  | OpenClose_Open
  | OpenClose_Close

primrec OpenClose_val :: "OpenClose \<Rightarrow> byte" where
  "OpenClose_val OpenClose_Default = 0"
| "OpenClose_val OpenClose_Open = 1"
| "OpenClose_val OpenClose_Close = 2"

section \<open>Enumerations of \<^verbatim>\<open>ouch_types.hpp\<close>, namespace \<open>ouch\<close>\<close>

datatype ouch_MessageType =
    ouch_MessageType_EnterOrder
  | ouch_MessageType_ReplaceOrder
  | ouch_MessageType_CancelOrder
  | ouch_MessageType_CancelByOrderId
  | ouch_MessageType_MassQuote
  | ouch_MessageType_OrderAccepted
  | ouch_MessageType_OrderRejected
  | ouch_MessageType_OrderReplaced
  | ouch_MessageType_OrderCanceled
  | ouch_MessageType_OrderExecuted
  | ouch_MessageType_MassQuoteAcknowledgement
  | ouch_MessageType_MassQuoteRejection

primrec ouch_MessageType_val :: "ouch_MessageType \<Rightarrow> byte" where
  "ouch_MessageType_val ouch_MessageType_EnterOrder = ascii CHR ''O''"
| "ouch_MessageType_val ouch_MessageType_ReplaceOrder = ascii CHR ''U''"
| "ouch_MessageType_val ouch_MessageType_CancelOrder = ascii CHR ''X''"
| "ouch_MessageType_val ouch_MessageType_CancelByOrderId = ascii CHR ''Y''"
| "ouch_MessageType_val ouch_MessageType_MassQuote = ascii CHR ''Q''"
| "ouch_MessageType_val ouch_MessageType_OrderAccepted = ascii CHR ''A''"
| "ouch_MessageType_val ouch_MessageType_OrderRejected = ascii CHR ''J''"
| "ouch_MessageType_val ouch_MessageType_OrderReplaced = ascii CHR ''U''"
| "ouch_MessageType_val ouch_MessageType_OrderCanceled = ascii CHR ''C''"
| "ouch_MessageType_val ouch_MessageType_OrderExecuted = ascii CHR ''E''"
| "ouch_MessageType_val ouch_MessageType_MassQuoteAcknowledgement = ascii CHR ''K''"
| "ouch_MessageType_val ouch_MessageType_MassQuoteRejection = ascii CHR ''R''"

datatype ouch_OpenClose =
    ouch_OpenClose_NoChange
  | ouch_OpenClose_Open
  | ouch_OpenClose_CloseNet
  | ouch_OpenClose_DefaultForTheAccount

primrec ouch_OpenClose_val :: "ouch_OpenClose \<Rightarrow> byte" where
  "ouch_OpenClose_val ouch_OpenClose_NoChange = 0"
| "ouch_OpenClose_val ouch_OpenClose_Open = 1"
| "ouch_OpenClose_val ouch_OpenClose_CloseNet = 2"
| "ouch_OpenClose_val ouch_OpenClose_DefaultForTheAccount = 4"

datatype ouch_ClientCategory =
    ouch_ClientCategory_NoChange
  | ouch_ClientCategory_Client
  | ouch_ClientCategory_House
  | ouch_ClientCategory_Fund
  | ouch_ClientCategory_InvestmentTrust
  | ouch_ClientCategory_PrimaryDealerGovt
  | ouch_ClientCategory_PrimaryDealerCorp
  | ouch_ClientCategory_PortfolioMgmtCompany
  | ouch_ClientCategory_Error

primrec ouch_ClientCategory_val :: "ouch_ClientCategory \<Rightarrow> byte" where
  "ouch_ClientCategory_val ouch_ClientCategory_NoChange = 0"
| "ouch_ClientCategory_val ouch_ClientCategory_Client = 1"
| "ouch_ClientCategory_val ouch_ClientCategory_House = 2"
| "ouch_ClientCategory_val ouch_ClientCategory_Fund = 7"
| "ouch_ClientCategory_val ouch_ClientCategory_InvestmentTrust = 9"
| "ouch_ClientCategory_val ouch_ClientCategory_PrimaryDealerGovt = 10"
| "ouch_ClientCategory_val ouch_ClientCategory_PrimaryDealerCorp = 11"
| "ouch_ClientCategory_val ouch_ClientCategory_PortfolioMgmtCompany = 12"
| "ouch_ClientCategory_val ouch_ClientCategory_Error = 13"

datatype ouch_TimeInForce =
    ouch_TimeInForce_Day
  | ouch_TimeInForce_ImmediateOrCancel
  | ouch_TimeInForce_FillOrKill
  | ouch_TimeInForce_ERROR

primrec ouch_TimeInForce_val :: "ouch_TimeInForce \<Rightarrow> byte" where
  "ouch_TimeInForce_val ouch_TimeInForce_Day = 0"
| "ouch_TimeInForce_val ouch_TimeInForce_ImmediateOrCancel = 3"
| "ouch_TimeInForce_val ouch_TimeInForce_FillOrKill = 4"
| "ouch_TimeInForce_val ouch_TimeInForce_ERROR = 255"

datatype ouch_OffHours =
    ouch_OffHours_OffHoursOrders
  | ouch_OffHours_NormalHours

primrec ouch_OffHours_val :: "ouch_OffHours \<Rightarrow> byte" where
  "ouch_OffHours_val ouch_OffHours_OffHoursOrders = 1"
| "ouch_OffHours_val ouch_OffHours_NormalHours = 0"

datatype ouch_OrderState =
    ouch_OrderState_OnBook
  | ouch_OrderState_NotOnBook
  | ouch_OrderState_Paused
  | ouch_OrderState_OUCHOrderOwnershipLost

primrec ouch_OrderState_val :: "ouch_OrderState \<Rightarrow> byte" where
  "ouch_OrderState_val ouch_OrderState_OnBook = 1"
| "ouch_OrderState_val ouch_OrderState_NotOnBook = 2"
| "ouch_OrderState_val ouch_OrderState_Paused = 98"
| "ouch_OrderState_val ouch_OrderState_OUCHOrderOwnershipLost = 99"

text \<open>The cancel reasons are only ever logged: a table of the enumerators and their values.\<close>

definition ouch_CancelReason :: "(string \<times> byte) list" where
  "ouch_CancelReason =
     [(''CanceledByUser'', 1),
      (''Trade'', 3),
      (''Inactivate'', 4),
      (''ReplacedByUser'', 5),
      (''New'', 6),
      (''ConvertedBySystem'', 8),
      (''CanceledBySystem'', 9),
      (''CanceledByProxy'', 10),
      (''BaitRecalculated'', 11),
      (''TriggeredBySystem'', 12),
      (''RefreshedBySystem'', 13),
      (''CanceledBySystemLimitChange'', 15),
      (''LinkedLegCanceled'', 17),
      (''LinkedLegModified'', 18),
      (''Expired'', 19),
      (''CanceledDueToISS'', 20),
      (''InactivatedDueToISS'', 21),
      (''InactivatedDueToPurge'', 23),
      (''InactivatedDayOrder'', 24),
      (''InactivatedDueToDeList'', 25),
      (''InactivatedDueToExpiry'', 26),
      (''InactivatedDueToOutsideLimits'', 27),
      (''TransferOfOwnership'', 28),
      (''NewInactive'', 29),
      (''Reloaded'', 30),
      (''ReloadedIntraday'', 31),
      (''CanceledAfterAuction'', 34),
      (''InactivatedDueToOutsidePriceLimits'', 35),
      (''ActivatedDueToOutsideLimits'', 36),
      (''TriggerOnSessionOrderTriggered'', 37),
      (''UndisclosedQuantityOrderConverted'', 39),
      (''InactivatedDueToOrderValue'', 40),
      (''CanceledBySystemDeltaProtection'', 41),
      (''CanceledBySystemQuantityProtection'', 42),
      (''InternalCrossingDelete'', 43),
      (''CanceledDueToParticipantBlockOnMarket'', 44),
      (''InactivatedDueToParticipantBlockOnMarket'', 45),
      (''Paused'', 52),
      (''ActivatedPausedOrder'', 53),
      (''LinkedLegActivated'', 56),
      (''DeletedPTRMmisc'', 115),
      (''DeletedPTRMuserlimitsauto'', 116),
      (''DeletedPTRMuserlimitsmanual'', 117),
      (''DeletedPTRMmarketlimits'', 118),
      (''DeletedPTRMinvestorlimits'', 119),
      (''DeletedPTRMmarginbreach'', 120),
      (''DeletedPTRMparticipantsuspension'', 121),
      (''DeletedPTRMmrasuspension'', 122),
      (''DeletedPTRMmcasuspension'', 123),
      (''DeletedPTRMtasuspension'', 124)]"

datatype ouch_QUOTESTATUS =
    ouch_QUOTESTATUS_Accepted
  | ouch_QUOTESTATUS_Updated
  | ouch_QUOTESTATUS_Canceled
  | ouch_QUOTESTATUS_UnsolicitedUpdate
  | ouch_QUOTESTATUS_UnsolicitedCancel
  | ouch_QUOTESTATUS_Traded

primrec ouch_QUOTESTATUS_val :: "ouch_QUOTESTATUS \<Rightarrow> u32" where
  "ouch_QUOTESTATUS_val ouch_QUOTESTATUS_Accepted = 0"
| "ouch_QUOTESTATUS_val ouch_QUOTESTATUS_Updated = 1"
| "ouch_QUOTESTATUS_val ouch_QUOTESTATUS_Canceled = 2"
| "ouch_QUOTESTATUS_val ouch_QUOTESTATUS_UnsolicitedUpdate = 3"
| "ouch_QUOTESTATUS_val ouch_QUOTESTATUS_UnsolicitedCancel = 4"
| "ouch_QUOTESTATUS_val ouch_QUOTESTATUS_Traded = 5"

section \<open>Enumerations of \<^verbatim>\<open>soupbintcp_types.hpp\<close>\<close>

datatype PacketType =
    PacketType_Debug
  | PacketType_LoginAccepted
  | PacketType_LoginRejected
  | PacketType_SequencedData
  | PacketType_ServerHeartbeat
  | PacketType_EndOfSession
  | PacketType_LoginRequest
  | PacketType_UnsequencedData
  | PacketType_ClientHeartbeat
  | PacketType_LogoutRequest

primrec PacketType_val :: "PacketType \<Rightarrow> byte" where
  "PacketType_val PacketType_Debug = ascii CHR ''+''"
| "PacketType_val PacketType_LoginAccepted = ascii CHR ''A''"
| "PacketType_val PacketType_LoginRejected = ascii CHR ''J''"
| "PacketType_val PacketType_SequencedData = ascii CHR ''S''"
| "PacketType_val PacketType_ServerHeartbeat = ascii CHR ''H''"
| "PacketType_val PacketType_EndOfSession = ascii CHR ''Z''"
| "PacketType_val PacketType_LoginRequest = ascii CHR ''L''"
| "PacketType_val PacketType_UnsequencedData = ascii CHR ''U''"
| "PacketType_val PacketType_ClientHeartbeat = ascii CHR ''R''"
| "PacketType_val PacketType_LogoutRequest = ascii CHR ''O''"

datatype RejectReasonCode =
    RejectReasonCode_NotAuthorized
  | RejectReasonCode_SessionNotAvailable

primrec RejectReasonCode_val :: "RejectReasonCode \<Rightarrow> byte" where
  "RejectReasonCode_val RejectReasonCode_NotAuthorized = ascii CHR ''A''"
| "RejectReasonCode_val RejectReasonCode_SessionNotAvailable = ascii CHR ''S''"

section \<open>The type codes identify the message\<close>

lemma ascii_inject: "ascii c = ascii d \<longleftrightarrow> c = d"
proof
  have less: "(of_char c :: nat) < 256" "(of_char d :: nat) < 256"
    by simp_all
  assume "ascii c = ascii d"
  then have "unat (ascii c) = unat (ascii d)" by simp
  then show "c = d" using less by (simp add: ascii_def unat_of_nat)
qed simp

lemma MessageType_val_inject: "MessageType_val a = MessageType_val b \<longleftrightarrow> a = b"
  by (cases a; cases b) (simp_all add: ascii_inject)

lemma PacketType_val_inject: "PacketType_val a = PacketType_val b \<longleftrightarrow> a = b"
  by (cases a; cases b) (simp_all add: ascii_inject)

end
