(* ===== verification/Itch_Messages.thy ===== *)
theory Itch_Messages
  imports Protocol_Types
begin

text \<open>
  The ITCH messages of \<^verbatim>\<open>src/lib/protocol/itch\<close> and the MoldUDP64 framing of
  \<^verbatim>\<open>src/lib/protocol/moldudp64\<close> as packed structures.  The offset and size constants of each header
  are definitions; \<open>get\<close> reads every field at the offset the header declares for it, so that each
  interpretation of \<open>wire_codec\<close> shows that the declared offsets are the offsets of the packed
  structure and the declared size is its size.
\<close>

section \<open>MoldUDP64\<close>

subsection \<open>\<^verbatim>\<open>moldudp64_downstream_header.hpp\<close>\<close>

record mold_DownstreamHeader =
  dh_session :: "byte list"
  dh_sequence_number :: u64
  dh_message_count :: u16

definition valid_mold_DownstreamHeader :: "mold_DownstreamHeader \<Rightarrow> bool" where [layout]:
  "valid_mold_DownstreamHeader m \<longleftrightarrow>
     length (dh_session m) = SESSION_NAME_SIZE"

definition put_mold_DownstreamHeader :: "mold_DownstreamHeader \<Rightarrow> byte list" where [layout]:
  "put_mold_DownstreamHeader m =
     dh_session m @
     put64 (dh_sequence_number m) @
     put16 (dh_message_count m)"

definition get_mold_DownstreamHeader :: "byte list \<Rightarrow> mold_DownstreamHeader" where [layout]:
  "get_mold_DownstreamHeader bs =
     \<lparr>dh_session = take SESSION_NAME_SIZE bs,
      dh_sequence_number = get64 (drop 10 bs),
      dh_message_count = get16 (drop 18 bs)\<rparr>"

interpretation mold_DownstreamHeader: wire_codec
  20 valid_mold_DownstreamHeader put_mold_DownstreamHeader get_mold_DownstreamHeader
  by unfold_locales (simp_all add: layout wire)

subsection \<open>\<^verbatim>\<open>moldudp64_message_block.hpp\<close>\<close>

record mold_MessageBlock =
  mb_length :: u16

definition valid_mold_MessageBlock :: "mold_MessageBlock \<Rightarrow> bool" where [layout]:
  "valid_mold_MessageBlock m \<longleftrightarrow> True"

definition put_mold_MessageBlock :: "mold_MessageBlock \<Rightarrow> byte list" where [layout]:
  "put_mold_MessageBlock m =
     put16 (mb_length m)"

definition get_mold_MessageBlock :: "byte list \<Rightarrow> mold_MessageBlock" where [layout]:
  "get_mold_MessageBlock bs =
     \<lparr>mb_length = get16 bs\<rparr>"

interpretation mold_MessageBlock: wire_codec
  2 valid_mold_MessageBlock put_mold_MessageBlock get_mold_MessageBlock
  by unfold_locales (simp_all add: layout wire)

section \<open>ITCH\<close>

subsection \<open>\<^verbatim>\<open>itch_add_order.hpp\<close>\<close>

definition ADD_ORDER_MSG_ORDER_ID_OFFSET :: nat where [layout]:
  "ADD_ORDER_MSG_ORDER_ID_OFFSET = TIMESTAMP_NANOSECONDS_OFFSET + sizeof_TimestampNanoseconds"
definition ADD_ORDER_MSG_ORDERBOOK_ID_OFFSET :: nat where [layout]:
  "ADD_ORDER_MSG_ORDERBOOK_ID_OFFSET = ADD_ORDER_MSG_ORDER_ID_OFFSET + sizeof_OrderId"
definition ADD_ORDER_MSG_SIDE_OFFSET :: nat where [layout]:
  "ADD_ORDER_MSG_SIDE_OFFSET = ADD_ORDER_MSG_ORDERBOOK_ID_OFFSET + sizeof_OrderbookId"
definition ADD_ORDER_MSG_ORDERBOOK_POS_OFFSET :: nat where [layout]:
  "ADD_ORDER_MSG_ORDERBOOK_POS_OFFSET = ADD_ORDER_MSG_SIDE_OFFSET + sizeof_Side"
definition ADD_ORDER_MSG_QUANTITY_OFFSET :: nat where [layout]:
  "ADD_ORDER_MSG_QUANTITY_OFFSET = ADD_ORDER_MSG_ORDERBOOK_POS_OFFSET + sizeof_OrderbookPosition"
definition ADD_ORDER_MSG_PRICE_OFFSET :: nat where [layout]:
  "ADD_ORDER_MSG_PRICE_OFFSET = ADD_ORDER_MSG_QUANTITY_OFFSET + sizeof_Quantity"
definition ADD_ORDER_MSG_ORDER_ATTR_OFFSET :: nat where [layout]:
  "ADD_ORDER_MSG_ORDER_ATTR_OFFSET = ADD_ORDER_MSG_PRICE_OFFSET + sizeof_Price"
definition ADD_ORDER_MSG_LOT_TYPE_OFFSET :: nat where [layout]:
  "ADD_ORDER_MSG_LOT_TYPE_OFFSET = ADD_ORDER_MSG_ORDER_ATTR_OFFSET + sizeof_OrderAttributes"
definition ADD_ORDER_MSG_SIZE :: nat where [layout]:
  "ADD_ORDER_MSG_SIZE = ADD_ORDER_MSG_LOT_TYPE_OFFSET + sizeof_LotType"

record itch_AddOrder =
  ao_type :: byte
  ao_nanoseconds :: u32
  ao_order_id :: u64
  ao_orderbook_id :: u32
  ao_side :: byte
  ao_orderbook_position :: u32
  ao_quantity :: u64
  ao_price :: u32
  ao_order_attributes :: u16
  ao_lot_type :: byte

definition valid_itch_AddOrder :: "itch_AddOrder \<Rightarrow> bool" where [layout]:
  "valid_itch_AddOrder m \<longleftrightarrow> True"

definition put_itch_AddOrder :: "itch_AddOrder \<Rightarrow> byte list" where [layout]:
  "put_itch_AddOrder m =
     put8 (ao_type m) @
     put32 (ao_nanoseconds m) @
     put64 (ao_order_id m) @
     put32 (ao_orderbook_id m) @
     put8 (ao_side m) @
     put32 (ao_orderbook_position m) @
     put64 (ao_quantity m) @
     put32 (ao_price m) @
     put16 (ao_order_attributes m) @
     put8 (ao_lot_type m)"

definition get_itch_AddOrder :: "byte list \<Rightarrow> itch_AddOrder" where [layout]:
  "get_itch_AddOrder bs =
     \<lparr>ao_type = get8 bs,
      ao_nanoseconds = get32 (drop TIMESTAMP_NANOSECONDS_OFFSET bs),
      ao_order_id = get64 (drop ADD_ORDER_MSG_ORDER_ID_OFFSET bs),
      ao_orderbook_id = get32 (drop ADD_ORDER_MSG_ORDERBOOK_ID_OFFSET bs),
      ao_side = get8 (drop ADD_ORDER_MSG_SIDE_OFFSET bs),
      ao_orderbook_position = get32 (drop ADD_ORDER_MSG_ORDERBOOK_POS_OFFSET bs),
      ao_quantity = get64 (drop ADD_ORDER_MSG_QUANTITY_OFFSET bs),
      ao_price = get32 (drop ADD_ORDER_MSG_PRICE_OFFSET bs),
      ao_order_attributes = get16 (drop ADD_ORDER_MSG_ORDER_ATTR_OFFSET bs),
      ao_lot_type = get8 (drop ADD_ORDER_MSG_LOT_TYPE_OFFSET bs)\<rparr>"

interpretation itch_AddOrder: wire_codec
  ADD_ORDER_MSG_SIZE valid_itch_AddOrder put_itch_AddOrder get_itch_AddOrder
  by unfold_locales (simp_all add: layout wire)

subsection \<open>\<^verbatim>\<open>itch_add_order_with_mpid.hpp\<close>\<close>

definition ADD_ORDER_WITH_MPID_MSG_ORDER_ID_OFFSET :: nat where [layout]:
  "ADD_ORDER_WITH_MPID_MSG_ORDER_ID_OFFSET = TIMESTAMP_NANOSECONDS_OFFSET + sizeof_TimestampNanoseconds"
definition ADD_ORDER_WITH_MPID_MSG_ORDERBOOK_ID_OFFSET :: nat where [layout]:
  "ADD_ORDER_WITH_MPID_MSG_ORDERBOOK_ID_OFFSET = ADD_ORDER_WITH_MPID_MSG_ORDER_ID_OFFSET + sizeof_OrderId"
definition ADD_ORDER_WITH_MPID_MSG_SIDE_OFFSET :: nat where [layout]:
  "ADD_ORDER_WITH_MPID_MSG_SIDE_OFFSET = ADD_ORDER_WITH_MPID_MSG_ORDERBOOK_ID_OFFSET + sizeof_OrderbookId"
definition ADD_ORDER_WITH_MPID_MSG_ORDERBOOK_POS_OFFSET :: nat where [layout]:
  "ADD_ORDER_WITH_MPID_MSG_ORDERBOOK_POS_OFFSET = ADD_ORDER_WITH_MPID_MSG_SIDE_OFFSET + sizeof_Side"
definition ADD_ORDER_WITH_MPID_MSG_QUANTITY_OFFSET :: nat where [layout]:
  "ADD_ORDER_WITH_MPID_MSG_QUANTITY_OFFSET = ADD_ORDER_WITH_MPID_MSG_ORDERBOOK_POS_OFFSET + sizeof_OrderbookPosition"
definition ADD_ORDER_WITH_MPID_MSG_PRICE_OFFSET :: nat where [layout]:
  "ADD_ORDER_WITH_MPID_MSG_PRICE_OFFSET = ADD_ORDER_WITH_MPID_MSG_QUANTITY_OFFSET + sizeof_Quantity"
definition ADD_ORDER_WITH_MPID_MSG_ORDER_ATTR_OFFSET :: nat where [layout]:
  "ADD_ORDER_WITH_MPID_MSG_ORDER_ATTR_OFFSET = ADD_ORDER_WITH_MPID_MSG_PRICE_OFFSET + sizeof_Price"
definition ADD_ORDER_WITH_MPID_MSG_LOT_TYPE_OFFSET :: nat where [layout]:
  "ADD_ORDER_WITH_MPID_MSG_LOT_TYPE_OFFSET = ADD_ORDER_WITH_MPID_MSG_ORDER_ATTR_OFFSET + sizeof_OrderAttributes"
definition ADD_ORDER_WITH_MPID_MSG_PARTICIPANT_ID_OFFSET :: nat where [layout]:
  "ADD_ORDER_WITH_MPID_MSG_PARTICIPANT_ID_OFFSET = ADD_ORDER_WITH_MPID_MSG_LOT_TYPE_OFFSET + sizeof_LotType"
definition PARTICIPANT_ID_SIZE :: nat where [layout]:
  "PARTICIPANT_ID_SIZE = 7"
definition ADD_ORDER_WITH_MPID_MSG_SIZE :: nat where [layout]:
  "ADD_ORDER_WITH_MPID_MSG_SIZE = ADD_ORDER_WITH_MPID_MSG_PARTICIPANT_ID_OFFSET + PARTICIPANT_ID_SIZE"

record itch_AddOrderWithMPID =
  aom_type :: byte
  aom_nanoseconds :: u32
  aom_order_id :: u64
  aom_orderbook_id :: u32
  aom_side :: byte
  aom_orderbook_position :: u32
  aom_quantity :: u64
  aom_price :: u32
  aom_order_attributes :: u16
  aom_lot_type :: byte
  aom_participant_id :: "byte list"

definition valid_itch_AddOrderWithMPID :: "itch_AddOrderWithMPID \<Rightarrow> bool" where [layout]:
  "valid_itch_AddOrderWithMPID m \<longleftrightarrow>
     length (aom_participant_id m) = PARTICIPANT_ID_SIZE"

definition put_itch_AddOrderWithMPID :: "itch_AddOrderWithMPID \<Rightarrow> byte list" where [layout]:
  "put_itch_AddOrderWithMPID m =
     put8 (aom_type m) @
     put32 (aom_nanoseconds m) @
     put64 (aom_order_id m) @
     put32 (aom_orderbook_id m) @
     put8 (aom_side m) @
     put32 (aom_orderbook_position m) @
     put64 (aom_quantity m) @
     put32 (aom_price m) @
     put16 (aom_order_attributes m) @
     put8 (aom_lot_type m) @
     aom_participant_id m"

definition get_itch_AddOrderWithMPID :: "byte list \<Rightarrow> itch_AddOrderWithMPID" where [layout]:
  "get_itch_AddOrderWithMPID bs =
     \<lparr>aom_type = get8 bs,
      aom_nanoseconds = get32 (drop TIMESTAMP_NANOSECONDS_OFFSET bs),
      aom_order_id = get64 (drop ADD_ORDER_WITH_MPID_MSG_ORDER_ID_OFFSET bs),
      aom_orderbook_id = get32 (drop ADD_ORDER_WITH_MPID_MSG_ORDERBOOK_ID_OFFSET bs),
      aom_side = get8 (drop ADD_ORDER_WITH_MPID_MSG_SIDE_OFFSET bs),
      aom_orderbook_position = get32 (drop ADD_ORDER_WITH_MPID_MSG_ORDERBOOK_POS_OFFSET bs),
      aom_quantity = get64 (drop ADD_ORDER_WITH_MPID_MSG_QUANTITY_OFFSET bs),
      aom_price = get32 (drop ADD_ORDER_WITH_MPID_MSG_PRICE_OFFSET bs),
      aom_order_attributes = get16 (drop ADD_ORDER_WITH_MPID_MSG_ORDER_ATTR_OFFSET bs),
      aom_lot_type = get8 (drop ADD_ORDER_WITH_MPID_MSG_LOT_TYPE_OFFSET bs),
      aom_participant_id = take PARTICIPANT_ID_SIZE (drop ADD_ORDER_WITH_MPID_MSG_PARTICIPANT_ID_OFFSET bs)\<rparr>"

interpretation itch_AddOrderWithMPID: wire_codec
  ADD_ORDER_WITH_MPID_MSG_SIZE valid_itch_AddOrderWithMPID put_itch_AddOrderWithMPID get_itch_AddOrderWithMPID
  by unfold_locales (simp_all add: layout wire)

subsection \<open>\<^verbatim>\<open>itch_order_delete.hpp\<close>\<close>

definition ORDER_DELETE_MSG_ORDER_ID_OFFSET :: nat where [layout]:
  "ORDER_DELETE_MSG_ORDER_ID_OFFSET = TIMESTAMP_NANOSECONDS_OFFSET + sizeof_TimestampNanoseconds"
definition ORDER_DELETE_MSG_ORDERBOOK_ID_OFFSET :: nat where [layout]:
  "ORDER_DELETE_MSG_ORDERBOOK_ID_OFFSET = ORDER_DELETE_MSG_ORDER_ID_OFFSET + sizeof_OrderId"
definition ORDER_DELETE_MSG_SIDE_OFFSET :: nat where [layout]:
  "ORDER_DELETE_MSG_SIDE_OFFSET = ORDER_DELETE_MSG_ORDERBOOK_ID_OFFSET + sizeof_OrderbookId"
definition ORDER_DELETE_MSG_SIZE :: nat where [layout]:
  "ORDER_DELETE_MSG_SIZE = ORDER_DELETE_MSG_SIDE_OFFSET + sizeof_Side"

record itch_OrderDelete =
  od_type :: byte
  od_nanoseconds :: u32
  od_order_id :: u64
  od_orderbook_id :: u32
  od_side :: byte

definition valid_itch_OrderDelete :: "itch_OrderDelete \<Rightarrow> bool" where [layout]:
  "valid_itch_OrderDelete m \<longleftrightarrow> True"

definition put_itch_OrderDelete :: "itch_OrderDelete \<Rightarrow> byte list" where [layout]:
  "put_itch_OrderDelete m =
     put8 (od_type m) @
     put32 (od_nanoseconds m) @
     put64 (od_order_id m) @
     put32 (od_orderbook_id m) @
     put8 (od_side m)"

definition get_itch_OrderDelete :: "byte list \<Rightarrow> itch_OrderDelete" where [layout]:
  "get_itch_OrderDelete bs =
     \<lparr>od_type = get8 bs,
      od_nanoseconds = get32 (drop TIMESTAMP_NANOSECONDS_OFFSET bs),
      od_order_id = get64 (drop ORDER_DELETE_MSG_ORDER_ID_OFFSET bs),
      od_orderbook_id = get32 (drop ORDER_DELETE_MSG_ORDERBOOK_ID_OFFSET bs),
      od_side = get8 (drop ORDER_DELETE_MSG_SIDE_OFFSET bs)\<rparr>"

interpretation itch_OrderDelete: wire_codec
  ORDER_DELETE_MSG_SIZE valid_itch_OrderDelete put_itch_OrderDelete get_itch_OrderDelete
  by unfold_locales (simp_all add: layout wire)

subsection \<open>\<^verbatim>\<open>itch_order_executed.hpp\<close>\<close>

definition ORDER_EXEC_MSG_RESERVED1_SIZE :: nat where [layout]:
  "ORDER_EXEC_MSG_RESERVED1_SIZE = 7"
definition ORDER_EXEC_MSG_RESERVED2_SIZE :: nat where [layout]:
  "ORDER_EXEC_MSG_RESERVED2_SIZE = 7"
definition ORDER_EXEC_MSG_ORDER_ID_OFFSET :: nat where [layout]:
  "ORDER_EXEC_MSG_ORDER_ID_OFFSET = TIMESTAMP_NANOSECONDS_OFFSET + sizeof_TimestampNanoseconds"
definition ORDER_EXEC_MSG_ORDERBOOK_ID_OFFSET :: nat where [layout]:
  "ORDER_EXEC_MSG_ORDERBOOK_ID_OFFSET = ORDER_EXEC_MSG_ORDER_ID_OFFSET + sizeof_OrderId"
definition ORDER_EXEC_MSG_SIDE_OFFSET :: nat where [layout]:
  "ORDER_EXEC_MSG_SIDE_OFFSET = ORDER_EXEC_MSG_ORDERBOOK_ID_OFFSET + sizeof_OrderbookId"
definition ORDER_EXEC_MSG_EXEC_QTY_OFFSET :: nat where [layout]:
  "ORDER_EXEC_MSG_EXEC_QTY_OFFSET = ORDER_EXEC_MSG_SIDE_OFFSET + sizeof_Side"
definition ORDER_EXEC_MSG_MATCH_ID_OFFSET :: nat where [layout]:
  "ORDER_EXEC_MSG_MATCH_ID_OFFSET = ORDER_EXEC_MSG_EXEC_QTY_OFFSET + sizeof_Quantity"
definition ORDER_EXEC_MSG_COMBO_GROUP_ID_OFFSET :: nat where [layout]:
  "ORDER_EXEC_MSG_COMBO_GROUP_ID_OFFSET = ORDER_EXEC_MSG_MATCH_ID_OFFSET + sizeof_MatchId"
definition ORDER_EXEC_MSG_SIZE :: nat where [layout]:
  "ORDER_EXEC_MSG_SIZE = ORDER_EXEC_MSG_COMBO_GROUP_ID_OFFSET + sizeof_ComboGroupId + ORDER_EXEC_MSG_RESERVED1_SIZE + ORDER_EXEC_MSG_RESERVED2_SIZE"

record itch_OrderExecuted =
  oe_type :: byte
  oe_nanoseconds :: u32
  oe_order_id :: u64
  oe_orderbook_id :: u32
  oe_side :: byte
  oe_quantity :: u64
  oe_match_id :: u64
  oe_combo_group_id :: u32
  oe_reserved1 :: "byte list"
  oe_reserved2 :: "byte list"

definition valid_itch_OrderExecuted :: "itch_OrderExecuted \<Rightarrow> bool" where [layout]:
  "valid_itch_OrderExecuted m \<longleftrightarrow>
     length (oe_reserved1 m) = 7 \<and> length (oe_reserved2 m) = 7"

definition put_itch_OrderExecuted :: "itch_OrderExecuted \<Rightarrow> byte list" where [layout]:
  "put_itch_OrderExecuted m =
     put8 (oe_type m) @
     put32 (oe_nanoseconds m) @
     put64 (oe_order_id m) @
     put32 (oe_orderbook_id m) @
     put8 (oe_side m) @
     put64 (oe_quantity m) @
     put64 (oe_match_id m) @
     put32 (oe_combo_group_id m) @
     oe_reserved1 m @
     oe_reserved2 m"

definition get_itch_OrderExecuted :: "byte list \<Rightarrow> itch_OrderExecuted" where [layout]:
  "get_itch_OrderExecuted bs =
     \<lparr>oe_type = get8 bs,
      oe_nanoseconds = get32 (drop TIMESTAMP_NANOSECONDS_OFFSET bs),
      oe_order_id = get64 (drop ORDER_EXEC_MSG_ORDER_ID_OFFSET bs),
      oe_orderbook_id = get32 (drop ORDER_EXEC_MSG_ORDERBOOK_ID_OFFSET bs),
      oe_side = get8 (drop ORDER_EXEC_MSG_SIDE_OFFSET bs),
      oe_quantity = get64 (drop ORDER_EXEC_MSG_EXEC_QTY_OFFSET bs),
      oe_match_id = get64 (drop ORDER_EXEC_MSG_MATCH_ID_OFFSET bs),
      oe_combo_group_id = get32 (drop ORDER_EXEC_MSG_COMBO_GROUP_ID_OFFSET bs),
      oe_reserved1 = take 7 (drop 38 bs),
      oe_reserved2 = take 7 (drop 45 bs)\<rparr>"

interpretation itch_OrderExecuted: wire_codec
  ORDER_EXEC_MSG_SIZE valid_itch_OrderExecuted put_itch_OrderExecuted get_itch_OrderExecuted
  by unfold_locales (simp_all add: layout wire)

subsection \<open>\<^verbatim>\<open>itch_order_executed_with_price.hpp\<close>\<close>

definition ORDER_EXEC_WITH_PX_MSG_RESERVED1_SIZE :: nat where [layout]:
  "ORDER_EXEC_WITH_PX_MSG_RESERVED1_SIZE = 7"
definition ORDER_EXEC_WITH_PX_MSG_RESERVED2_SIZE :: nat where [layout]:
  "ORDER_EXEC_WITH_PX_MSG_RESERVED2_SIZE = 7"
definition ORDER_EXEC_WITH_PX_MSG_ORDER_ID_OFFSET :: nat where [layout]:
  "ORDER_EXEC_WITH_PX_MSG_ORDER_ID_OFFSET = TIMESTAMP_NANOSECONDS_OFFSET + sizeof_TimestampNanoseconds"
definition ORDER_EXEC_WITH_PX_MSG_ORDERBOOK_ID_OFFSET :: nat where [layout]:
  "ORDER_EXEC_WITH_PX_MSG_ORDERBOOK_ID_OFFSET = ORDER_EXEC_WITH_PX_MSG_ORDER_ID_OFFSET + sizeof_OrderId"
definition ORDER_EXEC_WITH_PX_MSG_SIDE_OFFSET :: nat where [layout]:
  "ORDER_EXEC_WITH_PX_MSG_SIDE_OFFSET = ORDER_EXEC_WITH_PX_MSG_ORDERBOOK_ID_OFFSET + sizeof_OrderbookId"
definition ORDER_EXEC_WITH_PX_MSG_EXEC_QTY_OFFSET :: nat where [layout]:
  "ORDER_EXEC_WITH_PX_MSG_EXEC_QTY_OFFSET = ORDER_EXEC_WITH_PX_MSG_SIDE_OFFSET + sizeof_Side"
definition ORDER_EXEC_WITH_PX_MSG_MATCH_ID_OFFSET :: nat where [layout]:
  "ORDER_EXEC_WITH_PX_MSG_MATCH_ID_OFFSET = ORDER_EXEC_WITH_PX_MSG_EXEC_QTY_OFFSET + sizeof_Quantity"
definition ORDER_EXEC_WITH_PX_MSG_COMBO_GROUP_ID_OFFSET :: nat where [layout]:
  "ORDER_EXEC_WITH_PX_MSG_COMBO_GROUP_ID_OFFSET = ORDER_EXEC_WITH_PX_MSG_MATCH_ID_OFFSET + sizeof_MatchId"
definition ORDER_EXEC_WITH_PX_MSG_TRADE_PX_OFFSET :: nat where [layout]:
  "ORDER_EXEC_WITH_PX_MSG_TRADE_PX_OFFSET = ORDER_EXEC_WITH_PX_MSG_COMBO_GROUP_ID_OFFSET + sizeof_ComboGroupId + ORDER_EXEC_WITH_PX_MSG_RESERVED1_SIZE + ORDER_EXEC_WITH_PX_MSG_RESERVED2_SIZE"
definition ORDER_EXEC_WITH_PX_MSG_OCCURRED_AT_CROSS_OFFSET :: nat where [layout]:
  "ORDER_EXEC_WITH_PX_MSG_OCCURRED_AT_CROSS_OFFSET = ORDER_EXEC_WITH_PX_MSG_TRADE_PX_OFFSET + sizeof_Price"
definition ORDER_EXEC_WITH_PX_MSG_PRINTABLE_OFFSET :: nat where [layout]:
  "ORDER_EXEC_WITH_PX_MSG_PRINTABLE_OFFSET = ORDER_EXEC_WITH_PX_MSG_OCCURRED_AT_CROSS_OFFSET + sizeof_OccurredAtCross"
definition ORDER_EXEC_WITH_PX_MSG_SIZE :: nat where [layout]:
  "ORDER_EXEC_WITH_PX_MSG_SIZE = ORDER_EXEC_WITH_PX_MSG_PRINTABLE_OFFSET + sizeof_Printable"

record itch_OrderExecutedWithPrice =
  oep_type :: byte
  oep_nanoseconds :: u32
  oep_order_id :: u64
  oep_orderbook_id :: u32
  oep_side :: byte
  oep_quantity :: u64
  oep_match_id :: u64
  oep_combo_group_id :: u32
  oep_reserved1 :: "byte list"
  oep_reserved2 :: "byte list"
  oep_trade_price :: u32
  oep_occurred_at_cross :: byte
  oep_printable :: byte

definition valid_itch_OrderExecutedWithPrice :: "itch_OrderExecutedWithPrice \<Rightarrow> bool" where [layout]:
  "valid_itch_OrderExecutedWithPrice m \<longleftrightarrow>
     length (oep_reserved1 m) = ORDER_EXEC_WITH_PX_MSG_RESERVED1_SIZE \<and> length (oep_reserved2 m) = ORDER_EXEC_WITH_PX_MSG_RESERVED2_SIZE"

definition put_itch_OrderExecutedWithPrice :: "itch_OrderExecutedWithPrice \<Rightarrow> byte list" where [layout]:
  "put_itch_OrderExecutedWithPrice m =
     put8 (oep_type m) @
     put32 (oep_nanoseconds m) @
     put64 (oep_order_id m) @
     put32 (oep_orderbook_id m) @
     put8 (oep_side m) @
     put64 (oep_quantity m) @
     put64 (oep_match_id m) @
     put32 (oep_combo_group_id m) @
     oep_reserved1 m @
     oep_reserved2 m @
     put32 (oep_trade_price m) @
     put8 (oep_occurred_at_cross m) @
     put8 (oep_printable m)"

definition get_itch_OrderExecutedWithPrice :: "byte list \<Rightarrow> itch_OrderExecutedWithPrice" where [layout]:
  "get_itch_OrderExecutedWithPrice bs =
     \<lparr>oep_type = get8 bs,
      oep_nanoseconds = get32 (drop TIMESTAMP_NANOSECONDS_OFFSET bs),
      oep_order_id = get64 (drop ORDER_EXEC_WITH_PX_MSG_ORDER_ID_OFFSET bs),
      oep_orderbook_id = get32 (drop ORDER_EXEC_WITH_PX_MSG_ORDERBOOK_ID_OFFSET bs),
      oep_side = get8 (drop ORDER_EXEC_WITH_PX_MSG_SIDE_OFFSET bs),
      oep_quantity = get64 (drop ORDER_EXEC_WITH_PX_MSG_EXEC_QTY_OFFSET bs),
      oep_match_id = get64 (drop ORDER_EXEC_WITH_PX_MSG_MATCH_ID_OFFSET bs),
      oep_combo_group_id = get32 (drop ORDER_EXEC_WITH_PX_MSG_COMBO_GROUP_ID_OFFSET bs),
      oep_reserved1 = take ORDER_EXEC_WITH_PX_MSG_RESERVED1_SIZE (drop 38 bs),
      oep_reserved2 = take ORDER_EXEC_WITH_PX_MSG_RESERVED2_SIZE (drop 45 bs),
      oep_trade_price = get32 (drop ORDER_EXEC_WITH_PX_MSG_TRADE_PX_OFFSET bs),
      oep_occurred_at_cross = get8 (drop ORDER_EXEC_WITH_PX_MSG_OCCURRED_AT_CROSS_OFFSET bs),
      oep_printable = get8 (drop ORDER_EXEC_WITH_PX_MSG_PRINTABLE_OFFSET bs)\<rparr>"

interpretation itch_OrderExecutedWithPrice: wire_codec
  ORDER_EXEC_WITH_PX_MSG_SIZE valid_itch_OrderExecutedWithPrice put_itch_OrderExecutedWithPrice get_itch_OrderExecutedWithPrice
  by unfold_locales (simp_all add: layout wire)

subsection \<open>\<^verbatim>\<open>itch_order_replace.hpp\<close>\<close>

definition REPLACE_ORDER_MSG_ORDER_ID_OFFSET :: nat where [layout]:
  "REPLACE_ORDER_MSG_ORDER_ID_OFFSET = TIMESTAMP_NANOSECONDS_OFFSET + sizeof_TimestampNanoseconds"
definition REPLACE_ORDER_MSG_ORDERBOOK_ID_OFFSET :: nat where [layout]:
  "REPLACE_ORDER_MSG_ORDERBOOK_ID_OFFSET = REPLACE_ORDER_MSG_ORDER_ID_OFFSET + sizeof_OrderId"
definition REPLACE_ORDER_MSG_SIDE_OFFSET :: nat where [layout]:
  "REPLACE_ORDER_MSG_SIDE_OFFSET = REPLACE_ORDER_MSG_ORDERBOOK_ID_OFFSET + sizeof_OrderbookId"
definition REPLACE_ORDER_MSG_ORDERBOOK_POS_OFFSET :: nat where [layout]:
  "REPLACE_ORDER_MSG_ORDERBOOK_POS_OFFSET = REPLACE_ORDER_MSG_SIDE_OFFSET + sizeof_Side"
definition REPLACE_ORDER_MSG_QUANTITY_OFFSET :: nat where [layout]:
  "REPLACE_ORDER_MSG_QUANTITY_OFFSET = REPLACE_ORDER_MSG_ORDERBOOK_POS_OFFSET + sizeof_OrderbookPosition"
definition REPLACE_ORDER_MSG_PRICE_OFFSET :: nat where [layout]:
  "REPLACE_ORDER_MSG_PRICE_OFFSET = REPLACE_ORDER_MSG_QUANTITY_OFFSET + sizeof_Quantity"
definition REPLACE_ORDER_MSG_ORDER_ATTR_OFFSET :: nat where [layout]:
  "REPLACE_ORDER_MSG_ORDER_ATTR_OFFSET = REPLACE_ORDER_MSG_PRICE_OFFSET + sizeof_Price"
definition REPLACE_ORDER_MSG_SIZE :: nat where [layout]:
  "REPLACE_ORDER_MSG_SIZE = REPLACE_ORDER_MSG_ORDER_ATTR_OFFSET + sizeof_OrderAttributes"

record itch_OrderReplace =
  orp_type :: byte
  orp_nanoseconds :: u32
  orp_order_id :: u64
  orp_orderbook_id :: u32
  orp_side :: byte
  orp_orderbook_position :: u32
  orp_quantity :: u64
  orp_price :: u32
  orp_order_attributes :: u16

definition valid_itch_OrderReplace :: "itch_OrderReplace \<Rightarrow> bool" where [layout]:
  "valid_itch_OrderReplace m \<longleftrightarrow> True"

definition put_itch_OrderReplace :: "itch_OrderReplace \<Rightarrow> byte list" where [layout]:
  "put_itch_OrderReplace m =
     put8 (orp_type m) @
     put32 (orp_nanoseconds m) @
     put64 (orp_order_id m) @
     put32 (orp_orderbook_id m) @
     put8 (orp_side m) @
     put32 (orp_orderbook_position m) @
     put64 (orp_quantity m) @
     put32 (orp_price m) @
     put16 (orp_order_attributes m)"

definition get_itch_OrderReplace :: "byte list \<Rightarrow> itch_OrderReplace" where [layout]:
  "get_itch_OrderReplace bs =
     \<lparr>orp_type = get8 bs,
      orp_nanoseconds = get32 (drop TIMESTAMP_NANOSECONDS_OFFSET bs),
      orp_order_id = get64 (drop REPLACE_ORDER_MSG_ORDER_ID_OFFSET bs),
      orp_orderbook_id = get32 (drop REPLACE_ORDER_MSG_ORDERBOOK_ID_OFFSET bs),
      orp_side = get8 (drop REPLACE_ORDER_MSG_SIDE_OFFSET bs),
      orp_orderbook_position = get32 (drop REPLACE_ORDER_MSG_ORDERBOOK_POS_OFFSET bs),
      orp_quantity = get64 (drop REPLACE_ORDER_MSG_QUANTITY_OFFSET bs),
      orp_price = get32 (drop REPLACE_ORDER_MSG_PRICE_OFFSET bs),
      orp_order_attributes = get16 (drop REPLACE_ORDER_MSG_ORDER_ATTR_OFFSET bs)\<rparr>"

interpretation itch_OrderReplace: wire_codec
  REPLACE_ORDER_MSG_SIZE valid_itch_OrderReplace put_itch_OrderReplace get_itch_OrderReplace
  by unfold_locales (simp_all add: layout wire)

subsection \<open>\<^verbatim>\<open>itch_trade.hpp\<close>\<close>

definition TRADE_MSG_RESERVED1_SIZE :: nat where [layout]:
  "TRADE_MSG_RESERVED1_SIZE = 7"
definition TRADE_MSG_RESERVED2_SIZE :: nat where [layout]:
  "TRADE_MSG_RESERVED2_SIZE = 7"
definition TRADE_MSG_MATCH_ID_OFFSET :: nat where [layout]:
  "TRADE_MSG_MATCH_ID_OFFSET = TIMESTAMP_NANOSECONDS_OFFSET + sizeof_TimestampNanoseconds"
definition TRADE_MSG_COMBO_GROUP_ID_OFFSET :: nat where [layout]:
  "TRADE_MSG_COMBO_GROUP_ID_OFFSET = TRADE_MSG_MATCH_ID_OFFSET + sizeof_MatchId"
definition TRADE_MSG_SIDE_OFFSET :: nat where [layout]:
  "TRADE_MSG_SIDE_OFFSET = TRADE_MSG_COMBO_GROUP_ID_OFFSET + sizeof_ComboGroupId"
definition TRADE_MSG_QUANTITY_OFFSET :: nat where [layout]:
  "TRADE_MSG_QUANTITY_OFFSET = TRADE_MSG_SIDE_OFFSET + sizeof_Side"
definition TRADE_MSG_ORDERBOOK_ID_OFFSET :: nat where [layout]:
  "TRADE_MSG_ORDERBOOK_ID_OFFSET = TRADE_MSG_QUANTITY_OFFSET + sizeof_Quantity"
definition TRADE_MSG_TRADE_PRICE_OFFSET :: nat where [layout]:
  "TRADE_MSG_TRADE_PRICE_OFFSET = TRADE_MSG_ORDERBOOK_ID_OFFSET + sizeof_OrderbookId"
definition TRADE_MSG_PRINTABLE_OFFSET :: nat where [layout]:
  "TRADE_MSG_PRINTABLE_OFFSET = TRADE_MSG_TRADE_PRICE_OFFSET + sizeof_Price + TRADE_MSG_RESERVED1_SIZE + TRADE_MSG_RESERVED2_SIZE"
definition TRADE_MSG_OCCURRED_AT_CROSS_OFFSET :: nat where [layout]:
  "TRADE_MSG_OCCURRED_AT_CROSS_OFFSET = TRADE_MSG_PRINTABLE_OFFSET + sizeof_Printable"
definition TRADE_MSG_SIZE :: nat where [layout]:
  "TRADE_MSG_SIZE = TRADE_MSG_OCCURRED_AT_CROSS_OFFSET + sizeof_OccurredAtCross"

record itch_Trade =
  tr_type :: byte
  tr_nanoseconds :: u32
  tr_match_id :: u64
  tr_combo_group_id :: u32
  tr_side :: byte
  tr_quantity :: u64
  tr_orderbook_id :: u32
  tr_trade_price :: u32
  tr_reserved1 :: "byte list"
  tr_reserved2 :: "byte list"
  tr_printable :: byte
  tr_occurred_at_cross :: byte

definition valid_itch_Trade :: "itch_Trade \<Rightarrow> bool" where [layout]:
  "valid_itch_Trade m \<longleftrightarrow>
     length (tr_reserved1 m) = TRADE_MSG_RESERVED1_SIZE \<and> length (tr_reserved2 m) = TRADE_MSG_RESERVED2_SIZE"

definition put_itch_Trade :: "itch_Trade \<Rightarrow> byte list" where [layout]:
  "put_itch_Trade m =
     put8 (tr_type m) @
     put32 (tr_nanoseconds m) @
     put64 (tr_match_id m) @
     put32 (tr_combo_group_id m) @
     put8 (tr_side m) @
     put64 (tr_quantity m) @
     put32 (tr_orderbook_id m) @
     put32 (tr_trade_price m) @
     tr_reserved1 m @
     tr_reserved2 m @
     put8 (tr_printable m) @
     put8 (tr_occurred_at_cross m)"

definition get_itch_Trade :: "byte list \<Rightarrow> itch_Trade" where [layout]:
  "get_itch_Trade bs =
     \<lparr>tr_type = get8 bs,
      tr_nanoseconds = get32 (drop TIMESTAMP_NANOSECONDS_OFFSET bs),
      tr_match_id = get64 (drop TRADE_MSG_MATCH_ID_OFFSET bs),
      tr_combo_group_id = get32 (drop TRADE_MSG_COMBO_GROUP_ID_OFFSET bs),
      tr_side = get8 (drop TRADE_MSG_SIDE_OFFSET bs),
      tr_quantity = get64 (drop TRADE_MSG_QUANTITY_OFFSET bs),
      tr_orderbook_id = get32 (drop TRADE_MSG_ORDERBOOK_ID_OFFSET bs),
      tr_trade_price = get32 (drop TRADE_MSG_TRADE_PRICE_OFFSET bs),
      tr_reserved1 = take TRADE_MSG_RESERVED1_SIZE (drop 34 bs),
      tr_reserved2 = take TRADE_MSG_RESERVED2_SIZE (drop 41 bs),
      tr_printable = get8 (drop TRADE_MSG_PRINTABLE_OFFSET bs),
      tr_occurred_at_cross = get8 (drop TRADE_MSG_OCCURRED_AT_CROSS_OFFSET bs)\<rparr>"

interpretation itch_Trade: wire_codec
  TRADE_MSG_SIZE valid_itch_Trade put_itch_Trade get_itch_Trade
  by unfold_locales (simp_all add: layout wire)

subsection \<open>\<^verbatim>\<open>itch_equilibrium_price_update.hpp\<close>\<close>

definition EQUILIBRIUM_PRICE_UPDATE_MSG_ORDERBOOK_ID_OFFSET :: nat where [layout]:
  "EQUILIBRIUM_PRICE_UPDATE_MSG_ORDERBOOK_ID_OFFSET = TIMESTAMP_NANOSECONDS_OFFSET + sizeof_TimestampNanoseconds"
definition EQUILIBRIUM_PRICE_UPDATE_MSG_AVAILABLE_BID_QTY_EQUI_PX_OFFSET :: nat where [layout]:
  "EQUILIBRIUM_PRICE_UPDATE_MSG_AVAILABLE_BID_QTY_EQUI_PX_OFFSET = EQUILIBRIUM_PRICE_UPDATE_MSG_ORDERBOOK_ID_OFFSET + sizeof_OrderbookId"
definition EQUILIBRIUM_PRICE_UPDATE_MSG_AVAILABLE_ASK_QTY_EQUI_PX_OFFSET :: nat where [layout]:
  "EQUILIBRIUM_PRICE_UPDATE_MSG_AVAILABLE_ASK_QTY_EQUI_PX_OFFSET = EQUILIBRIUM_PRICE_UPDATE_MSG_AVAILABLE_BID_QTY_EQUI_PX_OFFSET + sizeof_Quantity"
definition EQUILIBRIUM_PRICE_UPDATE_MSG_EQUI_PX_OFFSET :: nat where [layout]:
  "EQUILIBRIUM_PRICE_UPDATE_MSG_EQUI_PX_OFFSET = EQUILIBRIUM_PRICE_UPDATE_MSG_AVAILABLE_ASK_QTY_EQUI_PX_OFFSET + sizeof_Quantity"
definition EQUILIBRIUM_PRICE_UPDATE_MSG_BEST_BID_PRICE_OFFSET :: nat where [layout]:
  "EQUILIBRIUM_PRICE_UPDATE_MSG_BEST_BID_PRICE_OFFSET = EQUILIBRIUM_PRICE_UPDATE_MSG_EQUI_PX_OFFSET + sizeof_Price"
definition EQUILIBRIUM_PRICE_UPDATE_MSG_BEST_ASK_PRICE_OFFSET :: nat where [layout]:
  "EQUILIBRIUM_PRICE_UPDATE_MSG_BEST_ASK_PRICE_OFFSET = EQUILIBRIUM_PRICE_UPDATE_MSG_BEST_BID_PRICE_OFFSET + sizeof_Price"
definition EQUILIBRIUM_PRICE_UPDATE_MSG_BEST_BID_QTY_OFFSET :: nat where [layout]:
  "EQUILIBRIUM_PRICE_UPDATE_MSG_BEST_BID_QTY_OFFSET = EQUILIBRIUM_PRICE_UPDATE_MSG_BEST_ASK_PRICE_OFFSET + sizeof_Price"
definition EQUILIBRIUM_PRICE_UPDATE_MSG_BEST_ASK_QTY_OFFSET :: nat where [layout]:
  "EQUILIBRIUM_PRICE_UPDATE_MSG_BEST_ASK_QTY_OFFSET = EQUILIBRIUM_PRICE_UPDATE_MSG_BEST_BID_QTY_OFFSET + sizeof_Quantity"
definition EQUILIBRIUM_PRICE_UPDATE_MSG_SIZE :: nat where [layout]:
  "EQUILIBRIUM_PRICE_UPDATE_MSG_SIZE = EQUILIBRIUM_PRICE_UPDATE_MSG_BEST_ASK_QTY_OFFSET + sizeof_Quantity"

record itch_EquilibriumPriceUpdate =
  epu_type :: byte
  epu_nanoseconds :: u32
  epu_orderbook_id :: u32
  epu_available_bid_quantity :: u64
  epu_available_ask_quantity :: u64
  epu_equilibrium_price :: u32
  epu_best_bid_price :: u32
  epu_best_ask_price :: u32
  epu_best_bid_quantity :: u64
  epu_best_ask_quantity :: u64

definition valid_itch_EquilibriumPriceUpdate :: "itch_EquilibriumPriceUpdate \<Rightarrow> bool" where [layout]:
  "valid_itch_EquilibriumPriceUpdate m \<longleftrightarrow> True"

definition put_itch_EquilibriumPriceUpdate :: "itch_EquilibriumPriceUpdate \<Rightarrow> byte list" where [layout]:
  "put_itch_EquilibriumPriceUpdate m =
     put8 (epu_type m) @
     put32 (epu_nanoseconds m) @
     put32 (epu_orderbook_id m) @
     put64 (epu_available_bid_quantity m) @
     put64 (epu_available_ask_quantity m) @
     put32 (epu_equilibrium_price m) @
     put32 (epu_best_bid_price m) @
     put32 (epu_best_ask_price m) @
     put64 (epu_best_bid_quantity m) @
     put64 (epu_best_ask_quantity m)"

definition get_itch_EquilibriumPriceUpdate :: "byte list \<Rightarrow> itch_EquilibriumPriceUpdate" where [layout]:
  "get_itch_EquilibriumPriceUpdate bs =
     \<lparr>epu_type = get8 bs,
      epu_nanoseconds = get32 (drop TIMESTAMP_NANOSECONDS_OFFSET bs),
      epu_orderbook_id = get32 (drop EQUILIBRIUM_PRICE_UPDATE_MSG_ORDERBOOK_ID_OFFSET bs),
      epu_available_bid_quantity = get64 (drop EQUILIBRIUM_PRICE_UPDATE_MSG_AVAILABLE_BID_QTY_EQUI_PX_OFFSET bs),
      epu_available_ask_quantity = get64 (drop EQUILIBRIUM_PRICE_UPDATE_MSG_AVAILABLE_ASK_QTY_EQUI_PX_OFFSET bs),
      epu_equilibrium_price = get32 (drop EQUILIBRIUM_PRICE_UPDATE_MSG_EQUI_PX_OFFSET bs),
      epu_best_bid_price = get32 (drop EQUILIBRIUM_PRICE_UPDATE_MSG_BEST_BID_PRICE_OFFSET bs),
      epu_best_ask_price = get32 (drop EQUILIBRIUM_PRICE_UPDATE_MSG_BEST_ASK_PRICE_OFFSET bs),
      epu_best_bid_quantity = get64 (drop EQUILIBRIUM_PRICE_UPDATE_MSG_BEST_BID_QTY_OFFSET bs),
      epu_best_ask_quantity = get64 (drop EQUILIBRIUM_PRICE_UPDATE_MSG_BEST_ASK_QTY_OFFSET bs)\<rparr>"

interpretation itch_EquilibriumPriceUpdate: wire_codec
  EQUILIBRIUM_PRICE_UPDATE_MSG_SIZE valid_itch_EquilibriumPriceUpdate put_itch_EquilibriumPriceUpdate get_itch_EquilibriumPriceUpdate
  by unfold_locales (simp_all add: layout wire)

subsection \<open>\<^verbatim>\<open>itch_orderbook_flush.hpp\<close>\<close>

definition ORDERBOOK_FLUSH_MSG_ORDERBOOK_ID_OFFSET :: nat where [layout]:
  "ORDERBOOK_FLUSH_MSG_ORDERBOOK_ID_OFFSET = TIMESTAMP_NANOSECONDS_OFFSET + sizeof_TimestampNanoseconds"
definition ORDERBOOK_FLUSH_MSG_SIZE :: nat where [layout]:
  "ORDERBOOK_FLUSH_MSG_SIZE = ORDERBOOK_FLUSH_MSG_ORDERBOOK_ID_OFFSET + sizeof_OrderbookId"

record itch_OrderbookFlush =
  obf_type :: byte
  obf_nanoseconds :: u32
  obf_orderbook_id :: u32

definition valid_itch_OrderbookFlush :: "itch_OrderbookFlush \<Rightarrow> bool" where [layout]:
  "valid_itch_OrderbookFlush m \<longleftrightarrow> True"

definition put_itch_OrderbookFlush :: "itch_OrderbookFlush \<Rightarrow> byte list" where [layout]:
  "put_itch_OrderbookFlush m =
     put8 (obf_type m) @
     put32 (obf_nanoseconds m) @
     put32 (obf_orderbook_id m)"

definition get_itch_OrderbookFlush :: "byte list \<Rightarrow> itch_OrderbookFlush" where [layout]:
  "get_itch_OrderbookFlush bs =
     \<lparr>obf_type = get8 bs,
      obf_nanoseconds = get32 (drop TIMESTAMP_NANOSECONDS_OFFSET bs),
      obf_orderbook_id = get32 (drop ORDERBOOK_FLUSH_MSG_ORDERBOOK_ID_OFFSET bs)\<rparr>"

interpretation itch_OrderbookFlush: wire_codec
  ORDERBOOK_FLUSH_MSG_SIZE valid_itch_OrderbookFlush put_itch_OrderbookFlush get_itch_OrderbookFlush
  by unfold_locales (simp_all add: layout wire)

subsection \<open>\<^verbatim>\<open>itch_seconds.hpp\<close>\<close>

definition SECONDS_MSG_SIZE :: nat where [layout]:
  "SECONDS_MSG_SIZE = TIMESTAMP_NANOSECONDS_OFFSET + sizeof_Second"

record itch_Seconds =
  sec_type :: byte
  sec_second :: u32

definition valid_itch_Seconds :: "itch_Seconds \<Rightarrow> bool" where [layout]:
  "valid_itch_Seconds m \<longleftrightarrow> True"

definition put_itch_Seconds :: "itch_Seconds \<Rightarrow> byte list" where [layout]:
  "put_itch_Seconds m =
     put8 (sec_type m) @
     put32 (sec_second m)"

definition get_itch_Seconds :: "byte list \<Rightarrow> itch_Seconds" where [layout]:
  "get_itch_Seconds bs =
     \<lparr>sec_type = get8 bs,
      sec_second = get32 (drop TIMESTAMP_NANOSECONDS_OFFSET bs)\<rparr>"

interpretation itch_Seconds: wire_codec
  SECONDS_MSG_SIZE valid_itch_Seconds put_itch_Seconds get_itch_Seconds
  by unfold_locales (simp_all add: layout wire)

subsection \<open>\<^verbatim>\<open>itch_orderbook_directory.hpp\<close>\<close>

definition ORDERBOOK_DIRECTORY_MSG_ORDERBOOK_ID_OFFSET :: nat where [layout]:
  "ORDERBOOK_DIRECTORY_MSG_ORDERBOOK_ID_OFFSET = TIMESTAMP_NANOSECONDS_OFFSET + sizeof_TimestampNanoseconds"
definition ORDERBOOK_DIRECTORY_MSG_SYMBOL_OFFSET :: nat where [layout]:
  "ORDERBOOK_DIRECTORY_MSG_SYMBOL_OFFSET = ORDERBOOK_DIRECTORY_MSG_ORDERBOOK_ID_OFFSET + sizeof_OrderbookId"
definition SYMBOL_LENGTH :: nat where [layout]:
  "SYMBOL_LENGTH = 32"
definition ORDERBOOK_DIRECTORY_MSG_LONG_NAME_OFFSET :: nat where [layout]:
  "ORDERBOOK_DIRECTORY_MSG_LONG_NAME_OFFSET = ORDERBOOK_DIRECTORY_MSG_SYMBOL_OFFSET + SYMBOL_LENGTH"
definition LONG_NAME_LENGTH :: nat where [layout]:
  "LONG_NAME_LENGTH = 32"
definition ORDERBOOK_DIRECTORY_MSG_ISIN_OFFSET :: nat where [layout]:
  "ORDERBOOK_DIRECTORY_MSG_ISIN_OFFSET = ORDERBOOK_DIRECTORY_MSG_LONG_NAME_OFFSET + LONG_NAME_LENGTH"
definition ISIN_LENGTH :: nat where [layout]:
  "ISIN_LENGTH = 12"
definition ORDERBOOK_DIRECTORY_MSG_FINANCIAL_PRODUCT_OFFSET :: nat where [layout]:
  "ORDERBOOK_DIRECTORY_MSG_FINANCIAL_PRODUCT_OFFSET = ORDERBOOK_DIRECTORY_MSG_ISIN_OFFSET + ISIN_LENGTH"
definition ORDERBOOK_DIRECTORY_MSG_TRADING_CURRENCY_OFFSET :: nat where [layout]:
  "ORDERBOOK_DIRECTORY_MSG_TRADING_CURRENCY_OFFSET = ORDERBOOK_DIRECTORY_MSG_FINANCIAL_PRODUCT_OFFSET + sizeof_FinancialProduct"
definition TRADING_CURRENCY_LENGTH :: nat where [layout]:
  "TRADING_CURRENCY_LENGTH = 3"
definition ORDERBOOK_DIRECTORY_MSG_NUM_DECIMALS_IN_PRICE_OFFSET :: nat where [layout]:
  "ORDERBOOK_DIRECTORY_MSG_NUM_DECIMALS_IN_PRICE_OFFSET = ORDERBOOK_DIRECTORY_MSG_TRADING_CURRENCY_OFFSET + TRADING_CURRENCY_LENGTH"
definition ORDERBOOK_DIRECTORY_MSG_NUM_DECIMALS_IN_NOMINAL_VAL_OFFSET :: nat where [layout]:
  "ORDERBOOK_DIRECTORY_MSG_NUM_DECIMALS_IN_NOMINAL_VAL_OFFSET = ORDERBOOK_DIRECTORY_MSG_NUM_DECIMALS_IN_PRICE_OFFSET + sizeof_NumberOfDecimalsInPrice"
definition ORDERBOOK_DIRECTORY_MSG_ODD_LOT_SIZE_OFFSET :: nat where [layout]:
  "ORDERBOOK_DIRECTORY_MSG_ODD_LOT_SIZE_OFFSET = ORDERBOOK_DIRECTORY_MSG_NUM_DECIMALS_IN_NOMINAL_VAL_OFFSET + sizeof_NumberOfDecimalsInPrice"
definition ORDERBOOK_DIRECTORY_MSG_ROUND_LOT_SIZE_OFFSET :: nat where [layout]:
  "ORDERBOOK_DIRECTORY_MSG_ROUND_LOT_SIZE_OFFSET = ORDERBOOK_DIRECTORY_MSG_ODD_LOT_SIZE_OFFSET + sizeof_LotSize"
definition ORDERBOOK_DIRECTORY_MSG_BLOCK_LOT_SIZE_OFFSET :: nat where [layout]:
  "ORDERBOOK_DIRECTORY_MSG_BLOCK_LOT_SIZE_OFFSET = ORDERBOOK_DIRECTORY_MSG_ROUND_LOT_SIZE_OFFSET + sizeof_LotSize"
definition ORDERBOOK_DIRECTORY_MSG_NOMINAL_VAL_OFFSET :: nat where [layout]:
  "ORDERBOOK_DIRECTORY_MSG_NOMINAL_VAL_OFFSET = ORDERBOOK_DIRECTORY_MSG_BLOCK_LOT_SIZE_OFFSET + sizeof_LotSize"
definition ORDERBOOK_DIRECTORY_MSG_NUM_OF_LEGS_OFFSET :: nat where [layout]:
  "ORDERBOOK_DIRECTORY_MSG_NUM_OF_LEGS_OFFSET = ORDERBOOK_DIRECTORY_MSG_NOMINAL_VAL_OFFSET + sizeof_NominalValue"
definition ORDERBOOK_DIRECTORY_MSG_UNDERLYING_ORDERBOOK_ID_OFFSET :: nat where [layout]:
  "ORDERBOOK_DIRECTORY_MSG_UNDERLYING_ORDERBOOK_ID_OFFSET = ORDERBOOK_DIRECTORY_MSG_NUM_OF_LEGS_OFFSET + sizeof_NumberOfLegs"
definition ORDERBOOK_DIRECTORY_MSG_STRIKE_PRICE_OFFSET :: nat where [layout]:
  "ORDERBOOK_DIRECTORY_MSG_STRIKE_PRICE_OFFSET = ORDERBOOK_DIRECTORY_MSG_UNDERLYING_ORDERBOOK_ID_OFFSET + sizeof_OrderbookId"
definition ORDERBOOK_DIRECTORY_MSG_EXPIRATION_DATE_OFFSET :: nat where [layout]:
  "ORDERBOOK_DIRECTORY_MSG_EXPIRATION_DATE_OFFSET = ORDERBOOK_DIRECTORY_MSG_STRIKE_PRICE_OFFSET + sizeof_Price"
definition ORDERBOOK_DIRECTORY_MSG_NUM_OF_DECIMALS_IN_STRIKE_PRICE_OFFSET :: nat where [layout]:
  "ORDERBOOK_DIRECTORY_MSG_NUM_OF_DECIMALS_IN_STRIKE_PRICE_OFFSET = ORDERBOOK_DIRECTORY_MSG_EXPIRATION_DATE_OFFSET + sizeof_ExpirationDate"
definition ORDERBOOK_DIRECTORY_MSG_PUT_OR_CALL_OFFSET :: nat where [layout]:
  "ORDERBOOK_DIRECTORY_MSG_PUT_OR_CALL_OFFSET = ORDERBOOK_DIRECTORY_MSG_NUM_OF_DECIMALS_IN_STRIKE_PRICE_OFFSET + sizeof_NumberOfDecimalsInPrice"
definition ORDERBOOK_DIRECTORY_MSG_SIZE :: nat where [layout]:
  "ORDERBOOK_DIRECTORY_MSG_SIZE = ORDERBOOK_DIRECTORY_MSG_PUT_OR_CALL_OFFSET + sizeof_PutOrCall"

record itch_OrderBookDirectory =
  obd_type :: byte
  obd_nanoseconds :: u32
  obd_orderbook_id :: u32
  obd_symbol :: "byte list"
  obd_long_name :: "byte list"
  obd_isin :: "byte list"
  obd_financial_product :: byte
  obd_trading_currency :: "byte list"
  obd_num_decimals_in_price :: u16
  obd_num_decimals_in_nominal_price :: u16
  obd_odd_lot_size :: u32
  obd_round_lot_size :: u32
  obd_block_lot_size :: u32
  obd_nominal_value :: u64
  obd_num_legs :: byte
  obd_underlying_orderbook_id :: u32
  obd_strike_price :: u32
  obd_expiration_date :: u32
  obd_num_decimals_in_strike_price :: u16
  obd_put_or_call :: byte

definition valid_itch_OrderBookDirectory :: "itch_OrderBookDirectory \<Rightarrow> bool" where [layout]:
  "valid_itch_OrderBookDirectory m \<longleftrightarrow>
     length (obd_symbol m) = SYMBOL_LENGTH \<and>
     length (obd_long_name m) = LONG_NAME_LENGTH \<and>
     length (obd_isin m) = ISIN_LENGTH \<and>
     length (obd_trading_currency m) = TRADING_CURRENCY_LENGTH"

definition put_itch_OrderBookDirectory :: "itch_OrderBookDirectory \<Rightarrow> byte list" where [layout]:
  "put_itch_OrderBookDirectory m =
     put8 (obd_type m) @
     put32 (obd_nanoseconds m) @
     put32 (obd_orderbook_id m) @
     obd_symbol m @
     obd_long_name m @
     obd_isin m @
     put8 (obd_financial_product m) @
     obd_trading_currency m @
     put16 (obd_num_decimals_in_price m) @
     put16 (obd_num_decimals_in_nominal_price m) @
     put32 (obd_odd_lot_size m) @
     put32 (obd_round_lot_size m) @
     put32 (obd_block_lot_size m) @
     put64 (obd_nominal_value m) @
     put8 (obd_num_legs m) @
     put32 (obd_underlying_orderbook_id m) @
     put32 (obd_strike_price m) @
     put32 (obd_expiration_date m) @
     put16 (obd_num_decimals_in_strike_price m) @
     put8 (obd_put_or_call m)"

definition get_itch_OrderBookDirectory :: "byte list \<Rightarrow> itch_OrderBookDirectory" where [layout]:
  "get_itch_OrderBookDirectory bs =
     \<lparr>obd_type = get8 bs,
      obd_nanoseconds = get32 (drop TIMESTAMP_NANOSECONDS_OFFSET bs),
      obd_orderbook_id = get32 (drop ORDERBOOK_DIRECTORY_MSG_ORDERBOOK_ID_OFFSET bs),
      obd_symbol = take SYMBOL_LENGTH (drop ORDERBOOK_DIRECTORY_MSG_SYMBOL_OFFSET bs),
      obd_long_name = take LONG_NAME_LENGTH (drop ORDERBOOK_DIRECTORY_MSG_LONG_NAME_OFFSET bs),
      obd_isin = take ISIN_LENGTH (drop ORDERBOOK_DIRECTORY_MSG_ISIN_OFFSET bs),
      obd_financial_product = get8 (drop ORDERBOOK_DIRECTORY_MSG_FINANCIAL_PRODUCT_OFFSET bs),
      obd_trading_currency = take TRADING_CURRENCY_LENGTH (drop ORDERBOOK_DIRECTORY_MSG_TRADING_CURRENCY_OFFSET bs),
      obd_num_decimals_in_price = get16 (drop ORDERBOOK_DIRECTORY_MSG_NUM_DECIMALS_IN_PRICE_OFFSET bs),
      obd_num_decimals_in_nominal_price = get16 (drop ORDERBOOK_DIRECTORY_MSG_NUM_DECIMALS_IN_NOMINAL_VAL_OFFSET bs),
      obd_odd_lot_size = get32 (drop ORDERBOOK_DIRECTORY_MSG_ODD_LOT_SIZE_OFFSET bs),
      obd_round_lot_size = get32 (drop ORDERBOOK_DIRECTORY_MSG_ROUND_LOT_SIZE_OFFSET bs),
      obd_block_lot_size = get32 (drop ORDERBOOK_DIRECTORY_MSG_BLOCK_LOT_SIZE_OFFSET bs),
      obd_nominal_value = get64 (drop ORDERBOOK_DIRECTORY_MSG_NOMINAL_VAL_OFFSET bs),
      obd_num_legs = get8 (drop ORDERBOOK_DIRECTORY_MSG_NUM_OF_LEGS_OFFSET bs),
      obd_underlying_orderbook_id = get32 (drop ORDERBOOK_DIRECTORY_MSG_UNDERLYING_ORDERBOOK_ID_OFFSET bs),
      obd_strike_price = get32 (drop ORDERBOOK_DIRECTORY_MSG_STRIKE_PRICE_OFFSET bs),
      obd_expiration_date = get32 (drop ORDERBOOK_DIRECTORY_MSG_EXPIRATION_DATE_OFFSET bs),
      obd_num_decimals_in_strike_price = get16 (drop ORDERBOOK_DIRECTORY_MSG_NUM_OF_DECIMALS_IN_STRIKE_PRICE_OFFSET bs),
      obd_put_or_call = get8 (drop ORDERBOOK_DIRECTORY_MSG_PUT_OR_CALL_OFFSET bs)\<rparr>"

interpretation itch_OrderBookDirectory: wire_codec
  ORDERBOOK_DIRECTORY_MSG_SIZE valid_itch_OrderBookDirectory put_itch_OrderBookDirectory get_itch_OrderBookDirectory
  by unfold_locales (simp_all add: layout wire)

subsection \<open>\<^verbatim>\<open>itch_combination_orderbook_leg.hpp\<close>\<close>

definition COMBO_ORDERBOOK_LEG_MSG_COMBO_ORDERBOOK_ID_OFFSET :: nat where [layout]:
  "COMBO_ORDERBOOK_LEG_MSG_COMBO_ORDERBOOK_ID_OFFSET = TIMESTAMP_NANOSECONDS_OFFSET + sizeof_TimestampNanoseconds"
definition COMBO_ORDERBOOK_LEG_MSG_LEG_ORDERBOOK_ID_OFFSET :: nat where [layout]:
  "COMBO_ORDERBOOK_LEG_MSG_LEG_ORDERBOOK_ID_OFFSET = COMBO_ORDERBOOK_LEG_MSG_COMBO_ORDERBOOK_ID_OFFSET + sizeof_OrderbookId"
definition COMBO_ORDERBOOK_LEG_MSG_LEG_SIDE_OFFSET :: nat where [layout]:
  "COMBO_ORDERBOOK_LEG_MSG_LEG_SIDE_OFFSET = COMBO_ORDERBOOK_LEG_MSG_LEG_ORDERBOOK_ID_OFFSET + sizeof_OrderbookId"
definition COMBO_ORDERBOOK_LEG_MSG_LEG_RATIO_OFFSET :: nat where [layout]:
  "COMBO_ORDERBOOK_LEG_MSG_LEG_RATIO_OFFSET = COMBO_ORDERBOOK_LEG_MSG_LEG_SIDE_OFFSET + sizeof_Side"
definition COMBO_ORDERBOOK_LEG_MSG_SIZE :: nat where [layout]:
  "COMBO_ORDERBOOK_LEG_MSG_SIZE = COMBO_ORDERBOOK_LEG_MSG_LEG_RATIO_OFFSET + sizeof_LegRatio"

record itch_CombinationOrderbookLeg =
  col_type :: byte
  col_nanoseconds :: u32
  col_combination_orderbook_id :: u32
  col_leg_orderbook_id :: u32
  col_leg_side :: byte
  col_leg_ratio :: u32

definition valid_itch_CombinationOrderbookLeg :: "itch_CombinationOrderbookLeg \<Rightarrow> bool" where [layout]:
  "valid_itch_CombinationOrderbookLeg m \<longleftrightarrow> True"

definition put_itch_CombinationOrderbookLeg :: "itch_CombinationOrderbookLeg \<Rightarrow> byte list" where [layout]:
  "put_itch_CombinationOrderbookLeg m =
     put8 (col_type m) @
     put32 (col_nanoseconds m) @
     put32 (col_combination_orderbook_id m) @
     put32 (col_leg_orderbook_id m) @
     put8 (col_leg_side m) @
     put32 (col_leg_ratio m)"

definition get_itch_CombinationOrderbookLeg :: "byte list \<Rightarrow> itch_CombinationOrderbookLeg" where [layout]:
  "get_itch_CombinationOrderbookLeg bs =
     \<lparr>col_type = get8 bs,
      col_nanoseconds = get32 (drop TIMESTAMP_NANOSECONDS_OFFSET bs),
      col_combination_orderbook_id = get32 (drop COMBO_ORDERBOOK_LEG_MSG_COMBO_ORDERBOOK_ID_OFFSET bs),
      col_leg_orderbook_id = get32 (drop COMBO_ORDERBOOK_LEG_MSG_LEG_ORDERBOOK_ID_OFFSET bs),
      col_leg_side = get8 (drop COMBO_ORDERBOOK_LEG_MSG_LEG_SIDE_OFFSET bs),
      col_leg_ratio = get32 (drop COMBO_ORDERBOOK_LEG_MSG_LEG_RATIO_OFFSET bs)\<rparr>"

interpretation itch_CombinationOrderbookLeg: wire_codec
  COMBO_ORDERBOOK_LEG_MSG_SIZE valid_itch_CombinationOrderbookLeg put_itch_CombinationOrderbookLeg get_itch_CombinationOrderbookLeg
  by unfold_locales (simp_all add: layout wire)

subsection \<open>\<^verbatim>\<open>itch_tick_size_table_entry.hpp\<close>\<close>

definition TICK_SIZE_MSG_ORDERBOOK_ID_OFFSET :: nat where [layout]:
  "TICK_SIZE_MSG_ORDERBOOK_ID_OFFSET = TIMESTAMP_NANOSECONDS_OFFSET + sizeof_TimestampNanoseconds"
definition TICK_SIZE_MSG_TICK_SIZE_OFFSET :: nat where [layout]:
  "TICK_SIZE_MSG_TICK_SIZE_OFFSET = TICK_SIZE_MSG_ORDERBOOK_ID_OFFSET + sizeof_OrderbookId"
definition TICK_SIZE_MSG_PRICE_FROM_OFFSET :: nat where [layout]:
  "TICK_SIZE_MSG_PRICE_FROM_OFFSET = TICK_SIZE_MSG_TICK_SIZE_OFFSET + sizeof_TickSize"
definition TICK_SIZE_MSG_PRICE_TO_OFFSET :: nat where [layout]:
  "TICK_SIZE_MSG_PRICE_TO_OFFSET = TICK_SIZE_MSG_PRICE_FROM_OFFSET + sizeof_Price"
definition TICK_SIZE_MSG_SIZE :: nat where [layout]:
  "TICK_SIZE_MSG_SIZE = TICK_SIZE_MSG_PRICE_TO_OFFSET + sizeof_Price"

record itch_TickSizeTableEntry =
  tst_type :: byte
  tst_nanoseconds :: u32
  tst_orderbook_id :: u32
  tst_tick_size :: u64
  tst_price_from :: u32
  tst_price_to :: u32

definition valid_itch_TickSizeTableEntry :: "itch_TickSizeTableEntry \<Rightarrow> bool" where [layout]:
  "valid_itch_TickSizeTableEntry m \<longleftrightarrow> True"

definition put_itch_TickSizeTableEntry :: "itch_TickSizeTableEntry \<Rightarrow> byte list" where [layout]:
  "put_itch_TickSizeTableEntry m =
     put8 (tst_type m) @
     put32 (tst_nanoseconds m) @
     put32 (tst_orderbook_id m) @
     put64 (tst_tick_size m) @
     put32 (tst_price_from m) @
     put32 (tst_price_to m)"

definition get_itch_TickSizeTableEntry :: "byte list \<Rightarrow> itch_TickSizeTableEntry" where [layout]:
  "get_itch_TickSizeTableEntry bs =
     \<lparr>tst_type = get8 bs,
      tst_nanoseconds = get32 (drop TIMESTAMP_NANOSECONDS_OFFSET bs),
      tst_orderbook_id = get32 (drop TICK_SIZE_MSG_ORDERBOOK_ID_OFFSET bs),
      tst_tick_size = get64 (drop TICK_SIZE_MSG_TICK_SIZE_OFFSET bs),
      tst_price_from = get32 (drop TICK_SIZE_MSG_PRICE_FROM_OFFSET bs),
      tst_price_to = get32 (drop TICK_SIZE_MSG_PRICE_TO_OFFSET bs)\<rparr>"

interpretation itch_TickSizeTableEntry: wire_codec
  TICK_SIZE_MSG_SIZE valid_itch_TickSizeTableEntry put_itch_TickSizeTableEntry get_itch_TickSizeTableEntry
  by unfold_locales (simp_all add: layout wire)

subsection \<open>\<^verbatim>\<open>itch_short_sell_status.hpp\<close>\<close>

definition SHORT_SELL_MSG_ORDERBOOK_ID_OFFSET :: nat where [layout]:
  "SHORT_SELL_MSG_ORDERBOOK_ID_OFFSET = TIMESTAMP_NANOSECONDS_OFFSET + sizeof_TimestampNanoseconds"
definition SHORT_SELL_MSG_RESTRICTION_OFFSET :: nat where [layout]:
  "SHORT_SELL_MSG_RESTRICTION_OFFSET = SHORT_SELL_MSG_ORDERBOOK_ID_OFFSET + sizeof_OrderbookId"
definition SHORT_SELL_MSG_VALIDATION_OFFSET :: nat where [layout]:
  "SHORT_SELL_MSG_VALIDATION_OFFSET = SHORT_SELL_MSG_RESTRICTION_OFFSET + 1"
definition SHORT_SELL_MSG_SIZE :: nat where [layout]:
  "SHORT_SELL_MSG_SIZE = SHORT_SELL_MSG_VALIDATION_OFFSET + 1"

record itch_ShortSellStatus =
  sss_type :: byte
  sss_nanoseconds :: u32
  sss_orderbook_id :: u32
  sss_short_sell_restriction :: byte
  sss_short_sell_validation :: byte

definition valid_itch_ShortSellStatus :: "itch_ShortSellStatus \<Rightarrow> bool" where [layout]:
  "valid_itch_ShortSellStatus m \<longleftrightarrow> True"

definition put_itch_ShortSellStatus :: "itch_ShortSellStatus \<Rightarrow> byte list" where [layout]:
  "put_itch_ShortSellStatus m =
     put8 (sss_type m) @
     put32 (sss_nanoseconds m) @
     put32 (sss_orderbook_id m) @
     put8 (sss_short_sell_restriction m) @
     put8 (sss_short_sell_validation m)"

definition get_itch_ShortSellStatus :: "byte list \<Rightarrow> itch_ShortSellStatus" where [layout]:
  "get_itch_ShortSellStatus bs =
     \<lparr>sss_type = get8 bs,
      sss_nanoseconds = get32 (drop TIMESTAMP_NANOSECONDS_OFFSET bs),
      sss_orderbook_id = get32 (drop SHORT_SELL_MSG_ORDERBOOK_ID_OFFSET bs),
      sss_short_sell_restriction = get8 (drop SHORT_SELL_MSG_RESTRICTION_OFFSET bs),
      sss_short_sell_validation = get8 (drop SHORT_SELL_MSG_VALIDATION_OFFSET bs)\<rparr>"

interpretation itch_ShortSellStatus: wire_codec
  SHORT_SELL_MSG_SIZE valid_itch_ShortSellStatus put_itch_ShortSellStatus get_itch_ShortSellStatus
  by unfold_locales (simp_all add: layout wire)

subsection \<open>\<^verbatim>\<open>itch_system_event.hpp\<close>\<close>

definition SYSTEM_EVENT_MSG_EVENT_CODE_OFFSET :: nat where [layout]:
  "SYSTEM_EVENT_MSG_EVENT_CODE_OFFSET = TIMESTAMP_NANOSECONDS_OFFSET + sizeof_TimestampNanoseconds"
definition SYSTEM_EVENT_MSG_SIZE :: nat where [layout]:
  "SYSTEM_EVENT_MSG_SIZE = SYSTEM_EVENT_MSG_EVENT_CODE_OFFSET + sizeof_EventCode"

record itch_SystemEvent =
  se_type :: byte
  se_nanoseconds :: u32
  se_event_code :: byte

definition valid_itch_SystemEvent :: "itch_SystemEvent \<Rightarrow> bool" where [layout]:
  "valid_itch_SystemEvent m \<longleftrightarrow> True"

definition put_itch_SystemEvent :: "itch_SystemEvent \<Rightarrow> byte list" where [layout]:
  "put_itch_SystemEvent m =
     put8 (se_type m) @
     put32 (se_nanoseconds m) @
     put8 (se_event_code m)"

definition get_itch_SystemEvent :: "byte list \<Rightarrow> itch_SystemEvent" where [layout]:
  "get_itch_SystemEvent bs =
     \<lparr>se_type = get8 bs,
      se_nanoseconds = get32 (drop TIMESTAMP_NANOSECONDS_OFFSET bs),
      se_event_code = get8 (drop SYSTEM_EVENT_MSG_EVENT_CODE_OFFSET bs)\<rparr>"

interpretation itch_SystemEvent: wire_codec
  SYSTEM_EVENT_MSG_SIZE valid_itch_SystemEvent put_itch_SystemEvent get_itch_SystemEvent
  by unfold_locales (simp_all add: layout wire)

subsection \<open>\<^verbatim>\<open>itch_orderbook_state.hpp\<close>\<close>

definition ORDERBOOK_STATE_MSG_ORDERBOOK_ID_OFFSET :: nat where [layout]:
  "ORDERBOOK_STATE_MSG_ORDERBOOK_ID_OFFSET = TIMESTAMP_NANOSECONDS_OFFSET + sizeof_TimestampNanoseconds"
definition ORDERBOOK_STATE_MSG_STATE_NAME_OFFSET :: nat where [layout]:
  "ORDERBOOK_STATE_MSG_STATE_NAME_OFFSET = ORDERBOOK_STATE_MSG_ORDERBOOK_ID_OFFSET + sizeof_OrderbookId"
definition STATE_NAME_LENGTH :: nat where [layout]:
  "STATE_NAME_LENGTH = 20"
definition ORDERBOOK_STATE_MSG_SIZE :: nat where [layout]:
  "ORDERBOOK_STATE_MSG_SIZE = ORDERBOOK_STATE_MSG_STATE_NAME_OFFSET + STATE_NAME_LENGTH"

record itch_OrderBookState =
  obs_type :: byte
  obs_nanoseconds :: u32
  obs_orderbook_id :: u32
  obs_state_name :: "byte list"

definition valid_itch_OrderBookState :: "itch_OrderBookState \<Rightarrow> bool" where [layout]:
  "valid_itch_OrderBookState m \<longleftrightarrow>
     length (obs_state_name m) = STATE_NAME_LENGTH"

definition put_itch_OrderBookState :: "itch_OrderBookState \<Rightarrow> byte list" where [layout]:
  "put_itch_OrderBookState m =
     put8 (obs_type m) @
     put32 (obs_nanoseconds m) @
     put32 (obs_orderbook_id m) @
     obs_state_name m"

definition get_itch_OrderBookState :: "byte list \<Rightarrow> itch_OrderBookState" where [layout]:
  "get_itch_OrderBookState bs =
     \<lparr>obs_type = get8 bs,
      obs_nanoseconds = get32 (drop TIMESTAMP_NANOSECONDS_OFFSET bs),
      obs_orderbook_id = get32 (drop ORDERBOOK_STATE_MSG_ORDERBOOK_ID_OFFSET bs),
      obs_state_name = take STATE_NAME_LENGTH (drop ORDERBOOK_STATE_MSG_STATE_NAME_OFFSET bs)\<rparr>"

interpretation itch_OrderBookState: wire_codec
  ORDERBOOK_STATE_MSG_SIZE valid_itch_OrderBookState put_itch_OrderBookState get_itch_OrderBookState
  by unfold_locales (simp_all add: layout wire)

end
