(* ===== verification/Orderbook_Builder.thy ===== *)
theory Orderbook_Builder
  imports L2_Orderbook Itch_Messages
begin

text \<open>
  \<^verbatim>\<open>src/lib/core/orderbook_builder.hpp\<close>: the builder keeps every live order by its
  \<open>(order book, order id, side)\<close> and one \<open>L2Orderbook\<close> per instrument.  The main result is that, on
  a feed in which orders are announced once and never over-executed, every level of every book is
  the sum of the live orders at its price, and no message makes the builder fault.
\<close>

section \<open>State and handlers\<close>

record ItchOrder =
  io_id :: u64
  io_price :: i32
  io_left_qty :: u64
  io_side :: byte
  io_orderbook_id :: u32

type_synonym order_key = "u32 \<times> u64 \<times> byte"

record OrderbookBuilder =
  m_orderbookMap :: "u32 \<Rightarrow> L2Orderbook option"
  m_orderMap :: "order_key \<Rightarrow> ItchOrder option"

definition empty_builder :: OrderbookBuilder where
  "empty_builder = \<lparr>m_orderbookMap = Map.empty, m_orderMap = Map.empty\<rparr>"

text \<open>\<^verbatim>\<open>m_orderbookMap[orderbook_id]\<close> default-constructs a missing book.\<close>

definition book_at :: "OrderbookBuilder \<Rightarrow> u32 \<Rightarrow> L2Orderbook" where
  "book_at b orderbook_id =
     (case m_orderbookMap b orderbook_id of None \<Rightarrow> empty_L2 | Some book \<Rightarrow> book)"

definition addOrder :: "OrderbookBuilder \<Rightarrow> itch_AddOrder \<Rightarrow> OrderbookBuilder result" where
  "addOrder b order_add =
     (let order_id = be64toh (ao_order_id order_add);
          orderbook_id = be32toh (ao_orderbook_id order_add);
          price = sint (be32toh (ao_price order_add));
          qty = be64toh (ao_quantity order_add);
          side = ao_side order_add;
          order = \<lparr>io_id = order_id, io_price = price, io_left_qty = qty, io_side = side,
                   io_orderbook_id = orderbook_id\<rparr>
      in Inr (b\<lparr>m_orderMap := (m_orderMap b)((orderbook_id, order_id, side) \<mapsto> order),
                m_orderbookMap := (m_orderbookMap b)
                  (orderbook_id \<mapsto> AddOrder (book_at b orderbook_id) side price qty)\<rparr>))"

definition executeOrder :: "OrderbookBuilder \<Rightarrow> itch_OrderExecuted \<Rightarrow> OrderbookBuilder result" where
  "executeOrder b order_executed =
     (let order_id = be64toh (oe_order_id order_executed);
          orderbook_id = be32toh (oe_orderbook_id order_executed);
          side = oe_side order_executed;
          executed_qty = be64toh (oe_quantity order_executed)
      in case m_orderMap b (orderbook_id, order_id, side) of
           None \<Rightarrow> Inr b
         | Some order \<Rightarrow>
             res_bind (ExecuteOrder (book_at b orderbook_id) side (io_price order) executed_qty)
               (\<lambda>book.
                 let left_qty = io_left_qty order - executed_qty
                 in Inr (b\<lparr>m_orderbookMap := (m_orderbookMap b)(orderbook_id \<mapsto> book),
                           m_orderMap := (m_orderMap b)((orderbook_id, order_id, side) :=
                             (if left_qty = 0 then None
                              else Some (order\<lparr>io_left_qty := left_qty\<rparr>)))\<rparr>)))"

definition deleteOrder :: "OrderbookBuilder \<Rightarrow> itch_OrderDelete \<Rightarrow> OrderbookBuilder result" where
  "deleteOrder b order_delete =
     (let order_id = be64toh (od_order_id order_delete);
          orderbook_id = be32toh (od_orderbook_id order_delete);
          side = od_side order_delete
      in case m_orderMap b (orderbook_id, order_id, side) of
           None \<Rightarrow> Inr b
         | Some order \<Rightarrow>
             res_bind (DeleteOrder (book_at b orderbook_id) side (io_price order) (io_left_qty order))
               (\<lambda>book. Inr (b\<lparr>m_orderbookMap := (m_orderbookMap b)(orderbook_id \<mapsto> book),
                              m_orderMap := (m_orderMap b)
                                ((orderbook_id, order_id, side) := None)\<rparr>)))"

text \<open>The accessors; \<^verbatim>\<open>std::map::at\<close> throws on a missing key.\<close>

definition hasOrder :: "OrderbookBuilder \<Rightarrow> u32 \<Rightarrow> u64 \<Rightarrow> byte \<Rightarrow> bool" where
  "hasOrder b orderbook_id order_id side \<longleftrightarrow> m_orderMap b (orderbook_id, order_id, side) \<noteq> None"

definition getOrder :: "OrderbookBuilder \<Rightarrow> u32 \<Rightarrow> u64 \<Rightarrow> byte \<Rightarrow> ItchOrder result" where
  "getOrder b orderbook_id order_id side =
     (case m_orderMap b (orderbook_id, order_id, side) of
        None \<Rightarrow> Inl (Thrown ''out_of_range'') | Some order \<Rightarrow> Inr order)"

definition getOrderbook :: "OrderbookBuilder \<Rightarrow> u32 \<Rightarrow> L2Orderbook result" where
  "getOrderbook b orderbook_id =
     (case m_orderbookMap b orderbook_id of
        None \<Rightarrow> Inl (Thrown ''out_of_range'') | Some book \<Rightarrow> Inr book)"

section \<open>Feeds\<close>

text \<open>The three messages a builder reacts to, and the keys they refer to.\<close>

datatype itch_event =
    Add itch_AddOrder
  | Execute itch_OrderExecuted
  | Delete itch_OrderDelete

fun builder_step :: "OrderbookBuilder \<Rightarrow> itch_event \<Rightarrow> OrderbookBuilder result" where
  "builder_step b (Add m) = addOrder b m"
| "builder_step b (Execute m) = executeOrder b m"
| "builder_step b (Delete m) = deleteOrder b m"

definition add_key :: "itch_AddOrder \<Rightarrow> order_key" where
  "add_key m = (be32toh (ao_orderbook_id m), be64toh (ao_order_id m), ao_side m)"

definition exec_key :: "itch_OrderExecuted \<Rightarrow> order_key" where
  "exec_key m = (be32toh (oe_orderbook_id m), be64toh (oe_order_id m), oe_side m)"

definition delete_key :: "itch_OrderDelete \<Rightarrow> order_key" where
  "delete_key m = (be32toh (od_orderbook_id m), be64toh (od_order_id m), od_side m)"

text \<open>The live orders of one book, as resting orders keyed by id and side character.\<close>

definition resting_in :: "OrderbookBuilder \<Rightarrow> u32 \<Rightarrow> u64 \<times> byte \<Rightarrow> resting option" where
  "resting_in b orderbook_id = (\<lambda>(order_id, side).
     map_option (\<lambda>order. (is_buy side, io_price order, io_left_qty order))
       (m_orderMap b (orderbook_id, order_id, side)))"

text \<open>
  What the builder relies on the exchange for: an order is added once, with a positive quantity
  that the level can hold, and an execution takes no more than what is left.  Executions and
  deletions of unknown orders are allowed.
\<close>

fun feed_ok :: "OrderbookBuilder \<Rightarrow> itch_event \<Rightarrow> bool" where
  "feed_ok b (Add m) \<longleftrightarrow>
     m_orderMap b (add_key m) = None \<and> be64toh (ao_quantity m) \<noteq> 0 \<and>
     level_total (resting_in b (be32toh (ao_orderbook_id m))) (is_buy (ao_side m))
       (sint (be32toh (ao_price m))) + unat (be64toh (ao_quantity m)) < 2 ^ 64"
| "feed_ok b (Execute m) \<longleftrightarrow>
     (case m_orderMap b (exec_key m) of
        None \<Rightarrow> True | Some order \<Rightarrow> be64toh (oe_quantity m) \<le> io_left_qty order)"
| "feed_ok b (Delete m) \<longleftrightarrow> True"

inductive feed :: "OrderbookBuilder \<Rightarrow> itch_event list \<Rightarrow> OrderbookBuilder \<Rightarrow> bool" where
  feed_start: "feed b [] b"
| feed_event: "feed_ok b e \<Longrightarrow> builder_step b e = Inr b' \<Longrightarrow> feed b' es b'' \<Longrightarrow> feed b (e # es) b''"

inductive_cases feed_NilE: "feed b [] b'"
inductive_cases feed_ConsE: "feed b (e # es) b'"

definition builder_ok :: "OrderbookBuilder \<Rightarrow> bool" where
  "builder_ok b \<longleftrightarrow>
     (\<forall>k order. m_orderMap b k = Some order \<longrightarrow>
        k = (io_orderbook_id order, io_id order, io_side order)) \<and>
     (\<forall>ob. book_ok (book_at b ob) \<and> represents (book_depth (book_at b ob)) (resting_in b ob))"

section \<open>Preservation\<close>

lemma builder_ok_empty: "builder_ok empty_builder"
  by (simp add: builder_ok_def empty_builder_def book_at_def l2.inv_empty l2.depth_empty
      resting_in_def case_prod_beta' represents_def)

text \<open>A handler changes one order and the book it belongs to.\<close>

lemma builder_ok_upd:
  assumes ok: "builder_ok b"
    and book: "book_ok book" "represents (book_depth book) ((resting_in b ob)((oid, side) :=
      map_option (\<lambda>order. (is_buy side, io_price order, io_left_qty order)) e))"
    and e: "\<And>order. e = Some order \<Longrightarrow>
      io_orderbook_id order = ob \<and> io_id order = oid \<and> io_side order = side"
  shows "builder_ok (b\<lparr>m_orderbookMap := (m_orderbookMap b)(ob \<mapsto> book),
      m_orderMap := (m_orderMap b)((ob, oid, side) := e)\<rparr>)"
    (is "builder_ok ?b")
proof -
  have here: "book_at ?b ob = book" "resting_in ?b ob = (resting_in b ob)((oid, side) :=
      map_option (\<lambda>order. (is_buy side, io_price order, io_left_qty order)) e)"
    by (auto simp: book_at_def resting_in_def fun_eq_iff)
  have there: "book_at ?b ob' = book_at b ob'" "resting_in ?b ob' = resting_in b ob'"
    if "ob' \<noteq> ob" for ob'
    using that by (auto simp: book_at_def resting_in_def fun_eq_iff)
  have books: "book_ok (book_at ?b ob') \<and>
      represents (book_depth (book_at ?b ob')) (resting_in ?b ob')" for ob'
  proof (cases "ob' = ob")
    case True
    then show ?thesis using book by (simp only: here)
  next
    case False
    show ?thesis unfolding there [OF False] using ok by (simp add: builder_ok_def)
  qed
  have keys: "k = (io_orderbook_id order, io_id order, io_side order)"
    if "m_orderMap ?b k = Some order" for k order
    using that e ok by (cases k; cases "k = (ob, oid, side)") (auto simp: builder_ok_def)
  show ?thesis using books keys unfolding builder_ok_def by blast
qed

lemma map_update_commute:
  "b\<lparr>m_orderMap := x, m_orderbookMap := y\<rparr> = b\<lparr>m_orderbookMap := y, m_orderMap := x\<rparr>"
  by simp

lemma resting_lookup:
  "m_orderMap b (ob, oid, side) = Some order \<Longrightarrow>
   resting_in b ob (oid, side) = Some (is_buy side, io_price order, io_left_qty order)"
  by (simp add: resting_in_def)

lemma book_of: "builder_ok b \<Longrightarrow> book_ok (book_at b ob)"
  and book_rep: "builder_ok b \<Longrightarrow> represents (book_depth (book_at b ob)) (resting_in b ob)"
  by (simp_all add: builder_ok_def)

lemma addOrder_ok:
  assumes ok: "builder_ok b" and good: "feed_ok b (Add m)"
  shows "\<exists>b'. addOrder b m = Inr b' \<and> builder_ok b'"
proof -
  let ?ob = "be32toh (ao_orderbook_id m)" and ?oid = "be64toh (ao_order_id m)"
    and ?q = "be64toh (ao_quantity m)" and ?p = "sint (be32toh (ao_price m))" and ?s = "ao_side m"
  have fresh: "resting_in b ?ob (?oid, ?s) = None"
    using good by (simp add: resting_in_def add_key_def)
  have "represents (book_depth (AddOrder (book_at b ?ob) ?s ?p ?q))
      ((resting_in b ?ob)((?oid, ?s) \<mapsto> (is_buy ?s, ?p, ?q)))"
    using good by (intro l2.add_represents book_of book_rep ok fresh) auto
  then have "builder_ok (b\<lparr>
      m_orderbookMap := (m_orderbookMap b)(?ob \<mapsto> AddOrder (book_at b ?ob) ?s ?p ?q),
      m_orderMap := (m_orderMap b)((?ob, ?oid, ?s) := Some \<lparr>io_id = ?oid, io_price = ?p,
        io_left_qty = ?q, io_side = ?s, io_orderbook_id = ?ob\<rparr>)\<rparr>)"
    by (intro builder_ok_upd ok l2.inv_add book_of) auto
  then show ?thesis by (simp add: addOrder_def Let_def map_update_commute)
qed

lemma executeOrder_ok:
  assumes ok: "builder_ok b" and good: "feed_ok b (Execute m)"
  shows "\<exists>b'. executeOrder b m = Inr b' \<and> builder_ok b'"
proof (cases "m_orderMap b (exec_key m)")
  case None
  then show ?thesis using ok by (simp add: executeOrder_def exec_key_def)
next
  case (Some order)
  let ?ob = "be32toh (oe_orderbook_id m)" and ?oid = "be64toh (oe_order_id m)"
    and ?x = "be64toh (oe_quantity m)" and ?s = "oe_side m"
  have found: "m_orderMap b (?ob, ?oid, ?s) = Some order" using Some by (simp add: exec_key_def)
  have le: "?x \<le> io_left_qty order" using good Some by simp
  obtain book where book: "ExecuteOrder (book_at b ?ob) ?s (io_price order) ?x = Inr book"
    "book_ok book" "represents (book_depth book) ((resting_in b ?ob)((?oid, ?s) :=
      (if ?x = io_left_qty order then None
       else Some (is_buy ?s, io_price order, io_left_qty order - ?x))))"
    using l2.execute_represents [OF book_of [OF ok] book_rep [OF ok] resting_lookup [OF found] le]
    by blast
  define e where "e = (if io_left_qty order - ?x = 0 then None
    else Some (order\<lparr>io_left_qty := io_left_qty order - ?x\<rparr>))"
  have "map_option (\<lambda>order. (is_buy ?s, io_price order, io_left_qty order)) e =
      (if ?x = io_left_qty order then None
       else Some (is_buy ?s, io_price order, io_left_qty order - ?x))"
    by (auto simp: e_def)
  moreover have "io_orderbook_id order' = ?ob \<and> io_id order' = ?oid \<and> io_side order' = ?s"
    if "e = Some order'" for order'
    using that ok found by (auto simp: e_def builder_ok_def split: if_splits)
  ultimately show ?thesis
    using builder_ok_upd [OF ok book(2), where e = e and ob = ?ob and oid = ?oid and side = ?s]
      found book by (simp add: executeOrder_def e_def Let_def)
qed

lemma deleteOrder_ok:
  assumes ok: "builder_ok b"
  shows "\<exists>b'. deleteOrder b m = Inr b' \<and> builder_ok b'"
proof (cases "m_orderMap b (delete_key m)")
  case None
  then show ?thesis using ok by (simp add: deleteOrder_def delete_key_def)
next
  case (Some order)
  let ?ob = "be32toh (od_orderbook_id m)" and ?oid = "be64toh (od_order_id m)" and ?s = "od_side m"
  have found: "m_orderMap b (?ob, ?oid, ?s) = Some order" using Some by (simp add: delete_key_def)
  obtain book where
    "DeleteOrder (book_at b ?ob) ?s (io_price order) (io_left_qty order) = Inr book"
    "book_ok book" "represents (book_depth book) ((resting_in b ?ob)((?oid, ?s) := None))"
    using l2.delete_represents [OF book_of [OF ok] book_rep [OF ok] resting_lookup [OF found]]
    by blast
  then show ?thesis
    using builder_ok_upd [OF ok, where e = None and ob = ?ob and oid = ?oid and side = ?s]
      found by (simp add: deleteOrder_def Let_def)
qed

lemma builder_step_ok:
  "builder_ok b \<Longrightarrow> feed_ok b e \<Longrightarrow> \<exists>b'. builder_step b e = Inr b' \<and> builder_ok b'"
  using addOrder_ok executeOrder_ok deleteOrder_ok by (cases e) auto

lemma feed_builder_ok: "feed b es b' \<Longrightarrow> builder_ok b \<Longrightarrow> builder_ok b'"
proof (induction rule: feed.induct)
  case (feed_event b e b' es b'')
  then show ?case using builder_step_ok [of b e] by auto
qed simp

lemma feed_res_fold: "feed b es b' \<Longrightarrow> res_fold builder_step b es = Inr b'"
  by (induction rule: feed.induct) auto

section \<open>The live orders as a machine of their own\<close>

text \<open>
  Forgetting the books leaves the order map: what each message does to the individual orders,
  whatever the books do.
\<close>

fun orders_step :: "(order_key \<Rightarrow> ItchOrder option) \<Rightarrow> itch_event \<Rightarrow> order_key \<Rightarrow> ItchOrder option" where
  "orders_step om (Add m) = om(add_key m \<mapsto>
     \<lparr>io_id = be64toh (ao_order_id m), io_price = sint (be32toh (ao_price m)),
      io_left_qty = be64toh (ao_quantity m), io_side = ao_side m,
      io_orderbook_id = be32toh (ao_orderbook_id m)\<rparr>)"
| "orders_step om (Execute m) =
     (case om (exec_key m) of
        None \<Rightarrow> om
      | Some order \<Rightarrow> om(exec_key m :=
          (if io_left_qty order = be64toh (oe_quantity m) then None
           else Some (order\<lparr>io_left_qty := io_left_qty order - be64toh (oe_quantity m)\<rparr>))))"
| "orders_step om (Delete m) = om(delete_key m := None)"

lemma builder_step_orders:
  "builder_step b e = Inr b' \<Longrightarrow> m_orderMap b' = orders_step (m_orderMap b) e"
  by (cases e)
    (auto simp: addOrder_def executeOrder_def deleteOrder_def add_key_def exec_key_def
      delete_key_def Let_def res_bind_Inr_iff fun_eq_iff split: option.splits)

lemma feed_orders: "feed b es b' \<Longrightarrow> m_orderMap b' = fold (\<lambda>e om. orders_step om e) es (m_orderMap b)"
  by (induction rule: feed.induct) (auto dest: builder_step_orders)

section \<open>Reading the books off the orders\<close>

definition live_prices :: "OrderbookBuilder \<Rightarrow> u32 \<Rightarrow> bool \<Rightarrow> i32 set" where
  "live_prices b ob buy =
     {io_price order |order oid side. m_orderMap b (ob, oid, side) = Some order \<and> is_buy side = buy}"

lemma live_prices_depth:
  "builder_ok b \<Longrightarrow> dom (book_depth (book_at b ob) buy) = live_prices b ob buy"
  using represents_dom [OF book_rep, of b ob buy] by (force simp: live_prices_def resting_in_def)

lemma live_prices_sides:
  assumes "builder_ok b"
  shows "live_prices b ob True = {} \<longleftrightarrow> m_bids (book_at b ob) = []"
    and "live_prices b ob False = {} \<longleftrightarrow> m_asks (book_at b ob) = []"
  unfolding live_prices_depth [OF assms, symmetric] book_depth_def by simp_all

lemma feed_total:
  assumes "feed empty_builder es b"
  shows "represents (book_depth (book_at b ob)) (resting_in b ob)" and "book_ok (book_at b ob)"
  using feed_builder_ok [OF assms builder_ok_empty] by (auto intro: book_rep book_of)

section \<open>Messages as the exchange sends them\<close>

definition mk_add :: "u32 \<Rightarrow> u64 \<Rightarrow> byte \<Rightarrow> u32 \<Rightarrow> u64 \<Rightarrow> itch_AddOrder" where
  "mk_add ob oid side price qty =
     \<lparr>ao_type = MessageType_val MessageType_AddOrder, ao_nanoseconds = 0, ao_order_id = be64toh oid,
      ao_orderbook_id = be32toh ob, ao_side = side, ao_orderbook_position = 0,
      ao_quantity = be64toh qty, ao_price = be32toh price, ao_order_attributes = 0, ao_lot_type = 0\<rparr>"

definition mk_exec :: "u32 \<Rightarrow> u64 \<Rightarrow> byte \<Rightarrow> u64 \<Rightarrow> itch_OrderExecuted" where
  "mk_exec ob oid side qty =
     \<lparr>oe_type = MessageType_val MessageType_OrderExecuted, oe_nanoseconds = 0, oe_order_id = be64toh oid,
      oe_orderbook_id = be32toh ob, oe_side = side, oe_quantity = be64toh qty, oe_match_id = 0,
      oe_combo_group_id = 0, oe_reserved1 = replicate 7 0, oe_reserved2 = replicate 7 0\<rparr>"

definition mk_delete :: "u32 \<Rightarrow> u64 \<Rightarrow> byte \<Rightarrow> itch_OrderDelete" where
  "mk_delete ob oid side =
     \<lparr>od_type = MessageType_val MessageType_OrderDelete, od_nanoseconds = 0, od_order_id = be64toh oid,
      od_orderbook_id = be32toh ob, od_side = side\<rparr>"

lemma mk_keys [simp]:
  "add_key (mk_add ob oid side price qty) = (ob, oid, side)"
  "exec_key (mk_exec ob oid side qty) = (ob, oid, side)"
  "delete_key (mk_delete ob oid side) = (ob, oid, side)"
  by (simp_all add: add_key_def exec_key_def delete_key_def mk_add_def mk_exec_def mk_delete_def)

lemma addOrder_mk:
  "addOrder b (mk_add ob oid side price qty) =
     Inr (b\<lparr>m_orderMap := (m_orderMap b)((ob, oid, side) \<mapsto> \<lparr>io_id = oid, io_price = sint price,
              io_left_qty = qty, io_side = side, io_orderbook_id = ob\<rparr>),
            m_orderbookMap := (m_orderbookMap b)
              (ob \<mapsto> AddOrder (book_at b ob) side (sint price) qty)\<rparr>)"
  by (simp add: addOrder_def mk_add_def Let_def)

lemma book_at_upd [simp]:
  "book_at (b\<lparr>m_orderMap := om\<rparr>) ob = book_at b ob"
  "book_at (b\<lparr>m_orderbookMap := m(ob \<mapsto> book)\<rparr>) ob = book"
  by (simp_all add: book_at_def)

lemma book_at_empty [simp]: "book_at empty_builder ob = empty_L2"
  by (simp add: book_at_def empty_builder_def)

lemma single_level:
  "m_bids (AddOrder empty_L2 side price qty) = (if is_buy side then [(price, qty)] else [])"
  "m_asks (AddOrder empty_L2 side price qty) = (if is_buy side then [] else [(price, qty)])"
  by (simp_all add: AddOrder_def AddOrder_levels_def empty_L2_def is_buy_def)

lemma order_in_empty: "m_orderMap empty_builder k = None"
  by (simp add: empty_builder_def)

text \<open>A short session on book 70616: two bids, one ask, a partial execution and a deletion.\<close>

definition sample_events :: "itch_event list" where
  "sample_events =
     [Add (mk_add 70616 1 (ascii CHR ''B'') 1000 500), Add (mk_add 70616 2 (ascii CHR ''S'') 1010 200),
      Add (mk_add 70616 3 (ascii CHR ''B'') 1000 100), Execute (mk_exec 70616 1 (ascii CHR ''B'') 150),
      Delete (mk_delete 70616 3 (ascii CHR ''B''))]"

text \<open>
  On a consistent builder the condition on an addition can be read off the book, which makes a feed
  a computation.
\<close>

fun feed_check :: "OrderbookBuilder \<Rightarrow> itch_event \<Rightarrow> bool" where
  "feed_check b (Add m) \<longleftrightarrow>
     m_orderMap b (add_key m) = None \<and> be64toh (ao_quantity m) \<noteq> 0 \<and>
     (case book_depth (book_at b (be32toh (ao_orderbook_id m))) (is_buy (ao_side m))
        (sint (be32toh (ao_price m))) of None \<Rightarrow> 0 | Some x \<Rightarrow> unat x)
       + unat (be64toh (ao_quantity m)) < 2 ^ 64"
| "feed_check b (Execute m) \<longleftrightarrow>
     (case m_orderMap b (exec_key m) of
        None \<Rightarrow> True | Some order \<Rightarrow> be64toh (oe_quantity m) \<le> io_left_qty order)"
| "feed_check b (Delete m) \<longleftrightarrow> True"

lemma level_total_depth:
  assumes "builder_ok b"
  shows "(case book_depth (book_at b ob) buy p of None \<Rightarrow> 0 | Some x \<Rightarrow> unat x) =
    level_total (resting_in b ob) buy p"
proof -
  have "level_total (resting_in b ob) buy p < 2 ^ 64 \<and> book_depth (book_at b ob) buy p =
      (if level_total (resting_in b ob) buy p = 0 then None
       else Some (of_nat (level_total (resting_in b ob) buy p)))"
    using book_rep [OF assms, of ob] by (simp add: represents_def)
  then show ?thesis by (auto simp: unat_of_nat)
qed

lemma feed_check_ok: "builder_ok b \<Longrightarrow> feed_check b e \<longleftrightarrow> feed_ok b e"
  by (cases e) (simp_all add: level_total_depth)

fun checked_run :: "OrderbookBuilder \<Rightarrow> itch_event list \<Rightarrow> OrderbookBuilder option" where
  "checked_run b [] = Some b"
| "checked_run b (e # es) =
     (if feed_check b e
      then (case builder_step b e of Inl _ \<Rightarrow> None | Inr b' \<Rightarrow> checked_run b' es) else None)"

lemma checked_run_feed: "builder_ok b \<Longrightarrow> checked_run b es = Some b' \<longleftrightarrow> feed b es b'"
proof (induction es arbitrary: b)
  case (Cons e es)
  then show ?case
    using feed_check_ok [of b e] builder_step_ok [of b e]
    by (auto elim!: feed_ConsE intro: feed_event split: sum.splits)
qed (auto intro: feed_start elim: feed_NilE)

lemmas builder_eval =
  empty_builder_def book_at_def mk_add_def mk_exec_def mk_delete_def add_key_def exec_key_def
  delete_key_def addOrder_def executeOrder_def deleteOrder_def empty_L2_def AddOrder_def
  AddOrder_levels_def GetLevel_def ExecuteOrder_def ExecuteOrderImpl_def DeleteOrder_def
  DeleteOrder_levels_def book_depth_def is_buy_def ascii_def

lemma sample_run:
  "\<exists>b. checked_run empty_builder sample_events = Some b \<and>
     m_orderbookMap b = [70616 \<mapsto> \<lparr>m_bids = [(1000, 350)], m_asks = [(1010, 200)]\<rparr>] \<and>
     m_orderMap b (70616, 1, 66) = Some \<lparr>io_id = 1, io_price = 1000, io_left_qty = 350,
       io_side = 66, io_orderbook_id = 70616\<rparr> \<and>
     (\<forall>oid side. oid \<noteq> 1 \<and> oid \<noteq> 2 \<longrightarrow> m_orderMap b (70616, oid, side) = None)"
  unfolding sample_events_def by (simp add: builder_eval)

lemma sample_feed:
  "\<exists>b. feed empty_builder sample_events b \<and>
     book_at b 70616 = \<lparr>m_bids = [(1000, 350)], m_asks = [(1010, 200)]\<rparr>"
  using sample_run checked_run_feed [OF builder_ok_empty] by (auto simp: book_at_def)

section \<open>Properties\<close>

text \<open>
  C3. No message of a well-behaved feed makes the builder fault (no exit, no dereference of an end
  iterator), and the builder stays consistent: every level is the sum of the live orders.
\<close>

theorem builder_step_safe:
  assumes "builder_ok b" and "feed_ok b e"
  shows "\<exists>b'. builder_step b e = Inr b' \<and> builder_ok b'"
  using assms by (rule builder_step_ok)

theorem builder_step_safe_witness:
  "\<exists>b'. builder_step empty_builder (Add (mk_add 70616 1 66 1000 500)) = Inr b' \<and> builder_ok b'"
  by (rule builder_step_safe [OF builder_ok_empty])
    (simp add: empty_builder_def mk_add_def resting_in_def case_prod_beta')

text \<open>
  C1. After any feed from the start, the level at a price is exactly the total quantity left of the
  live orders on that side at that price, and there is no level when that total is zero.
\<close>

theorem feed_levels:
  assumes "feed empty_builder es b"
  shows "level_total (resting_in b ob) buy p < 2 ^ 64 \<and>
    book_depth (book_at b ob) buy p =
      (if level_total (resting_in b ob) buy p = 0 then None
       else Some (of_nat (level_total (resting_in b ob) buy p)))"
  using feed_total(1) [OF assms, of ob] by (simp add: represents_def)

theorem feed_levels_witness:
  "\<exists>b. feed empty_builder sample_events b \<and> level_total (resting_in b 70616) True 1000 = 350"
proof -
  obtain b where b: "feed empty_builder sample_events b"
    and book: "book_at b 70616 = \<lparr>m_bids = [(1000, 350)], m_asks = [(1010, 200)]\<rparr>"
    using sample_feed by blast
  let ?t = "level_total (resting_in b 70616) True 1000"
  have t: "?t < 2 ^ 64" "(350 :: u64) = of_nat ?t"
    using feed_levels [OF b, of 70616 True 1000] book by (auto simp: book_depth_def split: if_splits)
  have "?t = unat (350 :: u64)" unfolding t(2) using t(1) by (simp add: unat_of_nat)
  then show ?thesis using b by auto
qed

text \<open>
  C23. After any feed from the start the best prices of a book are the highest price of its live buy
  orders and the lowest price of its live sell orders.
\<close>

theorem feed_best_prices:
  assumes "feed empty_builder es b"
  shows "GetBestPrices (book_at b ob) =
    (if live_prices b ob True = {} \<or> live_prices b ob False = {} then Inl EndDereference
     else Inr (Max (live_prices b ob True), Min (live_prices b ob False)))"
proof -
  note ok = feed_builder_ok [OF assms builder_ok_empty]
  show ?thesis
    using best_bid [OF book_of [OF ok], of ob] best_ask [OF book_of [OF ok], of ob]
      live_prices_sides [OF ok, of ob]
    by (auto simp: GetBestPrices_def live_prices_depth [OF ok])
qed

theorem feed_best_prices_witness:
  "\<exists>b. feed empty_builder sample_events b \<and>
     Max (live_prices b 70616 True) = 1000 \<and> Min (live_prices b 70616 False) = 1010"
proof -
  obtain b where b: "feed empty_builder sample_events b"
    and "book_at b 70616 = \<lparr>m_bids = [(1000, 350)], m_asks = [(1010, 200)]\<rparr>"
    using sample_feed by blast
  then show ?thesis
    using feed_best_prices [OF b, of 70616] by (auto simp: GetBestPrices_def split: if_splits)
qed



text \<open>
  The order map does what the messages say, whatever the books hold: an addition stores the
  order, an execution lowers what is left and removes the order at zero, a deletion removes it.
\<close>

theorem feed_order_map:
  assumes "feed b es b'"
  shows "m_orderMap b' = fold (\<lambda>e om. orders_step om e) es (m_orderMap b)"
  using assms by (rule feed_orders)

theorem feed_order_map_witness:
  "\<exists>b. feed empty_builder sample_events b \<and>
     map_option io_left_qty (m_orderMap b (70616, 1, 66)) = Some 350"
proof -
  obtain b where b: "feed empty_builder sample_events b" using sample_feed by blast
  have "map_option io_left_qty (fold (\<lambda>e om. orders_step om e) sample_events
      (m_orderMap empty_builder) (70616, 1, 66)) = Some 350"
    by (simp add: sample_events_def builder_eval)
  then show ?thesis using feed_order_map [OF b] b by auto
qed

text \<open>
  Adding an order with a new id and deleting it again restores the builder's order map and the
  level vectors of its book.
\<close>

theorem add_delete_order_roundtrip:
  assumes "builder_ok b" and "feed_ok b (Add (mk_add ob oid side price qty))"
  shows "\<exists>b'. res_fold builder_step b [Add (mk_add ob oid side price qty), Delete (mk_delete ob oid side)]
      = Inr b' \<and> m_orderMap b' = m_orderMap b \<and> (\<forall>ob'. book_at b' ob' = book_at b ob')"
proof -
  have new: "m_orderMap b (ob, oid, side) = None" and qty: "qty \<noteq> 0"
    using assms(2) by (auto simp: mk_add_def add_key_def)
  have "book_depth (book_at b ob) (is_buy side) (sint price) \<noteq> Some 0"
    using level_total_depth [OF assms(1), of ob "is_buy side" "sint price"] book_rep [OF assms(1), of ob]
    by (auto simp: represents_def split: if_splits)
  then have "DeleteOrder (AddOrder (book_at b ob) side (sint price) qty) side (sint price) qty =
      Inr (book_at b ob)"
    using book_of [OF assms(1), of ob] qty
      DeleteOrder_AddOrder [of "book_at b ob" qty side "sint price"] by blast
  then show ?thesis
    using new by (simp add: addOrder_mk deleteOrder_def mk_delete_def) (auto simp: book_at_def)
qed

theorem add_delete_order_roundtrip_witness:
  "\<exists>b'. res_fold builder_step empty_builder [Add (mk_add 7 1 66 1000 5), Delete (mk_delete 7 1 66)]
      = Inr b' \<and> m_orderMap b' = m_orderMap empty_builder \<and> (\<forall>ob'. book_at b' ob' = book_at empty_builder ob')"
  by (rule add_delete_order_roundtrip [OF builder_ok_empty])
    (simp add: empty_builder_def mk_add_def resting_in_def case_prod_beta')



text \<open>
  A second addition under a live id overwrites the order but adds to the level; after the deletion
  no order is left and the first quantity stays in the book.
\<close>

theorem duplicate_add_leaves_quantity:
  assumes "qty1 \<noteq> 0"
  shows "\<exists>b. res_fold builder_step empty_builder
      [Add (mk_add ob oid side price qty1), Add (mk_add ob oid side price qty2),
       Delete (mk_delete ob oid side)] = Inr b \<and>
    m_orderMap b = Map.empty \<and> book_depth (book_at b ob) (is_buy side) (sint price) = Some qty1"
  using assms by (auto simp: builder_eval Let_def)

theorem duplicate_add_leaves_quantity_witness:
  "\<exists>b. res_fold builder_step empty_builder
      [Add (mk_add 7 1 66 1000 5), Add (mk_add 7 1 66 1000 9), Delete (mk_delete 7 1 66)] = Inr b \<and>
    m_orderMap b = Map.empty \<and> book_depth (book_at b 7) (is_buy 66) (sint (1000 :: u32)) = Some 5"
  by (rule duplicate_add_leaves_quantity) simp

end
