(* ===== verification/Itch_Parser.thy ===== *)
theory Itch_Parser
  imports Orderbook_Builder
begin

text \<open>
  \<^verbatim>\<open>src/lib/protocol/itch/itch_parser.hpp\<close>: a MoldUDP64 packet is a header and a sequence of
  length-prefixed blocks; the parser walks the blocks and hands the order messages to its builder.
  The builder is a template parameter, here a record of its three handlers.
\<close>

section \<open>The parser\<close>

record 'b builder_ops =
  op_addOrder :: "'b \<Rightarrow> itch_AddOrder \<Rightarrow> 'b result"
  op_executeOrder :: "'b \<Rightarrow> itch_OrderExecuted \<Rightarrow> 'b result"
  op_deleteOrder :: "'b \<Rightarrow> itch_OrderDelete \<Rightarrow> 'b result"

record 'b ItchParser =
  m_builder :: 'b
  m_session :: "byte list"

text \<open>
  One turn of the loop: \<open>data\<close> is the position of \<^verbatim>\<open>block->data\<close>.  The switch compares the type byte
  with the enumerators; other types are ignored.  The parser is constructed from a reference, so its
  builder pointer is never null.
\<close>

definition handle_block :: "'b builder_ops \<Rightarrow> byte list \<Rightarrow> nat \<Rightarrow> 'b \<Rightarrow> 'b result" where
  "handle_block ops mem data b =
     res_bind (load 1 get8 mem data) (\<lambda>t.
       if t = MessageType_val MessageType_AddOrder
       then res_bind (load ADD_ORDER_MSG_SIZE get_itch_AddOrder mem data) (op_addOrder ops b)
       else if t = MessageType_val MessageType_OrderExecuted
       then res_bind (load ORDER_EXEC_MSG_SIZE get_itch_OrderExecuted mem data) (op_executeOrder ops b)
       else if t = MessageType_val MessageType_OrderDelete
       then res_bind (load ORDER_DELETE_MSG_SIZE get_itch_OrderDelete mem data) (op_deleteOrder ops b)
       else Inr b)"

primrec parsePayload_loop ::
  "'b builder_ops \<Rightarrow> byte list \<Rightarrow> nat \<Rightarrow> u32 \<Rightarrow> 'b \<Rightarrow> 'b result" where
  "parsePayload_loop ops payload 0 offset b = Inr b"
| "parsePayload_loop ops payload (Suc n) offset b =
     res_bind (load 2 get_mold_MessageBlock payload (unat offset)) (\<lambda>block.
       let offset' = offset + (of_nat (unat (be16toh (mb_length block))) + 2) in
       res_bind (handle_block ops payload (unat offset + 2) b) (\<lambda>b'.
         parsePayload_loop ops payload n offset' b'))"

definition parsePayload :: "'b builder_ops \<Rightarrow> byte list \<Rightarrow> u16 \<Rightarrow> 'b \<Rightarrow> 'b result" where
  "parsePayload ops payload message_count b =
     parsePayload_loop ops payload (unat message_count) 0 b"

text \<open>
  \<open>byte_array\<close> is \<open>None\<close> for a null pointer and otherwise the memory behind the pointer.  The code
  takes the packet size as a second argument and only logs it.
\<close>

definition ItchParser_parse ::
  "'b builder_ops \<Rightarrow> 'b ItchParser \<Rightarrow> byte list option \<Rightarrow> nat \<Rightarrow> ('b ItchParser \<times> u64 \<times> u16) result" where
  "ItchParser_parse ops ps byte_array packet_size =
     (case byte_array of
        None \<Rightarrow> Inr (ps, 0, 0)
      | Some mem \<Rightarrow>
          res_bind (load 20 get_mold_DownstreamHeader mem 0) (\<lambda>header.
            res_bind (parsePayload ops (drop 20 mem) (be16toh (dh_message_count header)) (m_builder ps))
              (\<lambda>b'. Inr (ps\<lparr>m_session := dh_session header, m_builder := b'\<rparr>,
                         be64toh (dh_sequence_number header), be16toh (dh_message_count header)))))"

definition concrete_ops :: "OrderbookBuilder builder_ops" where
  "concrete_ops = \<lparr>op_addOrder = addOrder, op_executeOrder = executeOrder,
                   op_deleteOrder = deleteOrder\<rparr>"

text \<open>The counting builder of \<^verbatim>\<open>src/test/itch_parser_test.cpp\<close>.\<close>

record MockOrderbookBuilder =
  add_calls :: int
  exec_calls :: int
  del_calls :: int

definition mock_ops :: "MockOrderbookBuilder builder_ops" where
  "mock_ops = \<lparr>op_addOrder = (\<lambda>b _. Inr (b\<lparr>add_calls := add_calls b + 1\<rparr>)),
               op_executeOrder = (\<lambda>b _. Inr (b\<lparr>exec_calls := exec_calls b + 1\<rparr>)),
               op_deleteOrder = (\<lambda>b _. Inr (b\<lparr>del_calls := del_calls b + 1\<rparr>))\<rparr>"

section \<open>Packets\<close>

text \<open>
  The sender's side, in the format of \<^verbatim>\<open>src/tools/generate_dummy_moldudp64_pcap.py\<close>: every message is
  preceded by its length in network order.
\<close>

definition frame_block :: "byte list \<Rightarrow> byte list" where
  "frame_block m = put16 (be16toh (of_nat (length m))) @ m"

definition mold_packet :: "byte list \<Rightarrow> u64 \<Rightarrow> byte list list \<Rightarrow> byte list" where
  "mold_packet session seq blocks =
     put_mold_DownstreamHeader
       \<lparr>dh_session = session, dh_sequence_number = be64toh seq,
        dh_message_count = be16toh (of_nat (length blocks))\<rparr>
     @ concat (map frame_block blocks)"

text \<open>The event a block stands for, if any, and the blocks that are as long as their type says.\<close>

definition block_event :: "byte list \<Rightarrow> itch_event option" where
  "block_event m =
     (if get8 m = MessageType_val MessageType_AddOrder then Some (Add (get_itch_AddOrder m))
      else if get8 m = MessageType_val MessageType_OrderExecuted
      then Some (Execute (get_itch_OrderExecuted m))
      else if get8 m = MessageType_val MessageType_OrderDelete
      then Some (Delete (get_itch_OrderDelete m))
      else None)"

definition event_size :: "itch_event option \<Rightarrow> nat" where
  "event_size e = (case e of None \<Rightarrow> 1 | Some (Add _) \<Rightarrow> ADD_ORDER_MSG_SIZE
     | Some (Execute _) \<Rightarrow> ORDER_EXEC_MSG_SIZE | Some (Delete _) \<Rightarrow> ORDER_DELETE_MSG_SIZE)"

definition well_sized :: "byte list \<Rightarrow> bool" where
  "well_sized m \<longleftrightarrow> event_size (block_event m) \<le> length m \<and> length m < 2 ^ 16"

fun ops_step :: "'b builder_ops \<Rightarrow> 'b \<Rightarrow> itch_event \<Rightarrow> 'b result" where
  "ops_step ops b (Add m) = op_addOrder ops b m"
| "ops_step ops b (Execute m) = op_executeOrder ops b m"
| "ops_step ops b (Delete m) = op_deleteOrder ops b m"

definition packet_events :: "byte list list \<Rightarrow> itch_event list" where
  "packet_events blocks = List.map_filter block_event blocks"

section \<open>Walking the blocks\<close>

lemma ops_step_concrete: "ops_step concrete_ops = builder_step"
  by (intro ext) (rename_tac b e, case_tac e; simp add: concrete_ops_def)

lemma length_frame_block [simp]: "length (frame_block m) = length m + 2"
  by (simp add: frame_block_def wire)

lemma handle_block_event:
  assumes "well_sized m"
  shows "handle_block ops (pre @ m @ rest) (length pre) b =
    (case block_event m of None \<Rightarrow> Inr b | Some e \<Rightarrow> ops_step ops b e)"
proof -
  have "1 \<le> length m"
    using assms by (auto simp: well_sized_def event_size_def layout split: option.splits itch_event.splits)
  then show ?thesis
    using assms
      codec8.get_append [of m rest] itch_AddOrder.get_append [of m rest]
      itch_OrderExecuted.get_append [of m rest] itch_OrderDelete.get_append [of m rest]
    by (auto simp: handle_block_def load_def well_sized_def block_event_def event_size_def
        MessageType_val_inject split: if_splits)
qed

definition frames :: "byte list list \<Rightarrow> byte list" where
  "frames blocks = concat (map frame_block blocks)"

lemma frames_simps [simp]:
  "frames [] = []" "frames (m # ms) = frame_block m @ frames ms"
  by (simp_all add: frames_def)

lemma unat_block_length:
  "length m < 2 ^ 16 \<Longrightarrow> unat (be16toh (be16toh (of_nat (length m)))) = length m"
  by (simp add: unat_of_nat)

lemma load_block:
  "load 2 get_mold_MessageBlock (pre @ frame_block m @ rest) (length pre) =
     Inr \<lparr>mb_length = be16toh (of_nat (length m))\<rparr>"
  by (simp add: load_def frame_block_def get_mold_MessageBlock_def layout wire)

lemma unat_of_nat_u32: "n < 2 ^ 32 \<Longrightarrow> unat (of_nat n :: u32) = n"
  by (simp add: unat_of_nat)

lemma offset_advance:
  assumes "unat offset = k" and "n < 2 ^ 16" and "k + (n + 2) < 2 ^ 32"
  shows "unat (offset + (of_nat n + 2) :: u32) = k + (n + 2)"
proof -
  have "unat (of_nat (k + (n + 2)) :: u32) = k + (n + 2)"
    using assms(3) by (rule unat_of_nat_u32)
  moreover have "offset + (of_nat n + 2) = of_nat (k + (n + 2))"
    by (simp flip: assms(1))
  ultimately show ?thesis by (simp only:)
qed

lemma ucast_block_length: "n < 2 ^ 16 \<Longrightarrow> ucast (of_nat n :: u16) = (of_nat n :: u32)"
  by (simp add: unsigned_of_nat take_bit_nat_eq_self)

text \<open>
  The loop over \<open>blocks\<close> and then \<open>k\<close> more turns: the blocks are handled in order and the remaining
  turns start right behind the last block.  The 32-bit offset never wraps within the bound.
\<close>

lemma parsePayload_loop_frames:
  assumes "\<forall>m \<in> set blocks. well_sized m" and "unat offset = length pre"
    and "length pre + length (frames blocks) < 2 ^ 32"
  shows "parsePayload_loop ops (pre @ frames blocks @ rest) (length blocks + k) offset b =
    res_bind (res_fold (ops_step ops) b (packet_events blocks))
      (parsePayload_loop ops (pre @ frames blocks @ rest) k
        (of_nat (length pre + length (frames blocks))))"
  using assms
proof (induction blocks arbitrary: pre offset b)
  case Nil
  then have "offset = of_nat (length pre)" by (simp flip: Nil(2))
  then show ?case by (simp add: packet_events_def List.map_filter_simps)
next
  case (Cons m ms)
  let ?pre = "pre @ frame_block m" and ?len = "put16 (be16toh (of_nat (length m)))"
  let ?off = "offset + (of_nat (length m) + 2)"
  have m: "length m < 2 ^ 16" "well_sized m" using Cons.prems(1) by (auto simp: well_sized_def)
  have off: "unat ?off = length ?pre"
    using offset_advance [OF Cons.prems(2) m(1)] Cons.prems(3) by simp
  have here: "handle_block ops (pre @ frame_block m @ frames ms @ rest) (length pre + 2) b =
      (case block_event m of None \<Rightarrow> Inr b | Some e \<Rightarrow> ops_step ops b e)"
    using handle_block_event [OF m(2), of ops "pre @ ?len" "frames ms @ rest" b]
    by (simp add: frame_block_def wire)
  have step: "parsePayload_loop ops (pre @ frames (m # ms) @ rest) (length (m # ms) + k) offset b =
      res_bind (case block_event m of None \<Rightarrow> Inr b | Some e \<Rightarrow> ops_step ops b e)
        (parsePayload_loop ops (?pre @ frames ms @ rest) (length ms + k) ?off)"
    using here Cons.prems(2) m(1) by (simp add: load_block ucast_block_length)
  let ?K = "parsePayload_loop ops (pre @ frames (m # ms) @ rest) k
    (of_nat (length pre + length (frames (m # ms))))"
  have "parsePayload_loop ops (?pre @ frames ms @ rest) (length ms + k) ?off b' =
      res_bind (res_fold (ops_step ops) b' (packet_events ms)) ?K" for b'
    using Cons.IH [of ?off ?pre b'] Cons.prems off by (simp add: algebra_simps del: of_nat_add)
  then have ih: "parsePayload_loop ops (?pre @ frames ms @ rest) (length ms + k) ?off =
      (\<lambda>b'. res_bind (res_fold (ops_step ops) b' (packet_events ms)) ?K)" by (rule ext)
  have ps: "packet_events (m # ms) =
      (case block_event m of None \<Rightarrow> packet_events ms | Some e \<Rightarrow> e # packet_events ms)"
    by (simp add: packet_events_def List.map_filter_simps split: option.split)
  show ?case unfolding step ps ih
    by (cases "block_event m") (simp_all add: res_bind_assoc del: of_nat_add frames_simps)
qed

lemma length_frames_bound:
  assumes "\<forall>m \<in> set blocks. well_sized m"
  shows "length (frames blocks) \<le> length blocks * 65537"
  using assms
proof (induction blocks)
  case (Cons m ms)
  have "length m < 65536" using Cons.prems by (simp add: well_sized_def)
  then show ?case using Cons by simp
qed simp

lemma frames_no_wrap:
  assumes "\<forall>m \<in> set blocks. well_sized m" and "length blocks < 2 ^ 16"
  shows "length (frames blocks) < 2 ^ 32"
proof -
  have "length (frames blocks) \<le> 65535 * 65537"
    using length_frames_bound [OF assms(1)] assms(2) by simp
  then show ?thesis by simp
qed

lemma parsePayload_frames:
  assumes "\<forall>m \<in> set blocks. well_sized m" and "length blocks < 2 ^ 16"
  shows "parsePayload ops (frames blocks @ rest) (of_nat (length blocks)) b =
    res_fold (ops_step ops) b (packet_events blocks)"
proof -
  have "unat (of_nat (length blocks) :: u16) = length blocks"
    using assms(2) by (simp add: unat_of_nat)
  then show ?thesis
    using parsePayload_loop_frames [of blocks 0 "[]" ops rest 0 b] frames_no_wrap [OF assms] assms(1)
    by (cases "res_fold (ops_step ops) b (packet_events blocks)") (simp_all add: parsePayload_def)
qed

text \<open>More turns than blocks: the next length is read from behind the end of the payload.\<close>

lemma parsePayload_overclaim:
  assumes "\<forall>m \<in> set blocks. well_sized m" and "length blocks < unat message_count"
  shows "parsePayload ops (frames blocks) message_count b =
    res_bind (res_fold (ops_step ops) b (packet_events blocks)) (\<lambda>_. Inl OutOfBoundsRead)"
proof -
  have small: "length blocks < 2 ^ 16" using assms(2) unat_bound [of message_count] by simp
  note wrap = frames_no_wrap [OF assms(1) small]
  obtain k where k: "unat message_count = length blocks + Suc k"
    using assms(2) less_imp_Suc_add by fastforce
  have "parsePayload_loop ops (frames blocks) (Suc k) (of_nat (length (frames blocks))) b' =
      Inl OutOfBoundsRead" for b'
    using unat_of_nat_u32 [OF wrap] by (simp add: load_def)
  then show ?thesis
    using parsePayload_loop_frames [of blocks 0 "[]" ops "[]" "Suc k" b] wrap assms(1) k
    by (cases "res_fold (ops_step ops) b (packet_events blocks)")
      (simp_all add: parsePayload_def del: parsePayload_loop.simps)
qed

lemma parse_packet:
  assumes "\<forall>m \<in> set blocks. well_sized m" and "length blocks < 2 ^ 16" and "length session = 10"
  shows "ItchParser_parse ops ps (Some (mold_packet session seq blocks)) n =
    res_bind (res_fold (ops_step ops) (m_builder ps) (packet_events blocks))
      (\<lambda>b'. Inr (ps\<lparr>m_session := session, m_builder := b'\<rparr>, seq, of_nat (length blocks)))"
proof -
  let ?h = "\<lparr>dh_session = session, dh_sequence_number = be64toh seq,
    dh_message_count = be16toh (of_nat (length blocks))\<rparr>"
  have h: "valid_mold_DownstreamHeader ?h" using assms(3) by (simp add: valid_mold_DownstreamHeader_def layout)
  have "load 20 get_mold_DownstreamHeader (mold_packet session seq blocks) 0 = Inr ?h"
    and "drop 20 (mold_packet session seq blocks) = frames blocks"
    using mold_DownstreamHeader.get_put [OF h] mold_DownstreamHeader.put_length [OF h]
    by (simp_all add: load_def mold_packet_def frames_def)
  then show ?thesis
    using parsePayload_frames [OF assms(1,2), of ops "[]" "m_builder ps"]
    by (simp add: ItchParser_parse_def)
qed

section \<open>What the parser needs of a builder\<close>

fun accepted_run ::
  "'b builder_ops \<Rightarrow> ('b \<Rightarrow> itch_event \<Rightarrow> bool) \<Rightarrow> 'b \<Rightarrow> itch_event list \<Rightarrow> bool" where
  "accepted_run ops accepts b [] \<longleftrightarrow> True"
| "accepted_run ops accepts b (e # es) \<longleftrightarrow>
     accepts b e \<and> (case ops_step ops b e of Inl _ \<Rightarrow> False | Inr b' \<Rightarrow> accepted_run ops accepts b' es)"

locale itch_builder =
  fixes ops :: "'b builder_ops" and inv :: "'b \<Rightarrow> bool" and accepts :: "'b \<Rightarrow> itch_event \<Rightarrow> bool"
  assumes handles: "inv b \<Longrightarrow> accepts b e \<Longrightarrow> \<exists>b'. ops_step ops b e = Inr b' \<and> inv b'"
begin

lemma run_ok:
  "inv b \<Longrightarrow> accepted_run ops accepts b es \<Longrightarrow> \<exists>b'. res_fold (ops_step ops) b es = Inr b' \<and> inv b'"
proof (induction es arbitrary: b)
  case (Cons e es)
  then show ?case using handles [of b e] by auto
qed simp

lemma packet_ok:
  assumes "\<forall>m \<in> set blocks. well_sized m" and "length blocks < 2 ^ 16" and "length session = 10"
    and "inv (m_builder ps)" and "accepted_run ops accepts (m_builder ps) (packet_events blocks)"
  shows "\<exists>b'. ItchParser_parse ops ps (Some (mold_packet session seq blocks)) n =
      Inr (ps\<lparr>m_session := session, m_builder := b'\<rparr>, seq, of_nat (length blocks)) \<and> inv b' \<and>
      res_fold (ops_step ops) (m_builder ps) (packet_events blocks) = Inr b'"
  using run_ok [OF assms(4,5)] parse_packet [OF assms(1,2,3), of ops ps seq n] by auto

end

interpretation concrete: itch_builder concrete_ops builder_ok feed_ok
  by unfold_locales (simp add: ops_step_concrete builder_step_ok)

interpretation mock: itch_builder mock_ops "\<lambda>_. True" "\<lambda>_ _. True"
  by unfold_locales (rename_tac b e, case_tac e; simp add: mock_ops_def)

lemma accepted_run_feed:
  "builder_ok b \<Longrightarrow> accepted_run concrete_ops feed_ok b es \<longleftrightarrow> (\<exists>b'. feed b es b')"
proof (induction es arbitrary: b)
  case (Cons e es)
  show ?case
  proof
    assume "accepted_run concrete_ops feed_ok b (e # es)"
    then obtain b1 where "feed_ok b e" "builder_step b e = Inr b1" "accepted_run concrete_ops feed_ok b1 es"
      by (auto simp: ops_step_concrete split: sum.splits)
    then show "\<exists>b'. feed b (e # es) b'"
      using Cons builder_step_ok [of b e] by (auto intro: feed_event)
  next
    assume "\<exists>b'. feed b (e # es) b'"
    then show "accepted_run concrete_ops feed_ok b (e # es)"
      using Cons builder_step_ok [of b e] by (auto elim!: feed_ConsE simp: ops_step_concrete)
  qed
qed (auto intro: feed_start)

section \<open>Encoded messages\<close>

fun event_block :: "itch_event \<Rightarrow> byte list" where
  "event_block (Add m) = put_itch_AddOrder m"
| "event_block (Execute m) = put_itch_OrderExecuted m"
| "event_block (Delete m) = put_itch_OrderDelete m"

fun event_typed :: "itch_event \<Rightarrow> bool" where
  "event_typed (Add m) \<longleftrightarrow> ao_type m = MessageType_val MessageType_AddOrder"
| "event_typed (Execute m) \<longleftrightarrow>
     oe_type m = MessageType_val MessageType_OrderExecuted \<and> valid_itch_OrderExecuted m"
| "event_typed (Delete m) \<longleftrightarrow> od_type m = MessageType_val MessageType_OrderDelete"

lemma valid_order_messages [simp]: "valid_itch_AddOrder a" "valid_itch_OrderDelete d"
  by (simp_all add: layout)

lemma get8_put_order_messages [simp]:
  "get8 (put_itch_AddOrder a) = ao_type a"
  "get8 (put_itch_OrderExecuted e) = oe_type e"
  "get8 (put_itch_OrderDelete d) = od_type d"
  by (simp_all add: put_itch_AddOrder_def put_itch_OrderExecuted_def put_itch_OrderDelete_def wire)

lemma event_block_sound:
  assumes "event_typed e"
  shows "block_event (event_block e) = Some e" and "well_sized (event_block e)"
proof -
  show ev: "block_event (event_block e) = Some e"
    using assms itch_AddOrder.get_put [of _ "[]"] itch_OrderExecuted.get_put [of _ "[]"]
      itch_OrderDelete.get_put [of _ "[]"]
    by (cases e) (auto simp: block_event_def ascii_def)
  have "length (event_block e) = event_size (Some e)"
    using assms itch_AddOrder.put_length itch_OrderExecuted.put_length itch_OrderDelete.put_length
    by (cases e) (auto simp: event_size_def)
  moreover have "event_size (Some e) < 2 ^ 16" by (cases e) (simp_all add: event_size_def layout)
  ultimately show "well_sized (event_block e)" by (simp add: well_sized_def ev)
qed

lemma packet_events_blocks:
  "\<forall>e \<in> set es. event_typed e \<Longrightarrow> packet_events (map event_block es) = es"
  by (induction es) (simp_all add: packet_events_def List.map_filter_simps event_block_sound)

lemma packet_events_append: "packet_events (xs @ ys) = packet_events xs @ packet_events ys"
  by (induction xs) (simp_all add: packet_events_def List.map_filter_simps split: option.split)

lemma length_sample_events: "length sample_events = 5"
  by (simp add: sample_events_def)

lemma sample_events_typed: "\<forall>e \<in> set sample_events. event_typed e"
  by (simp add: sample_events_def mk_add_def mk_exec_def mk_delete_def layout)

lemma mock_run:
  "res_fold (ops_step mock_ops) b es = Inr (b\<lparr>
     add_calls := add_calls b + int (length (filter (\<lambda>e. \<exists>m. e = Add m) es)),
     exec_calls := exec_calls b + int (length (filter (\<lambda>e. \<exists>m. e = Execute m) es)),
     del_calls := del_calls b + int (length (filter (\<lambda>e. \<exists>m. e = Delete m) es))\<rparr>)"
proof (induction es arbitrary: b)
  case (Cons e es)
  then show ?case by (cases e) (simp_all add: mock_ops_def)
qed simp

section \<open>Properties\<close>

text \<open>
  C4. Parsing the packet that carries a feed runs the feed: every message is decoded and handled in
  order, the builder ends in the state the feed ends in, and the sequence number and the message
  count of the header are returned.
\<close>

theorem parse_feed_roundtrip:
  assumes "feed (m_builder ps) es b'" and "\<forall>e \<in> set es. event_typed e"
    and "length es < 2 ^ 16" and "length session = 10"
  shows "ItchParser_parse concrete_ops ps (Some (mold_packet session seq (map event_block es))) n =
    Inr (ps\<lparr>m_session := session, m_builder := b'\<rparr>, seq, of_nat (length es))"
  using parse_packet [of "map event_block es" session concrete_ops ps seq n] assms
    event_block_sound(2) feed_res_fold [OF assms(1)] packet_events_blocks [OF assms(2)]
  by (simp add: ops_step_concrete)

theorem parse_feed_roundtrip_witness:
  "\<exists>b'. feed empty_builder sample_events b' \<and>
     ItchParser_parse concrete_ops \<lparr>m_builder = empty_builder, m_session = []\<rparr>
       (Some (mold_packet (replicate 10 48) 1 (map event_block sample_events))) 0 =
     Inr (\<lparr>m_builder = b', m_session = replicate 10 48\<rparr>, 1, 5)"
proof -
  obtain b' where b': "feed empty_builder sample_events b'" using sample_feed by blast
  then show ?thesis
    using parse_feed_roundtrip [of "\<lparr>m_builder = empty_builder, m_session = []\<rparr>" sample_events b'
        "replicate 10 48" 1 0] sample_events_typed
    by (auto simp: sample_events_def)
qed

text \<open>
  C25. A packet of blocks that are as long as their type says, of any types, on a consistent builder
  whose order messages form a well-behaved feed, is parsed without a fault and leaves the builder
  consistent; blocks of other types change nothing.
\<close>

theorem parse_safe:
  assumes "\<forall>m \<in> set blocks. well_sized m" and "length blocks < 2 ^ 16" and "length session = 10"
    and "builder_ok (m_builder ps)"
    and "accepted_run concrete_ops feed_ok (m_builder ps) (packet_events blocks)"
  shows "\<exists>b'. ItchParser_parse concrete_ops ps (Some (mold_packet session seq blocks)) n =
      Inr (ps\<lparr>m_session := session, m_builder := b'\<rparr>, seq, of_nat (length blocks)) \<and>
      builder_ok b' \<and> feed (m_builder ps) (packet_events blocks) b'"
proof -
  obtain f where f: "feed (m_builder ps) (packet_events blocks) f"
    using accepted_run_feed [OF assms(4)] assms(5) by blast
  then show ?thesis
    using concrete.packet_ok [OF assms, of seq n] feed_res_fold [OF f] by (auto simp: ops_step_concrete)
qed

theorem parse_safe_witness:
  "\<exists>b'. ItchParser_parse concrete_ops \<lparr>m_builder = empty_builder, m_session = []\<rparr>
      (Some (mold_packet (replicate 10 48) 7 ([0x53] # map event_block sample_events))) 0 =
      Inr (\<lparr>m_builder = b', m_session = replicate 10 48\<rparr>, 7, 6) \<and> builder_ok b'"
proof -
  have ev: "block_event [0x53] = None" by (simp add: block_event_def get8_def ascii_def)
  have blocks: "\<forall>m \<in> set ([0x53] # map event_block sample_events). well_sized m"
    using event_block_sound(2) sample_events_typed by (auto simp: well_sized_def ev event_size_def)
  have events: "packet_events ([0x53] # map event_block sample_events) = sample_events"
    using packet_events_blocks [OF sample_events_typed]
    by (simp add: packet_events_def List.map_filter_simps ev)
  have run: "accepted_run concrete_ops feed_ok empty_builder sample_events"
    using accepted_run_feed [OF builder_ok_empty] sample_feed by blast
  show ?thesis
    using parse_safe [OF blocks, of "replicate 10 48" "\<lparr>m_builder = empty_builder, m_session = []\<rparr>" 7 0]
      run builder_ok_empty
    by (auto simp: events length_sample_events)
qed

text \<open>
  How the exchange splits a stream of blocks into packets does not matter: parsing two payloads
  one after the other leaves the builder as parsing them as one, with any builder.
\<close>

theorem payload_split_irrelevant:
  assumes "\<forall>m \<in> set (xs @ ys). well_sized m" and "length (xs @ ys) < 2 ^ 16"
  shows "parsePayload ops (concat (map frame_block (xs @ ys))) (of_nat (length (xs @ ys))) b =
    res_bind (parsePayload ops (concat (map frame_block xs)) (of_nat (length xs)) b)
      (parsePayload ops (concat (map frame_block ys)) (of_nat (length ys)))"
proof -
  have run: "parsePayload ops (concat (map frame_block zs)) (of_nat (length zs)) =
      (\<lambda>b. res_fold (ops_step ops) b (packet_events zs))" if "zs \<in> {xs, ys, xs @ ys}" for zs
    using parsePayload_frames [of zs ops "[]"] that assms by (auto simp: frames_def fun_eq_iff)
  show ?thesis
    unfolding run [of xs, simplified] run [of ys, simplified] run [of "xs @ ys", OF insertI2, OF insertI2, OF singletonI]
    by (simp add: packet_events_append res_fold_append)
qed

theorem payload_split_irrelevant_witness:
  "parsePayload concrete_ops (concat (map frame_block ([[0x53]] @ [[0x54]])))
      (of_nat (length ([[0x53 :: byte]] @ [[0x54]]))) empty_builder =
    res_bind (parsePayload concrete_ops (concat (map frame_block [[0x53]])) (of_nat (length [[0x53 :: byte]])) empty_builder)
      (parsePayload concrete_ops (concat (map frame_block [[0x54]])) (of_nat (length [[0x54 :: byte]])))"
  by (rule payload_split_irrelevant)
    (simp_all add: well_sized_def block_event_def event_size_def get8_def ascii_def)

text \<open>
  C39. A header that claims more messages than the packet has makes the parser read past the end of
  the buffer, after it has handled every message that is there; the size argument is never consulted.
\<close>

theorem overclaimed_count_reads_out_of_bounds:
  assumes "\<forall>m \<in> set blocks. well_sized m" and "length blocks < unat message_count"
    and "res_fold (ops_step ops) b (packet_events blocks) = Inr b'"
  shows "parsePayload ops (concat (map frame_block blocks)) message_count b = Inl OutOfBoundsRead"
  using parsePayload_overclaim [OF assms(1,2), of ops b] assms(3) by (simp add: frames_def)

theorem overclaimed_count_reads_out_of_bounds_witness:
  "parsePayload mock_ops (concat (map frame_block [])) 1 \<lparr>add_calls = 0, exec_calls = 0, del_calls = 0\<rparr> =
   Inl OutOfBoundsRead"
  by (rule overclaimed_count_reads_out_of_bounds) (simp_all add: packet_events_def List.map_filter_simps)

text \<open>
  The length of a block is used to find the next block only: a last block that is shorter than the
  message its type byte announces is still read as that message, past the end of the buffer.
\<close>

theorem undersized_block_reads_out_of_bounds:
  assumes "m \<noteq> []" and "length m < event_size (block_event m)"
  shows "parsePayload ops (frame_block m) 1 b = Inl OutOfBoundsRead"
proof -
  have bound: "length m < 2 ^ 16"
    using assms(2) by (auto simp: event_size_def layout split: option.splits itch_event.splits)
  have "handle_block ops (put16 (be16toh (of_nat (length m))) @ m) 2 b = Inl OutOfBoundsRead"
    using assms codec16.put_length [OF TrueI]
    by (cases m) (auto simp: handle_block_def load_def block_event_def event_size_def wire
        MessageType_val_inject split: if_splits)
  then show ?thesis
    using load_block [of "[]" m "[]"] by (simp add: parsePayload_def frame_block_def numeral_2_eq_2)
qed

theorem undersized_block_reads_out_of_bounds_witness:
  "parsePayload concrete_ops (frame_block [0x41, 0, 0]) 1 empty_builder = Inl OutOfBoundsRead"
  by (rule undersized_block_reads_out_of_bounds)
    (simp_all add: block_event_def event_size_def get8_def ascii_def layout)

text \<open>
  With the counting builder of the unit tests every packet of well-sized blocks is parsed, and
  the counters grow by the number of messages of each kind.
\<close>

theorem mock_counts:
  assumes "\<forall>m \<in> set blocks. well_sized m" and "length blocks < 2 ^ 16" and "length session = 10"
  shows "ItchParser_parse mock_ops ps (Some (mold_packet session seq blocks)) n =
    Inr (ps\<lparr>m_session := session, m_builder := (m_builder ps)\<lparr>
      add_calls := add_calls (m_builder ps) + int (length (filter (\<lambda>e. \<exists>m. e = Add m) (packet_events blocks))),
      exec_calls := exec_calls (m_builder ps) + int (length (filter (\<lambda>e. \<exists>m. e = Execute m) (packet_events blocks))),
      del_calls := del_calls (m_builder ps) + int (length (filter (\<lambda>e. \<exists>m. e = Delete m) (packet_events blocks)))\<rparr>\<rparr>,
      seq, of_nat (length blocks))"
  using parse_packet [OF assms, of mock_ops ps seq n] by (simp add: mock_run)

theorem mock_counts_witness:
  "ItchParser_parse mock_ops
     \<lparr>m_builder = \<lparr>add_calls = 0, exec_calls = 0, del_calls = 0\<rparr>, m_session = []\<rparr>
     (Some (mold_packet (replicate 10 48) 1 (map event_block sample_events))) 0 =
   Inr (\<lparr>m_builder = \<lparr>add_calls = 3, exec_calls = 1, del_calls = 1\<rparr>, m_session = replicate 10 48\<rparr>, 1, 5)"
proof -
  have "\<forall>m \<in> set (map event_block sample_events). well_sized m"
    using event_block_sound(2) sample_events_typed by auto
  then show ?thesis
    using mock_counts [of "map event_block sample_events" "replicate 10 48"
        "\<lparr>m_builder = \<lparr>add_calls = 0, exec_calls = 0, del_calls = 0\<rparr>, m_session = []\<rparr>" 1 0]
    by (simp add: packet_events_blocks [OF sample_events_typed]) (simp add: sample_events_def)
qed

end
