(* ===== verification/Market_Data_Client.thy ===== *)
theory Market_Data_Client
  imports Itch_Parser
begin

text \<open>
  \<^verbatim>\<open>src/lib/client/market_data_client.cpp\<close>: sequence numbers of the multicast feed, detection of gaps
  and recovery of missed messages from the rewinder.  The datagrams handed to \<^verbatim>\<open>sendto\<close> are kept in
  the state; \<^verbatim>\<open>sendto\<close> failures are ignored by the code.
\<close>

section \<open>State\<close>

datatype md_State = Initial | Joined | Snapshotting | Rewinding | Continuous

datatype SequenceGapParseResult = NoGap | GapDetected

record RewindRequest =
  rr_sequence_number :: u64
  rr_message_count :: u16

record MarketDataClient =
  m_itchParser :: "OrderbookBuilder ItchParser"
  m_missingSequenceNumbers :: "u64 list"
  m_lastRequestedSequenceNumber :: u64
  m_rewindNeededTillThisSequenceNumberExclusive :: u64
  m_sessionName :: "byte list"
  m_sessionNameSet :: bool
  m_nextExpectedSeqNo :: u64
  m_state :: md_State
  sent_datagrams :: "byte list list"

definition MarketDataClient_init :: MarketDataClient where
  "MarketDataClient_init =
     \<lparr>m_itchParser = \<lparr>m_builder = empty_builder, m_session = []\<rparr>, m_missingSequenceNumbers = [],
      m_lastRequestedSequenceNumber = 0, m_rewindNeededTillThisSequenceNumberExclusive = 0,
      m_sessionName = replicate 10 0, m_sessionNameSet = False, m_nextExpectedSeqNo = 1,
      m_state = Initial, sent_datagrams = []\<rparr>"

section \<open>Operations\<close>

lemma unat_Suc_less: "i < stop \<Longrightarrow> unat (i + 1 :: u64) = unat i + 1"
  using unat_bound [of stop] by (simp add: word_less_nat_alt unat_word_ariths)

text \<open>\<open>stop\<close> is \<^verbatim>\<open>A + B\<close>, which wraps.\<close>

function populateVector_loop :: "u64 \<Rightarrow> u64 \<Rightarrow> u64 \<Rightarrow> u64 \<Rightarrow> u64 list \<Rightarrow> u64 list" where
  "populateVector_loop A stop i counter res =
     (if i < stop
      then populateVector_loop A stop (i + 1) (counter + 1) (res[unat (i - A) := A + counter])
      else res)"
  by auto

termination
  by (relation "measure (\<lambda>(A, stop, i, counter, res). unat stop - unat i)")
    (auto simp: unat_Suc_less word_less_nat_alt)

declare populateVector_loop.simps [simp del]

definition populateVector :: "u64 \<Rightarrow> u16 \<Rightarrow> u64 list" where
  "populateVector A B =
     populateVector_loop A (A + ucast B) A 0 (replicate (unat B) 0)"

definition calculateNextSequenceNumber ::
  "MarketDataClient \<Rightarrow> u64 \<Rightarrow> u16 \<Rightarrow> MarketDataClient \<times> SequenceGapParseResult" where
  "calculateNextSequenceNumber md received_sequence_number message_count =
     (let gap = (if m_nextExpectedSeqNo md \<noteq> 0 \<and> received_sequence_number \<noteq> m_nextExpectedSeqNo md
                 then GapDetected else NoGap)
      in (md\<lparr>m_nextExpectedSeqNo := received_sequence_number + ucast message_count\<rparr>, gap))"

definition setState :: "MarketDataClient \<Rightarrow> md_State \<Rightarrow> MarketDataClient" where
  "setState md state = (if m_state md = state then md else md\<lparr>m_state := state\<rparr>)"

definition setSessionName :: "MarketDataClient \<Rightarrow> byte list \<Rightarrow> MarketDataClient" where
  "setSessionName md session_name =
     (if m_sessionNameSet md then md
      else md\<lparr>m_sessionName := session_name, m_sessionNameSet := True\<rparr>)"

definition rewind :: "MarketDataClient \<Rightarrow> RewindRequest \<Rightarrow> MarketDataClient" where
  "rewind md rewind_request =
     (let md' = setState md Rewinding;
          header = \<lparr>dh_session = m_sessionName md',
                    dh_sequence_number = be64toh (rr_sequence_number rewind_request),
                    dh_message_count = be16toh (rr_message_count rewind_request)\<rparr>
      in md'\<lparr>sent_datagrams := sent_datagrams md' @ [put_mold_DownstreamHeader header]\<rparr>)"

definition requestMissingPackets :: "MarketDataClient \<Rightarrow> u64 \<Rightarrow> u64 \<Rightarrow> MarketDataClient" where
  "requestMissingPackets md expected_sequence_number received_sequence_number =
     (if received_sequence_number > expected_sequence_number
      then rewind md \<lparr>rr_sequence_number = expected_sequence_number,
                      rr_message_count = ucast (received_sequence_number - expected_sequence_number)\<rparr>
      else md)"

text \<open>One received number while rewinding; \<^verbatim>\<open>back()\<close> of an empty vector is a fault.\<close>

definition rewound_number :: "u64 list \<Rightarrow> u64 \<Rightarrow> u64 list result" where
  "rewound_number missing receivedSequenceNumber =
     (if missing = [] then Inl OutOfBoundsRead
      else if last missing = receivedSequenceNumber then Inr (butlast missing)
      else Inr missing)"

text \<open>The loop that records the numbers to recover, from \<open>n\<close> down to 1.\<close>

primrec missing_down :: "nat \<Rightarrow> u64 list" where
  "missing_down 0 = []"
| "missing_down (Suc n) = of_nat (Suc n) # missing_down n"

text \<open>The last part of \<^verbatim>\<open>parse\<close>: sequence numbers of the normal flow.\<close>

definition check_sequence :: "MarketDataClient \<Rightarrow> u64 \<Rightarrow> u16 \<Rightarrow> MarketDataClient" where
  "check_sequence md sequence_number message_count =
     (if sequence_number > m_rewindNeededTillThisSequenceNumberExclusive md
      then case calculateNextSequenceNumber md sequence_number message_count of
             (md', res) \<Rightarrow>
               (if res = GapDetected
                then requestMissingPackets md' (m_nextExpectedSeqNo md') sequence_number else md')
      else md)"

text \<open>What \<^verbatim>\<open>parse\<close> does when it is rewinding and some numbers are still missing.\<close>

definition continue_rewind :: "MarketDataClient \<Rightarrow> MarketDataClient" where
  "continue_rewind md =
     (let missing = m_missingSequenceNumbers md in
      if m_lastRequestedSequenceNumber md \<noteq> last missing
      then requestMissingPackets (md\<lparr>m_lastRequestedSequenceNumber := last missing\<rparr>)
             (last missing) (hd missing + 1)
      else md)"

text \<open>\<^verbatim>\<open>parse\<close> after the packet has been handed to the parser.\<close>

definition parse_sequence :: "MarketDataClient \<Rightarrow> u64 \<Rightarrow> u16 \<Rightarrow> MarketDataClient result" where
  "parse_sequence md sequence_number message_count =
     (if m_state md = Rewinding
      then res_bind (res_fold rewound_number (m_missingSequenceNumbers md)
                       (populateVector sequence_number message_count))
             (\<lambda>missing.
               let md1 = md\<lparr>m_missingSequenceNumbers := missing\<rparr>;
                   md2 = (if missing = [] then setState md1 Continuous else continue_rewind md1)
               in Inr (check_sequence md2 sequence_number message_count))
      else if m_state md = Initial \<and> sequence_number \<noteq> 1 \<and> m_nextExpectedSeqNo md = 1
      then Inr (requestMissingPackets
             (md\<lparr>m_missingSequenceNumbers :=
                   m_missingSequenceNumbers md @ missing_down (unat (sequence_number - 1)),
                 m_lastRequestedSequenceNumber := 1,
                 m_rewindNeededTillThisSequenceNumberExclusive := sequence_number\<rparr>)
             1 sequence_number)
      else Inr (check_sequence md sequence_number message_count))"

definition md_parse :: "MarketDataClient \<Rightarrow> byte list option \<Rightarrow> nat \<Rightarrow> MarketDataClient result" where
  "md_parse md buffer packet_size =
     res_bind (ItchParser_parse concrete_ops (m_itchParser md) buffer packet_size)
       (\<lambda>(ps, sequence_number, message_count).
         parse_sequence (md\<lparr>m_itchParser := ps\<rparr>) sequence_number message_count)"

text \<open>\<^verbatim>\<open>processRewoundPackets\<close> hands the header itself to \<^verbatim>\<open>parsePayload\<close>, not the bytes behind it.\<close>

definition processRewoundPackets :: "MarketDataClient \<Rightarrow> byte list \<Rightarrow> MarketDataClient result" where
  "processRewoundPackets md mem =
     res_bind (load 20 get_mold_DownstreamHeader mem 0) (\<lambda>header.
       res_bind (parsePayload concrete_ops mem (be16toh (dh_message_count header))
                   (m_builder (m_itchParser md)))
         (\<lambda>b. Inr (md\<lparr>m_itchParser := (m_itchParser md)\<lparr>m_builder := b\<rparr>\<rparr>)))"

section \<open>Sequence number vectors\<close>

lemma unat_of_nat_u64: "n < 2 ^ 64 \<Longrightarrow> unat (of_nat n :: u64) = n"
  by (simp add: unat_of_nat)

lemma unat_add_of_nat:
  assumes "unat (a :: u64) + k < 2 ^ 64"
  shows "unat (a + of_nat k) = unat a + k"
proof -
  have "a + of_nat k = of_nat (unat a + k)" by simp
  then show ?thesis using unat_of_nat_u64 [OF assms] by (simp only:)
qed

lemma populateVector_loop_step:
  "i < stop \<Longrightarrow> populateVector_loop A stop i counter res =
     populateVector_loop A stop (i + 1) (counter + 1) (res[unat (i - A) := A + counter])"
  by (subst populateVector_loop.simps) simp

lemma populateVector_loop_run:
  assumes "unat A + length res < 2 ^ 64" and "n \<le> length res"
  shows "populateVector_loop A (A + of_nat (length res)) (A + of_nat n) (of_nat n) res =
    take n res @ map (\<lambda>k. A + of_nat k) [n..<length res]"
  using assms
proof (induction "length res - n" arbitrary: n res)
  case 0
  then show ?case by (subst populateVector_loop.simps) simp
next
  case (Suc m)
  then have n: "n < length res" by simp
  have u: "unat (A + of_nat k) = unat A + k" if "k \<le> length res" for k
    using that Suc.prems(1) by (intro unat_add_of_nat) simp
  have less: "A + of_nat n < A + of_nat (length res)" using u n by (simp add: word_less_nat_alt)
  let ?res = "res[n := A + of_nat n]"
  have "populateVector_loop A (A + of_nat (length res)) (A + of_nat n) (of_nat n) res =
      populateVector_loop A (A + of_nat (length ?res)) (A + of_nat (Suc n)) (of_nat (Suc n)) ?res"
  proof -
    have "unat (A + of_nat n - A) = n" using unat_of_nat_u64 [of n] n Suc.prems(1) by simp
    moreover have "A + of_nat n + 1 = A + of_nat (Suc n)" "of_nat n + 1 = (of_nat (Suc n) :: u64)" by simp_all
    ultimately show ?thesis
      using populateVector_loop_step [OF less, of A "of_nat n" res] by (simp only: length_list_update)
  qed
  also have "\<dots> = take (Suc n) ?res @ map (\<lambda>k. A + of_nat k) [Suc n..<length ?res]"
    using Suc n by (intro Suc.hyps(1)) auto
  also have "\<dots> = take n res @ map (\<lambda>k. A + of_nat k) [n..<length res]"
    using n by (simp add: take_Suc_conv_app_nth upt_conv_Cons)
  finally show ?case .
qed

lemma populateVector_range:
  assumes "unat A + unat B < 2 ^ 64"
  shows "populateVector A B = map (\<lambda>k. A + of_nat k) [0..<unat B]"
  using populateVector_loop_run [of A "replicate (unat B) 0" 0] assms by (simp add: populateVector_def)

section \<open>Recovering missed messages\<close>

text \<open>The numbers \<open>k\<close> down to \<open>a\<close>, as the vector of missing numbers holds them.\<close>

definition missing_range :: "nat \<Rightarrow> nat \<Rightarrow> u64 list" where
  "missing_range a k = map of_nat (rev [a..<Suc k])"

lemma missing_down_range: "missing_down k = missing_range 1 k"
  by (induction k) (simp_all add: missing_range_def)

lemma missing_range_empty: "missing_range a k = [] \<longleftrightarrow> k < a"
  by (auto simp: missing_range_def)

lemma missing_range_back:
  assumes "a \<le> k"
  shows "last (missing_range a k) = of_nat a" and "butlast (missing_range a k) = missing_range (Suc a) k"
proof -
  have "[a..<Suc k] = a # [Suc a..<Suc k]" using assms by (intro upt_conv_Cons) simp
  then have "missing_range a k = missing_range (Suc a) k @ [of_nat a]"
    by (simp add: missing_range_def del: upt_Suc)
  then show "last (missing_range a k) = of_nat a" "butlast (missing_range a k) = missing_range (Suc a) k"
    by simp_all
qed

lemma missing_range_front: "a \<le> k \<Longrightarrow> hd (missing_range a k) = of_nat k"
  by (simp add: missing_range_def)

lemma rewound_numbers:
  assumes "a + c \<le> Suc k"
  shows "res_fold rewound_number (missing_range a k) (map (\<lambda>j. of_nat a + of_nat j) [0..<c]) =
    Inr (missing_range (a + c) k)"
  using assms
proof (induction c)
  case (Suc c)
  have "rewound_number (missing_range (a + c) k) (of_nat a + of_nat c) = Inr (missing_range (a + Suc c) k)"
    using Suc.prems missing_range_back [of "a + c" k] missing_range_empty [of "a + c" k]
    by (simp add: rewound_number_def)
  then show ?case using Suc by (simp add: res_fold_append)
qed simp

text \<open>The client is rewinding and still misses the numbers \<open>a\<close> to \<open>k\<close>.\<close>

definition rewinding_from :: "nat \<Rightarrow> nat \<Rightarrow> MarketDataClient \<Rightarrow> bool" where
  "rewinding_from a k md \<longleftrightarrow>
     m_state md = Rewinding \<and> m_missingSequenceNumbers md = missing_range a k \<and> 0 < a \<and> a \<le> k \<and>
     Suc k < 2 ^ 64 \<and> m_rewindNeededTillThisSequenceNumberExclusive md = of_nat (Suc k)"

lemma requestMissingPackets_keeps [simp]:
  "m_missingSequenceNumbers (requestMissingPackets md e r) = m_missingSequenceNumbers md"
  "m_rewindNeededTillThisSequenceNumberExclusive (requestMissingPackets md e r) =
     m_rewindNeededTillThisSequenceNumberExclusive md"
  "m_nextExpectedSeqNo (requestMissingPackets md e r) = m_nextExpectedSeqNo md"
  "m_itchParser (requestMissingPackets md e r) = m_itchParser md"
  "m_sessionName (requestMissingPackets md e r) = m_sessionName md"
  by (simp_all add: requestMissingPackets_def rewind_def setState_def Let_def)

lemma requestMissingPackets_state:
  "m_state (requestMissingPackets md e r) = (if e < r then Rewinding else m_state md)"
  by (simp add: requestMissingPackets_def rewind_def setState_def Let_def)

lemma continue_rewind_keeps [simp]:
  "m_missingSequenceNumbers (continue_rewind md) = m_missingSequenceNumbers md"
  "m_rewindNeededTillThisSequenceNumberExclusive (continue_rewind md) =
     m_rewindNeededTillThisSequenceNumberExclusive md"
  "m_nextExpectedSeqNo (continue_rewind md) = m_nextExpectedSeqNo md"
  "m_itchParser (continue_rewind md) = m_itchParser md"
  "m_sessionName (continue_rewind md) = m_sessionName md"
  "m_state md = Rewinding \<Longrightarrow> m_state (continue_rewind md) = Rewinding"
  by (simp_all add: continue_rewind_def requestMissingPackets_state Let_def)

lemma check_sequence_rewound:
  "\<not> m_rewindNeededTillThisSequenceNumberExclusive md < s \<Longrightarrow> check_sequence md s c = md"
  by (simp add: check_sequence_def)

lemma rewind_step_state:
  assumes md: "rewinding_from a k md" and c: "a + unat c \<le> Suc k"
  shows "parse_sequence md (of_nat a) c =
    Inr (let md' = md\<lparr>m_missingSequenceNumbers := missing_range (a + unat c) k\<rparr> in
         if a + unat c = Suc k then setState md' Continuous else continue_rewind md')"
proof -
  have k: "Suc k < 2 ^ 64" "0 < a" "a \<le> k" using md by (auto simp: rewinding_from_def)
  have ua: "unat (of_nat a :: u64) = a" using k by (intro unat_of_nat_u64) simp
  have "populateVector (of_nat a) c = map (\<lambda>j. of_nat a + of_nat j) [0..<unat c]"
    using c k ua by (intro populateVector_range) simp
  then have fold: "res_fold rewound_number (m_missingSequenceNumbers md) (populateVector (of_nat a) c) =
      Inr (missing_range (a + unat c) k)"
    using rewound_numbers [OF c] md by (simp add: rewinding_from_def)
  have past: "\<not> (of_nat (Suc k) :: u64) < of_nat a"
    using k ua unat_of_nat_u64 [OF k(1)] by (simp add: word_less_nat_alt del: of_nat_Suc)
  define md1 where "md1 = md\<lparr>m_missingSequenceNumbers := missing_range (a + unat c) k\<rparr>"
  define md2 where "md2 = (if a + unat c = Suc k then setState md1 Continuous else continue_rewind md1)"
  have till: "m_rewindNeededTillThisSequenceNumberExclusive md2 = of_nat (Suc k)"
    using md by (simp add: md2_def md1_def setState_def rewinding_from_def)
  have "missing_range (a + unat c) k = [] \<longleftrightarrow> a + unat c = Suc k"
    using c by (auto simp: missing_range_empty)
  then have "parse_sequence md (of_nat a) c = Inr (check_sequence md2 (of_nat a) c)"
    using md fold by (simp add: parse_sequence_def rewinding_from_def md1_def md2_def Let_def)
  then have "parse_sequence md (of_nat a) c = Inr md2"
    using check_sequence_rewound [of md2 "of_nat a" c] till past by simp
  then show ?thesis by (simp add: md1_def md2_def)
qed

lemma rewind_step:
  assumes md: "rewinding_from a k md" and c: "a + unat c \<le> Suc k"
  shows "\<exists>md'. parse_sequence md (of_nat a) c = Inr md' \<and>
    m_nextExpectedSeqNo md' = m_nextExpectedSeqNo md \<and> m_itchParser md' = m_itchParser md \<and>
    (if a + unat c = Suc k then m_state md' = Continuous \<and> m_missingSequenceNumbers md' = []
     else rewinding_from (a + unat c) k md')"
  using rewind_step_state [OF assms] assms
  by (auto simp: Let_def setState_def rewinding_from_def missing_range_empty)

lemma rewind_overrun:
  assumes md: "rewinding_from a k md" and c: "Suc k < a + unat c" "a + unat c < 2 ^ 64"
  shows "parse_sequence md (of_nat a) c = Inl OutOfBoundsRead"
proof -
  have k: "a \<le> k" "m_state md = Rewinding" "m_missingSequenceNumbers md = missing_range a k"
    using md by (auto simp: rewinding_from_def)
  have ua: "unat (of_nat a :: u64) = a" using c(2) by (intro unat_of_nat_u64) simp
  define n where "n = Suc k - a"
  have n: "a + n = Suc k" using k(1) by (simp add: n_def)
  have "[0..<unat c] = [0..<n] @ [n..<unat c]" "[n..<unat c] = n # [Suc n..<unat c]"
    using c(1) n upt_add_eq_append [of 0 n "unat c - n"] by (auto simp: upt_conv_Cons)
  moreover have "populateVector (of_nat a) c = map (\<lambda>j. of_nat a + of_nat j) [0..<unat c]"
    using c ua by (intro populateVector_range) simp
  moreover have "missing_range (Suc k) k = []" by (simp add: missing_range_empty)
  ultimately have "res_fold rewound_number (missing_range a k) (populateVector (of_nat a) c) =
      Inl OutOfBoundsRead"
    using rewound_numbers [of a n k] n by (simp add: res_fold_append rewound_number_def)
  then show ?thesis using k by (simp add: parse_sequence_def)
qed

fun packets_from :: "nat \<Rightarrow> u16 list \<Rightarrow> (u64 \<times> u16) list" where
  "packets_from a [] = []"
| "packets_from a (c # cs) = (of_nat a, c) # packets_from (a + unat c) cs"

lemma rewind_run:
  assumes "rewinding_from a k md" and "a + sum_list (map unat cs) = Suc k" and "\<forall>c \<in> set cs. c \<noteq> 0"
  shows "\<exists>md'. res_fold (\<lambda>md (s, c). parse_sequence md s c) md (packets_from a cs) = Inr md' \<and>
    m_state md' = Continuous \<and> m_missingSequenceNumbers md' = [] \<and>
    m_nextExpectedSeqNo md' = m_nextExpectedSeqNo md \<and> m_itchParser md' = m_itchParser md"
  using assms
proof (induction cs arbitrary: a md)
  case Nil
  then show ?case by (simp add: rewinding_from_def)
next
  case (Cons c cs)
  obtain md1 where md1: "parse_sequence md (of_nat a) c = Inr md1"
    "m_nextExpectedSeqNo md1 = m_nextExpectedSeqNo md" "m_itchParser md1 = m_itchParser md"
    "if a + unat c = Suc k then m_state md1 = Continuous \<and> m_missingSequenceNumbers md1 = []
     else rewinding_from (a + unat c) k md1"
    using rewind_step [OF Cons.prems(1), of c] Cons.prems(2) by auto
  show ?case
  proof (cases "a + unat c = Suc k")
    case True
    then have "sum_list (map unat cs) = 0" using Cons.prems(2) unfolding list.map sum_list.Cons by linarith
    then have "cs = []" using Cons.prems(3) by (cases cs) (auto simp: unat_eq_0)
    then show ?thesis using md1 True by simp
  next
    case False
    then show ?thesis using md1 Cons.IH [of "a + unat c" md1] Cons.prems(2,3) by (simp add: add.assoc)
  qed
qed

section \<open>Starting in the middle of a session\<close>

lemma start_rewind:
  assumes "m_state md = Initial" and "m_nextExpectedSeqNo md = 1" and "m_missingSequenceNumbers md = []"
    and "length (m_sessionName md) = 10" and "1 < s"
  shows "\<exists>md' d. parse_sequence md s c = Inr md' \<and> rewinding_from 1 (unat s - 1) md' \<and>
    sent_datagrams md' = sent_datagrams md @ [d] \<and>
    get_mold_DownstreamHeader d = \<lparr>dh_session = m_sessionName md, dh_sequence_number = be64toh 1,
      dh_message_count = be16toh (of_nat (unat s - 1))\<rparr>"
proof -
  have s: "1 < unat s" "s \<noteq> 1" using assms(5) by (auto simp: word_less_nat_alt)
  have us: "unat (s - 1) = unat s - 1" using s(1) by (simp add: unat_sub word_le_nat_alt)
  let ?md = "md\<lparr>m_missingSequenceNumbers := missing_down (unat (s - 1)),
    m_lastRequestedSequenceNumber := 1, m_rewindNeededTillThisSequenceNumberExclusive := s\<rparr>"
  let ?h = "\<lparr>dh_session = m_sessionName md, dh_sequence_number = be64toh 1,
      dh_message_count = be16toh (ucast (s - 1))\<rparr>"
  have "parse_sequence md s c = Inr (requestMissingPackets ?md 1 s)"
    using assms s by (simp add: parse_sequence_def)
  moreover have "rewinding_from 1 (unat s - 1) (requestMissingPackets ?md 1 s)"
    using s(1) assms(5) unat_bound [of s]
    by (simp add: rewinding_from_def requestMissingPackets_state missing_down_range us)
  moreover have "sent_datagrams (requestMissingPackets ?md 1 s) =
      sent_datagrams md @ [put_mold_DownstreamHeader ?h]"
    using assms(5) by (simp add: requestMissingPackets_def rewind_def setState_def Let_def)
  moreover have "get_mold_DownstreamHeader (put_mold_DownstreamHeader ?h) = ?h"
    using mold_DownstreamHeader.get_put [of ?h "[]"] assms(4) by (simp add: layout)
  moreover have "(ucast (s - 1) :: u16) = of_nat (unat s - 1)"
    using us by (metis of_nat_unat)
  ultimately show ?thesis by metis
qed

section \<open>The session name\<close>

text \<open>Every request carries the session name; nothing on the receiving path sets it.\<close>

definition session_blank :: "MarketDataClient \<Rightarrow> bool" where
  "session_blank md \<longleftrightarrow> m_sessionName md = replicate 10 0 \<and>
     (\<forall>d \<in> set (sent_datagrams md). dh_session (get_mold_DownstreamHeader d) = replicate 10 0)"

lemma session_blank_upd:
  "session_blank (md\<lparr>m_missingSequenceNumbers := x\<rparr>) = session_blank md"
  "session_blank (md\<lparr>m_lastRequestedSequenceNumber := y\<rparr>) = session_blank md"
  "session_blank (md\<lparr>m_rewindNeededTillThisSequenceNumberExclusive := y\<rparr>) = session_blank md"
  "session_blank (md\<lparr>m_nextExpectedSeqNo := y\<rparr>) = session_blank md"
  "session_blank (md\<lparr>m_itchParser := p\<rparr>) = session_blank md"
  "session_blank (setState md st) = session_blank md"
  by (simp_all add: session_blank_def setState_def)

lemma session_blank_request: "session_blank md \<Longrightarrow> session_blank (requestMissingPackets md e r)"
  using mold_DownstreamHeader.get_put [of "\<lparr>dh_session = replicate 10 0, dh_sequence_number = be64toh e,
    dh_message_count = be16toh (ucast (r - e))\<rparr>" "[]"]
  by (auto simp: session_blank_def requestMissingPackets_def rewind_def setState_def Let_def layout)

lemma session_blank_parse_sequence:
  assumes "session_blank md" and "parse_sequence md s c = Inr md'"
  shows "session_blank md'"
proof -
  have check: "session_blank (check_sequence md s c)" if "session_blank md" for md
    using that by (auto simp: check_sequence_def calculateNextSequenceNumber_def Let_def
        session_blank_request session_blank_upd)
  have more: "session_blank (continue_rewind md)" if "session_blank md" for md
    using that by (simp add: continue_rewind_def Let_def session_blank_request session_blank_upd)
  show ?thesis
    using assms check more
    by (auto simp: parse_sequence_def Let_def res_bind_Inr_iff session_blank_request session_blank_upd
        split: if_splits)
qed

section \<open>Packets in sequence\<close>

lemma in_sequence_packet:
  assumes "m_state md \<noteq> Rewinding" and "m_nextExpectedSeqNo md = s"
    and "m_rewindNeededTillThisSequenceNumberExclusive md < s"
    and "feed (m_builder (m_itchParser md)) es b" and "\<forall>e \<in> set es. event_typed e"
    and "length es < 2 ^ 16" and "length session = 10"
  shows "md_parse md (Some (mold_packet session s (map event_block es))) n =
    Inr (md\<lparr>m_itchParser := \<lparr>m_builder = b, m_session = session\<rparr>, m_nextExpectedSeqNo := s + of_nat (length es)\<rparr>)"
proof -
  have "ucast (of_nat (length es) :: u16) = (of_nat (length es) :: u64)"
    using assms(6) by (simp add: unsigned_of_nat take_bit_nat_eq_self)
  moreover have "ItchParser_parse concrete_ops (m_itchParser md)
      (Some (mold_packet session s (map event_block es))) n =
      Inr ((m_itchParser md)\<lparr>m_session := session, m_builder := b\<rparr>, s, of_nat (length es))"
    using parse_packet [of "map event_block es" session concrete_ops "m_itchParser md" s n] assms(5-7)
      event_block_sound(2) feed_res_fold [OF assms(4)] packet_events_blocks [OF assms(5)]
    by (simp add: ops_step_concrete)
  moreover have "(m_itchParser md)\<lparr>m_session := session, m_builder := b\<rparr> =
      \<lparr>m_builder = b, m_session = session\<rparr>" by simp
  ultimately show ?thesis
    using assms(1-3)
    by (simp add: md_parse_def parse_sequence_def check_sequence_def calculateNextSequenceNumber_def Let_def)
qed

text \<open>The packets that carry the parts of a feed, numbered from \<open>s\<close> on.\<close>

primrec stream_packets :: "byte list \<Rightarrow> u64 \<Rightarrow> itch_event list list \<Rightarrow> byte list list" where
  "stream_packets session s [] = []"
| "stream_packets session s (es # parts) =
     mold_packet session s (map event_block es) # stream_packets session (s + of_nat (length es)) parts"

lemma feed_appendE:
  assumes "feed b (es @ fs) b''"
  obtains b' where "feed b es b'" "feed b' fs b''"
  using assms
proof (induction es arbitrary: b thesis)
  case Nil
  then show ?case using feed_start by force
next
  case (Cons e es)
  then show ?case by (metis append_Cons feed_ConsE feed_event)
qed

lemma stream_parsed:
  assumes "m_state md \<noteq> Rewinding" and "m_rewindNeededTillThisSequenceNumberExclusive md < m_nextExpectedSeqNo md"
    and "unat (m_nextExpectedSeqNo md) + length (concat parts) < 2 ^ 64"
    and "feed (m_builder (m_itchParser md)) (concat parts) b" and "\<forall>es \<in> set parts. \<forall>e \<in> set es. event_typed e"
    and "\<forall>es \<in> set parts. length es < 2 ^ 16" and "length session = 10"
  shows "res_fold (\<lambda>md pkt. md_parse md (Some pkt) (length pkt)) md (stream_packets session (m_nextExpectedSeqNo md) parts) =
    Inr (md\<lparr>m_itchParser := \<lparr>m_builder = b, m_session = (if parts = [] then m_session (m_itchParser md) else session)\<rparr>,
            m_nextExpectedSeqNo := m_nextExpectedSeqNo md + of_nat (length (concat parts))\<rparr>)"
  using assms
proof (induction parts arbitrary: md)
  case Nil
  then show ?case by (auto elim: feed_NilE)
next
  case (Cons es parts)
  obtain b' where b': "feed (m_builder (m_itchParser md)) es b'" "feed b' (concat parts) b"
    using Cons.prems(4) by (auto elim: feed_appendE)
  let ?s = "m_nextExpectedSeqNo md"
  let ?md = "md\<lparr>m_itchParser := \<lparr>m_builder = b', m_session = session\<rparr>, m_nextExpectedSeqNo := ?s + of_nat (length es)\<rparr>"
  have step: "md_parse md (Some (mold_packet session ?s (map event_block es))) n = Inr ?md" for n
    using Cons.prems b'(1) by (intro in_sequence_packet) auto
  have next_no: "unat (?s + of_nat (length es)) = unat ?s + length es"
    using Cons.prems(3) by (intro unat_add_of_nat) simp
  have "res_fold (\<lambda>md pkt. md_parse md (Some pkt) (length pkt)) ?md (stream_packets session (m_nextExpectedSeqNo ?md) parts) =
      Inr (?md\<lparr>m_itchParser := \<lparr>m_builder = b, m_session = session\<rparr>,
        m_nextExpectedSeqNo := m_nextExpectedSeqNo ?md + of_nat (length (concat parts))\<rparr>)"
    using Cons.IH [of ?md] Cons.prems b'(2) next_no by (simp add: word_less_nat_alt)
  then show ?case using step by (simp add: add.assoc)
qed

section \<open>Properties\<close>

text \<open>
  A client that starts in the middle of a session (first packet with number \<open>s > 1\<close>) records every
  earlier number as missing, starts rewinding, and sends one request for the messages from 1 on; the
  requested count is \<open>s - 1\<close> reduced to 16 bits.
\<close>

theorem initial_sync_requests_rewind:
  assumes "m_state md = Initial" and "m_nextExpectedSeqNo md = 1" and "m_missingSequenceNumbers md = []"
    and "length (m_sessionName md) = 10" and "1 < s"
  shows "\<exists>md' d. parse_sequence md s c = Inr md' \<and> rewinding_from 1 (unat s - 1) md' \<and>
    sent_datagrams md' = sent_datagrams md @ [d] \<and>
    get_mold_DownstreamHeader d = \<lparr>dh_session = m_sessionName md, dh_sequence_number = be64toh 1,
      dh_message_count = be16toh (of_nat (unat s - 1))\<rparr>"
  using assms by (rule start_rewind)

theorem initial_sync_requests_rewind_witness:
  "\<exists>md' d. parse_sequence MarketDataClient_init 65537 3 = Inr md' \<and> rewinding_from 1 65536 md' \<and>
     sent_datagrams md' = [d] \<and> be16toh (dh_message_count (get_mold_DownstreamHeader d)) = 0"
  using initial_sync_requests_rewind [of MarketDataClient_init 65537 3]
  by (fastforce simp: MarketDataClient_init_def)

text \<open>
  C12. Recovery completes: when the missing numbers \<open>a\<close> to \<open>k\<close> arrive in order, in packets of any
  sizes, the client ends in the continuous state with nothing missing, without a fault, and neither the
  next expected number nor the books are touched by the bookkeeping.
\<close>

theorem rewind_completes:
  assumes "rewinding_from a k md" and "a + sum_list (map unat cs) = Suc k" and "\<forall>c \<in> set cs. c \<noteq> 0"
  shows "\<exists>md'. res_fold (\<lambda>md (s, c). parse_sequence md s c) md (packets_from a cs) = Inr md' \<and>
    m_state md' = Continuous \<and> m_missingSequenceNumbers md' = [] \<and>
    m_nextExpectedSeqNo md' = m_nextExpectedSeqNo md \<and> m_itchParser md' = m_itchParser md"
  using assms by (rule rewind_run)

theorem rewind_completes_witness:
  "\<exists>md1 md'. parse_sequence MarketDataClient_init 6 1 = Inr md1 \<and>
     res_fold (\<lambda>md (s, c). parse_sequence md s c) md1 [(1, 2), (3, 3)] = Inr md' \<and>
     m_state md' = Continuous \<and> m_missingSequenceNumbers md' = []"
proof -
  obtain md1 where "parse_sequence MarketDataClient_init 6 1 = Inr md1" "rewinding_from 1 5 md1"
    using start_rewind [of MarketDataClient_init 6 1] by (auto simp: MarketDataClient_init_def)
  then show ?thesis using rewind_completes [of 1 5 md1 "[2, 3]"] by auto
qed

text \<open>
  A packet that delivers the last missing number and goes on with later ones makes the client read
  the back of an empty vector.
\<close>

theorem rewind_overrun_reads_out_of_bounds:
  assumes "rewinding_from a k md" and "Suc k < a + unat c" and "a + unat c < 2 ^ 64"
  shows "parse_sequence md (of_nat a) c = Inl OutOfBoundsRead"
  using assms by (rule rewind_overrun)

theorem rewind_overrun_reads_out_of_bounds_witness:
  "\<exists>md1. parse_sequence MarketDataClient_init 6 1 = Inr md1 \<and> parse_sequence md1 1 7 = Inl OutOfBoundsRead"
proof -
  obtain md1 where "parse_sequence MarketDataClient_init 6 1 = Inr md1" "rewinding_from 1 5 md1"
    using start_rewind [of MarketDataClient_init 6 1] by (auto simp: MarketDataClient_init_def)
  then show ?thesis using rewind_overrun_reads_out_of_bounds [of 1 5 md1 7] by auto
qed

text \<open>
  C36. Outside of the initial synchronisation a gap is noticed but never requested: the expected number
  is overwritten before the request is computed, so whatever the client expected, a packet beyond the
  recovered range only moves the expected number behind that packet.
\<close>

theorem gap_never_requested:
  assumes "m_state md \<noteq> Rewinding" and "m_state md \<noteq> Initial"
    and "m_rewindNeededTillThisSequenceNumberExclusive md < s" and "unat s + unat c < 2 ^ 64"
  shows "parse_sequence md s c = Inr (md\<lparr>m_nextExpectedSeqNo := s + ucast c\<rparr>) \<and>
    snd (calculateNextSequenceNumber md s c) =
      (if m_nextExpectedSeqNo md \<noteq> 0 \<and> s \<noteq> m_nextExpectedSeqNo md then GapDetected else NoGap)"
proof -
  have "unat (s + ucast c) = unat s + unat c"
    using unat_add_of_nat [OF assms(4)] by simp
  then have "\<not> s + ucast c < s" by (simp add: word_less_nat_alt)
  then show ?thesis
    using assms by (auto simp: parse_sequence_def check_sequence_def calculateNextSequenceNumber_def
        requestMissingPackets_def Let_def)
qed

theorem gap_never_requested_witness:
  "parse_sequence (MarketDataClient_init\<lparr>m_state := Continuous, m_nextExpectedSeqNo := 10\<rparr>) 20 2 =
     Inr (MarketDataClient_init\<lparr>m_state := Continuous, m_nextExpectedSeqNo := 22\<rparr>) \<and>
   snd (calculateNextSequenceNumber (MarketDataClient_init\<lparr>m_state := Continuous, m_nextExpectedSeqNo := 10\<rparr>) 20 2)
     = GapDetected"
  using gap_never_requested [of "MarketDataClient_init\<lparr>m_state := Continuous, m_nextExpectedSeqNo := 10\<rparr>" 20 2]
  by (simp add: MarketDataClient_init_def)

text \<open>
  Every rewind request the client ever sends carries a session name of ten null characters: parsing
  packets keeps the name as it was initialised, and every datagram is filled with it.
\<close>

theorem requests_have_blank_session:
  assumes "session_blank md" and "md_parse md buffer n = Inr md'"
  shows "session_blank md'"
  using assms
  by (auto simp: md_parse_def res_bind_Inr_iff session_blank_upd
      intro: session_blank_parse_sequence [rotated] split: prod.splits)

theorem requests_have_blank_session_witness:
  "\<exists>md'. md_parse MarketDataClient_init (Some (mold_packet (replicate 10 65) 6 [])) 20 = Inr md' \<and>
     session_blank md' \<and> length (sent_datagrams md') = 1"
proof -
  let ?md = "MarketDataClient_init\<lparr>m_itchParser := \<lparr>m_builder = empty_builder, m_session = replicate 10 65\<rparr>\<rparr>"
  obtain md' where md': "parse_sequence ?md 6 0 = Inr md'" "length (sent_datagrams md') = 1"
    using start_rewind [of ?md 6 0] by (auto simp: MarketDataClient_init_def)
  have "md_parse MarketDataClient_init (Some (mold_packet (replicate 10 65) 6 [])) 20 = parse_sequence ?md 6 0"
    using parse_packet [of "[]" "replicate 10 65" concrete_ops "m_itchParser MarketDataClient_init" 6 20]
    by (simp add: md_parse_def packet_events_def List.map_filter_simps MarketDataClient_init_def)
  moreover have "session_blank MarketDataClient_init" by (simp add: session_blank_def MarketDataClient_init_def)
  ultimately show ?thesis
    using md' requests_have_blank_session [of MarketDataClient_init "Some (mold_packet (replicate 10 65) 6 [])" 20 md']
    by auto
qed

text \<open>
  \<^verbatim>\<open>processRewoundPackets\<close> takes the name of the session for the first block of a rewound packet.  If its third
  character is not the type of a message, a packet of one message is dropped and a longer one is read past its
  end, unless the first two characters happen to be the length of something inside it.
\<close>

theorem rewound_packet_misread:
  assumes "length session = 10" and "session ! 2 \<notin> {ascii CHR ''A'', ascii CHR ''E'', ascii CHR ''D''}"
    and "blocks \<noteq> []" and "length blocks < 2 ^ 16" and "length (mold_packet session seq blocks) < 4 + be_val (take 2 session)"
  shows "processRewoundPackets md (mold_packet session seq blocks) =
    (if length blocks = 1 then Inr md else Inl OutOfBoundsRead)"
proof -
  let ?mem = "mold_packet session seq blocks"
  have h: "valid_mold_DownstreamHeader \<lparr>dh_session = session, dh_sequence_number = be64toh seq,
      dh_message_count = be16toh (of_nat (length blocks))\<rparr>"
    using assms(1) by (simp add: layout)
  have head: "load 20 get_mold_DownstreamHeader ?mem 0 = Inr \<lparr>dh_session = session, dh_sequence_number = be64toh seq,
      dh_message_count = be16toh (of_nat (length blocks))\<rparr>"
    using mold_DownstreamHeader.get_put [OF h] mold_DownstreamHeader.put_length [OF h] by (simp add: mold_packet_def load_def)
  obtain tail where mem: "?mem = session @ tail" by (auto simp: mold_packet_def layout)
  obtain n where n: "length blocks = Suc n" using assms(3) by (cases blocks) auto
  have "drop 2 ?mem = session ! 2 # drop 3 session @ tail"
    using assms(1) mem Cons_nth_drop_Suc [of 2 session] by simp
  then have "load 1 get8 ?mem 2 = Inr (session ! 2)" using assms(1) mem by (simp add: load_def get8_def)
  then have type: "handle_block concrete_ops ?mem 2 b = Inr b" for b using assms(2) by (simp add: handle_block_def)
  have len: "unat (be16toh (get16 ?mem)) = be_val (take 2 session)" "2 \<le> length ?mem"
    using network_order(1) [of ?mem] assms(1) mem by simp_all
  let ?off = "of_nat (be_val (take 2 session)) + 2 :: u32"
  have "be_val (take 2 session) < 2 ^ 16" using unat_bound [of "be16toh (get16 ?mem)"] len(1) by simp
  then have off: "unat ?off = be_val (take 2 session) + 2"
    using unat_of_nat_u32 [of "be_val (take 2 session) + 2"] by (simp add: add.commute)
  have behind: "parsePayload_loop concrete_ops ?mem k ?off b = (if k = 0 then Inr b else Inl OutOfBoundsRead)" for k b
    using assms(5) off by (cases k) (simp_all add: load_def)
  have count: "unat (of_nat (length blocks) :: u16) = Suc n" using assms(4) unfolding n by (simp add: unat_of_nat del: of_nat_Suc)
  have "load 2 get_mold_MessageBlock ?mem 0 = Inr \<lparr>mb_length = get16 ?mem\<rparr>"
    using len(2) by (simp add: load_def get_mold_MessageBlock_def)
  then have "parsePayload_loop concrete_ops ?mem (Suc n) 0 b = parsePayload_loop concrete_ops ?mem n ?off b" for b
    using type [of b] unfolding len(1) [symmetric] by (simp add: numeral_2_eq_2)
  then have "parsePayload concrete_ops ?mem (of_nat (length blocks)) b = (if n = 0 then Inr b else Inl OutOfBoundsRead)" for b
    unfolding parsePayload_def count behind [symmetric] .
  then show ?thesis using head n by (simp add: processRewoundPackets_def)
qed

theorem rewound_packet_misread_witness:
  "processRewoundPackets MarketDataClient_init (mold_packet (replicate 10 (ascii CHR ''0'')) 1 [[0x53], [0x53]]) =
   Inl OutOfBoundsRead"
proof -
  let ?session = "replicate 10 (ascii CHR ''0'')"
  have "take 2 ?session = [48, 48]" by (simp add: numeral_eq_Suc ascii_def)
  then have "be_val (take 2 ?session) = 12336" by (simp add: be_val_def)
  moreover have "length (mold_packet ?session 1 [[0x53], [0x53]]) = 26"
    by (simp add: mold_packet_def layout frame_block_def wire)
  moreover have "?session ! 2 \<notin> {ascii CHR ''A'', ascii CHR ''E'', ascii CHR ''D''}" by (simp add: ascii_def)
  ultimately show ?thesis using rewound_packet_misread [of ?session "[[0x53], [0x53]]" 1 MarketDataClient_init] by simp
qed

end
