(* ===== verification/Recovery.thy ===== *)
theory Recovery
  imports Market_Data_Client
begin

text \<open>
  The recovery of a client that joins in the middle of a session, as a dialogue: the client of
  \<^verbatim>\<open>src/lib/client/market_data_client.cpp\<close> sends a request, the rewinder of the exchange answers it with one packet,
  the client takes the packet and asks for the rest.  The rewinder is an argument: how many of the requested
  messages it puts into the packet.
\<close>

section \<open>The dialogue\<close>

text \<open>A request for no messages is not answered.  The first argument of \<open>recovery_rounds\<close> is the rewinder, the second the
  number of rounds.\<close>

definition request_of :: "byte list \<Rightarrow> u64 \<times> u16" where
  "request_of d = (let header = get_mold_DownstreamHeader d in
     (be64toh (dh_sequence_number header), be16toh (dh_message_count header)))"

definition pending_request :: "MarketDataClient \<Rightarrow> u64 \<times> u16" where
  "pending_request md = request_of (last (sent_datagrams md))"

primrec recovery_rounds :: "(u64 \<Rightarrow> u16 \<Rightarrow> u16) \<Rightarrow> nat \<Rightarrow> MarketDataClient \<Rightarrow> MarketDataClient result" where
  "recovery_rounds answer 0 md = Inr md"
| "recovery_rounds answer (Suc n) md =
     (case pending_request md of (s, count) \<Rightarrow>
        if m_state md \<noteq> Rewinding \<or> count = 0 then Inr md
        else res_bind (parse_sequence md s (answer s count)) (recovery_rounds answer n))"

text \<open>What the protocol asks of a rewinder: it answers with some of the messages, from the first on.\<close>

definition answers_some :: "(u64 \<Rightarrow> u16 \<Rightarrow> u16) \<Rightarrow> bool" where
  "answers_some answer \<longleftrightarrow> (\<forall>s n. 0 < unat n \<longrightarrow> 0 < unat (answer s n) \<and> unat (answer s n) \<le> unat n)"

section \<open>One round\<close>

text \<open>The client misses \<open>a\<close> to \<open>k\<close> and has asked for all of them; the count has 16 bits.\<close>

definition awaiting :: "nat \<Rightarrow> nat \<Rightarrow> MarketDataClient \<Rightarrow> bool" where
  "awaiting a k md \<longleftrightarrow> rewinding_from a k md \<and> length (m_sessionName md) = 10 \<and>
     m_lastRequestedSequenceNumber md = of_nat a \<and> pending_request md = (of_nat a, of_nat (Suc k - a))"

lemma request_pending:
  assumes "length (m_sessionName md) = 10" and "e < r"
  shows "pending_request (requestMissingPackets md e r) = (e, ucast (r - e))"
proof -
  let ?h = "\<lparr>dh_session = m_sessionName md, dh_sequence_number = be64toh e, dh_message_count = be16toh (ucast (r - e))\<rparr>"
  have "get_mold_DownstreamHeader (put_mold_DownstreamHeader ?h) = ?h"
    using mold_DownstreamHeader.get_put [of ?h "[]"] assms(1) by (simp add: layout)
  then show ?thesis
    using assms(2) by (simp add: pending_request_def request_of_def requestMissingPackets_def rewind_def setState_def Let_def)
qed

lemma request_last_requested [simp]:
  "m_lastRequestedSequenceNumber (requestMissingPackets md e r) = m_lastRequestedSequenceNumber md"
  by (simp add: requestMissingPackets_def rewind_def setState_def Let_def)

lemma start_awaiting:
  assumes "m_state md = Initial" and "m_nextExpectedSeqNo md = 1" and "m_missingSequenceNumbers md = []"
    and "length (m_sessionName md) = 10" and "1 < s"
  shows "\<exists>md'. parse_sequence md s c = Inr md' \<and> awaiting 1 (unat s - 1) md'"
proof -
  obtain md' d where md': "parse_sequence md s c = Inr md'" "rewinding_from 1 (unat s - 1) md'"
    "sent_datagrams md' = sent_datagrams md @ [d]"
    "get_mold_DownstreamHeader d = \<lparr>dh_session = m_sessionName md, dh_sequence_number = be64toh 1,
      dh_message_count = be16toh (of_nat (unat s - 1))\<rparr>"
    using start_rewind [OF assms] by blast
  have "s \<noteq> 1" using assms(5) by auto
  then have "m_lastRequestedSequenceNumber md' = 1" "m_sessionName md' = m_sessionName md"
    using md'(1) assms by (auto simp: parse_sequence_def)
  then show ?thesis using md' assms(4) by (auto simp: awaiting_def pending_request_def request_of_def Let_def)
qed

lemma awaiting_step:
  assumes aw: "awaiting a k md" and c: "0 < unat c" "a + unat c \<le> Suc k"
  shows "\<exists>md'. parse_sequence md (of_nat a) c = Inr md' \<and>
    (if a + unat c = Suc k then m_state md' = Continuous \<and> m_missingSequenceNumbers md' = []
     else awaiting (a + unat c) k md')"
proof (cases "a + unat c = Suc k")
  case True
  then show ?thesis using rewind_step [OF _ c(2), of md] aw by (auto simp: awaiting_def)
next
  case False
  let ?b = "a + unat c"
  let ?md = "md\<lparr>m_missingSequenceNumbers := missing_range ?b k\<rparr>"
  have rw: "rewinding_from a k md" and k: "Suc k < 2 ^ 64" "?b \<le> k"
    using aw False c by (auto simp: awaiting_def rewinding_from_def)
  have step: "parse_sequence md (of_nat a) c = Inr (continue_rewind ?md)"
    using rewind_step_state [OF rw c(2)] False by (simp add: Let_def)
  have ends: "last (missing_range ?b k) = of_nat ?b" "hd (missing_range ?b k) + 1 = of_nat (Suc k)"
    using missing_range_back(1) [OF k(2)] missing_range_front [OF k(2)] by simp_all
  have unat: "unat (of_nat a :: u64) = a" "unat (of_nat ?b :: u64) = ?b" "unat (of_nat (Suc k) :: u64) = Suc k"
    using k by (intro unat_of_nat_u64; simp)+
  have ne: "(of_nat a :: u64) \<noteq> of_nat ?b" using unat(1,2) c(1) by (metis add_cancel_right_right less_irrefl)
  have less: "(of_nat ?b :: u64) < of_nat (Suc k)" using unat k(2) by (simp add: word_less_nat_alt del: of_nat_Suc of_nat_add)
  have count: "(ucast (of_nat (Suc k) - of_nat ?b :: u64) :: u16) = of_nat (Suc k - ?b)"
  proof -
    have "(of_nat (Suc k) - of_nat ?b :: u64) = of_nat (Suc k - ?b)" using k(2) by (simp only: of_nat_diff le_SucI)
    moreover have "unat (of_nat (Suc k - ?b) :: u64) = Suc k - ?b" using k by (intro unat_of_nat_u64) simp
    ultimately show ?thesis by (metis of_nat_unat)
  qed
  let ?req = "requestMissingPackets (?md\<lparr>m_lastRequestedSequenceNumber := of_nat ?b\<rparr>) (of_nat ?b) (of_nat (Suc k))"
  have cont: "continue_rewind ?md = ?req"
    using aw ends ne by (simp add: continue_rewind_def awaiting_def Let_def del: of_nat_Suc of_nat_add)
  have "pending_request ?req = (of_nat ?b, of_nat (Suc k - ?b))"
    using request_pending [OF _ less, of "?md\<lparr>m_lastRequestedSequenceNumber := of_nat ?b\<rparr>"] aw count
    by (simp add: awaiting_def del: of_nat_Suc of_nat_add)
  then have "awaiting ?b k (continue_rewind ?md)"
    using aw rewind_step [OF rw c(2)] step False cont by (auto simp: awaiting_def simp del: of_nat_Suc of_nat_add)
  then show ?thesis using step False by auto
qed

section \<open>Many rounds\<close>

lemma awaiting_round:
  assumes aw: "awaiting a k md" and ans: "answers_some answer" and n: "(Suc k - a) mod 2 ^ 16 \<noteq> 0"
  shows "\<exists>c md'. 0 < c \<and> c \<le> (Suc k - a) mod 2 ^ 16 \<and>
    recovery_rounds answer (Suc m) md = recovery_rounds answer m md' \<and>
    (if a + c = Suc k then m_state md' = Continuous \<and> m_missingSequenceNumbers md' = [] else awaiting (a + c) k md')"
proof -
  let ?n = "of_nat (Suc k - a) :: u16"
  have u: "unat ?n = (Suc k - a) mod 2 ^ 16" by (simp add: unat_of_nat)
  have c: "0 < unat (answer (of_nat a) ?n)" "unat (answer (of_nat a) ?n) \<le> (Suc k - a) mod 2 ^ 16"
    using ans n u unfolding answers_some_def by (metis bot_nat_0.not_eq_extremum)+
  then have "a + unat (answer (of_nat a) ?n) \<le> Suc k"
    using mod_less_eq_dividend [of "Suc k - a" "2 ^ 16"] by linarith
  then obtain md' where md': "parse_sequence md (of_nat a) (answer (of_nat a) ?n) = Inr md'"
    "if a + unat (answer (of_nat a) ?n) = Suc k then m_state md' = Continuous \<and> m_missingSequenceNumbers md' = []
     else awaiting (a + unat (answer (of_nat a) ?n)) k md'"
    using awaiting_step [OF aw c(1)] by blast
  have "?n \<noteq> 0" using n u by (metis unat_0)
  then have "recovery_rounds answer (Suc m) md = recovery_rounds answer m md'"
    using aw md'(1) by (simp add: awaiting_def rewinding_from_def)
  then show ?thesis using c md'(2) by blast
qed

lemma recovery_small:
  assumes "answers_some answer" and "awaiting a k md" and "Suc k - a < 2 ^ 16" and "Suc k - a \<le> n"
  shows "\<exists>md'. recovery_rounds answer n md = Inr md' \<and> m_state md' = Continuous \<and> m_missingSequenceNumbers md' = []"
  using assms(2-4)
proof (induction n arbitrary: a md)
  case 0
  then show ?case by (auto simp: awaiting_def rewinding_from_def)
next
  case (Suc n)
  have "(Suc k - a) mod 2 ^ 16 \<noteq> 0" using Suc.prems(1,2) by (auto simp: awaiting_def rewinding_from_def)
  then obtain c md' where c: "0 < c" "c \<le> Suc k - a" "recovery_rounds answer (Suc n) md = recovery_rounds answer n md'"
    "if a + c = Suc k then m_state md' = Continuous \<and> m_missingSequenceNumbers md' = [] else awaiting (a + c) k md'"
    using awaiting_round [OF Suc.prems(1) assms(1), of n] Suc.prems(2) by auto
  show ?case
  proof (cases "a + c = Suc k")
    case True
    then have "recovery_rounds answer n md' = Inr md'" using c(4) by (cases n) (simp_all split: prod.splits)
    then show ?thesis using True c(3,4) by auto
  next
    case False
    then show ?thesis using Suc.IH [of "a + c" md'] Suc.prems(2,3) c by auto
  qed
qed

text \<open>The 16 bits of the count run out before the missing numbers do, and then nothing is requested any more.\<close>

lemma recovery_large:
  assumes "answers_some answer" and "awaiting a k md" and "2 ^ 16 \<le> Suc k - a"
  shows "\<exists>a' md'. recovery_rounds answer n md = Inr md' \<and> awaiting a' k md' \<and> 2 ^ 16 \<le> Suc k - a'"
  using assms(2,3)
proof (induction n arbitrary: a md)
  case (Suc n)
  show ?case
  proof (cases "(Suc k - a) mod 2 ^ 16 = 0")
    case True
    then have "(of_nat (Suc k - a) :: u16) = 0" by (simp add: word_unat_eq_iff unat_of_nat)
    then have "recovery_rounds answer (Suc n) md = Inr md" using Suc.prems(1) by (simp add: awaiting_def)
    then show ?thesis using Suc.prems by auto
  next
    case False
    then obtain c md' where c: "0 < c" "c \<le> (Suc k - a) mod 2 ^ 16"
      "recovery_rounds answer (Suc n) md = recovery_rounds answer n md'"
      "if a + c = Suc k then m_state md' = Continuous \<and> m_missingSequenceNumbers md' = [] else awaiting (a + c) k md'"
      using awaiting_round [OF Suc.prems(1) assms(1), of n] by blast
    define r where "r = Suc k - a"
    have "1 \<le> r div 2 ^ 16" using div_le_mono [OF Suc.prems(2), of "2 ^ 16"] by (simp add: r_def)
    then have "2 ^ 16 \<le> r - r mod 2 ^ 16" using minus_mod_eq_mult_div [of r "2 ^ 16"] by simp
    then have "2 ^ 16 \<le> Suc k - a - c" using c(2) unfolding r_def by linarith
    then show ?thesis using Suc.IH [of "a + c" md'] c(3,4) by auto
  qed
qed auto

section \<open>Properties\<close>

text \<open>
  C13. A client that joins a session at number \<open>s\<close> recovers in a dialogue with any rewinder that answers requests with
  some of the messages exactly when fewer than 65536 are missing: then as many rounds as there are missing
  messages are enough to reach the continuous state.  Otherwise no number of rounds is enough, because the
  16 bits of the requested count reach zero while messages are still missing.
\<close>

theorem recovery_dialogue:
  assumes "answers_some answer" and "m_state md = Initial" and "m_nextExpectedSeqNo md = 1"
    and "m_missingSequenceNumbers md = []" and "length (m_sessionName md) = 10" and "1 < s"
    and "parse_sequence md s c = Inr md1"
  shows "if unat s - 1 < 2 ^ 16
    then \<exists>md'. recovery_rounds answer (unat s - 1) md1 = Inr md' \<and> m_state md' = Continuous \<and> m_missingSequenceNumbers md' = []
    else \<forall>n. \<exists>md'. recovery_rounds answer n md1 = Inr md' \<and> m_state md' = Rewinding \<and> m_missingSequenceNumbers md' \<noteq> []"
proof (cases "unat s - 1 < 2 ^ 16")
  case True
  have "awaiting 1 (unat s - 1) md1" using start_awaiting [OF assms(2-6), of c] assms(7) by simp
  then show ?thesis using recovery_small [OF assms(1)] True by simp
next
  case False
  have "awaiting 1 (unat s - 1) md1" using start_awaiting [OF assms(2-6), of c] assms(7) by simp
  then have aw: "\<exists>a' md'. recovery_rounds answer n md1 = Inr md' \<and> awaiting a' (unat s - 1) md'" for n
    using recovery_large [OF assms(1), of 1 "unat s - 1" md1 n] False by fastforce
  have "\<exists>md'. recovery_rounds answer n md1 = Inr md' \<and> m_state md' = Rewinding \<and> m_missingSequenceNumbers md' \<noteq> []" for n
    using aw [of n] by (auto simp: awaiting_def rewinding_from_def missing_range_empty)
  then show ?thesis using False by simp
qed

theorem recovery_dialogue_witness:
  "(\<exists>md1 md'. parse_sequence MarketDataClient_init 6 1 = Inr md1 \<and>
      recovery_rounds (\<lambda>s n. n) 5 md1 = Inr md' \<and> m_state md' = Continuous) \<and>
   (\<exists>md1. parse_sequence MarketDataClient_init 70000 1 = Inr md1 \<and>
      (\<forall>n. \<exists>md'. recovery_rounds (\<lambda>s n. n) n md1 = Inr md' \<and> m_state md' = Rewinding))"
proof -
  have ans: "answers_some (\<lambda>s n. n)" by (simp add: answers_some_def)
  have init: "m_state MarketDataClient_init = Initial" "m_nextExpectedSeqNo MarketDataClient_init = 1"
    "m_missingSequenceNumbers MarketDataClient_init = []" "length (m_sessionName MarketDataClient_init) = 10"
    by (simp_all add: MarketDataClient_init_def)
  obtain md1 where 1: "parse_sequence MarketDataClient_init 6 1 = Inr md1"
    using start_awaiting [OF init, of 6 1] by auto
  obtain md2 where 2: "parse_sequence MarketDataClient_init 70000 1 = Inr md2"
    using start_awaiting [OF init, of 70000 1] by auto
  show ?thesis
    using recovery_dialogue [OF ans init _ 1] recovery_dialogue [OF ans init _ 2] 1 2 by auto
qed

end
