(* ===== verification/Ouch_Messages.thy ===== *)
theory Ouch_Messages
  imports Protocol_Types
begin

text \<open>
  The OUCH messages of \<^verbatim>\<open>src/lib/protocol/ouch\<close> and the SoupBinTCP packets of
  \<^verbatim>\<open>src/lib/protocol/soupbintcp\<close> as packed structures.  The width of each interpretation of
  \<open>wire_codec\<close> is the size its header asserts.
\<close>

section \<open>SoupBinTCP\<close>

subsection \<open>\<^verbatim>\<open>soupbintcp_login_request.hpp\<close>\<close>

record soup_LoginRequest =
  lr_packetLength :: u16
  lr_packetType :: byte
  lr_username :: "byte list"
  lr_password :: "byte list"
  lr_sessionName :: "byte list"
  lr_sequenceNumber :: "byte list"

definition valid_soup_LoginRequest :: "soup_LoginRequest \<Rightarrow> bool" where [layout]:
  "valid_soup_LoginRequest m \<longleftrightarrow>
     length (lr_username m) = 6 \<and>
     length (lr_password m) = 10 \<and>
     length (lr_sessionName m) = SESSION_NAME_SIZE \<and>
     length (lr_sequenceNumber m) = 20"

definition put_soup_LoginRequest :: "soup_LoginRequest \<Rightarrow> byte list" where [layout]:
  "put_soup_LoginRequest m =
     put16 (lr_packetLength m) @
     put8 (lr_packetType m) @
     lr_username m @
     lr_password m @
     lr_sessionName m @
     lr_sequenceNumber m"

definition get_soup_LoginRequest :: "byte list \<Rightarrow> soup_LoginRequest" where [layout]:
  "get_soup_LoginRequest bs =
     \<lparr>lr_packetLength = get16 bs,
      lr_packetType = get8 (drop 2 bs),
      lr_username = take 6 (drop 3 bs),
      lr_password = take 10 (drop 9 bs),
      lr_sessionName = take SESSION_NAME_SIZE (drop 19 bs),
      lr_sequenceNumber = take 20 (drop 29 bs)\<rparr>"

interpretation soup_LoginRequest: wire_codec
  49 valid_soup_LoginRequest put_soup_LoginRequest get_soup_LoginRequest
  by unfold_locales (simp_all add: layout wire)

subsection \<open>\<^verbatim>\<open>soupbintcp_login_accepted.hpp\<close>\<close>

record soup_LoginAccepted =
  la_packetLength :: u16
  la_packetType :: byte
  la_session_name :: "byte list"
  la_sequenceNumber :: "byte list"

definition valid_soup_LoginAccepted :: "soup_LoginAccepted \<Rightarrow> bool" where [layout]:
  "valid_soup_LoginAccepted m \<longleftrightarrow>
     length (la_session_name m) = SESSION_NAME_SIZE \<and> length (la_sequenceNumber m) = 20"

definition put_soup_LoginAccepted :: "soup_LoginAccepted \<Rightarrow> byte list" where [layout]:
  "put_soup_LoginAccepted m =
     put16 (la_packetLength m) @
     put8 (la_packetType m) @
     la_session_name m @
     la_sequenceNumber m"

definition get_soup_LoginAccepted :: "byte list \<Rightarrow> soup_LoginAccepted" where [layout]:
  "get_soup_LoginAccepted bs =
     \<lparr>la_packetLength = get16 bs,
      la_packetType = get8 (drop 2 bs),
      la_session_name = take SESSION_NAME_SIZE (drop 3 bs),
      la_sequenceNumber = take 20 (drop 13 bs)\<rparr>"

interpretation soup_LoginAccepted: wire_codec
  33 valid_soup_LoginAccepted put_soup_LoginAccepted get_soup_LoginAccepted
  by unfold_locales (simp_all add: layout wire)

subsection \<open>\<^verbatim>\<open>soupbintcp_login_rejected.hpp\<close>\<close>

record soup_LoginRejected =
  lj_packetLength :: u16
  lj_packetType :: byte
  lj_reject_reason_code :: byte

definition valid_soup_LoginRejected :: "soup_LoginRejected \<Rightarrow> bool" where [layout]:
  "valid_soup_LoginRejected m \<longleftrightarrow> True"

definition put_soup_LoginRejected :: "soup_LoginRejected \<Rightarrow> byte list" where [layout]:
  "put_soup_LoginRejected m =
     put16 (lj_packetLength m) @
     put8 (lj_packetType m) @
     put8 (lj_reject_reason_code m)"

definition get_soup_LoginRejected :: "byte list \<Rightarrow> soup_LoginRejected" where [layout]:
  "get_soup_LoginRejected bs =
     \<lparr>lj_packetLength = get16 bs,
      lj_packetType = get8 (drop 2 bs),
      lj_reject_reason_code = get8 (drop 3 bs)\<rparr>"

interpretation soup_LoginRejected: wire_codec
  4 valid_soup_LoginRejected put_soup_LoginRejected get_soup_LoginRejected
  by unfold_locales (simp_all add: layout wire)

subsection \<open>\<^verbatim>\<open>soupbintcp_logout_request.hpp\<close>\<close>

record soup_LogoutRequest =
  lo_packetLength :: u16
  lo_packetType :: byte

definition valid_soup_LogoutRequest :: "soup_LogoutRequest \<Rightarrow> bool" where [layout]:
  "valid_soup_LogoutRequest m \<longleftrightarrow> True"

definition put_soup_LogoutRequest :: "soup_LogoutRequest \<Rightarrow> byte list" where [layout]:
  "put_soup_LogoutRequest m =
     put16 (lo_packetLength m) @
     put8 (lo_packetType m)"

definition get_soup_LogoutRequest :: "byte list \<Rightarrow> soup_LogoutRequest" where [layout]:
  "get_soup_LogoutRequest bs =
     \<lparr>lo_packetLength = get16 bs,
      lo_packetType = get8 (drop 2 bs)\<rparr>"

interpretation soup_LogoutRequest: wire_codec
  3 valid_soup_LogoutRequest put_soup_LogoutRequest get_soup_LogoutRequest
  by unfold_locales (simp_all add: layout wire)

subsection \<open>\<^verbatim>\<open>soupbintcp_sequenced_data.hpp\<close>\<close>

record soup_SequencedData =
  sd_packetLength :: u16
  sd_packetType :: byte

definition valid_soup_SequencedData :: "soup_SequencedData \<Rightarrow> bool" where [layout]:
  "valid_soup_SequencedData m \<longleftrightarrow> True"

definition put_soup_SequencedData :: "soup_SequencedData \<Rightarrow> byte list" where [layout]:
  "put_soup_SequencedData m =
     put16 (sd_packetLength m) @
     put8 (sd_packetType m)"

definition get_soup_SequencedData :: "byte list \<Rightarrow> soup_SequencedData" where [layout]:
  "get_soup_SequencedData bs =
     \<lparr>sd_packetLength = get16 bs,
      sd_packetType = get8 (drop 2 bs)\<rparr>"

interpretation soup_SequencedData: wire_codec
  3 valid_soup_SequencedData put_soup_SequencedData get_soup_SequencedData
  by unfold_locales (simp_all add: layout wire)

subsection \<open>\<^verbatim>\<open>soupbintcp_unsequenced_data.hpp\<close>\<close>

record soup_UnsequencedData =
  ud_packetLength :: u16
  ud_packetType :: byte

definition valid_soup_UnsequencedData :: "soup_UnsequencedData \<Rightarrow> bool" where [layout]:
  "valid_soup_UnsequencedData m \<longleftrightarrow> True"

definition put_soup_UnsequencedData :: "soup_UnsequencedData \<Rightarrow> byte list" where [layout]:
  "put_soup_UnsequencedData m =
     put16 (ud_packetLength m) @
     put8 (ud_packetType m)"

definition get_soup_UnsequencedData :: "byte list \<Rightarrow> soup_UnsequencedData" where [layout]:
  "get_soup_UnsequencedData bs =
     \<lparr>ud_packetLength = get16 bs,
      ud_packetType = get8 (drop 2 bs)\<rparr>"

interpretation soup_UnsequencedData: wire_codec
  3 valid_soup_UnsequencedData put_soup_UnsequencedData get_soup_UnsequencedData
  by unfold_locales (simp_all add: layout wire)

subsection \<open>\<^verbatim>\<open>soupbintcp_client_heartbeat.hpp\<close>\<close>

record soup_ClientHeartbeat =
  ch_packetLength :: u16
  ch_packetType :: byte

definition valid_soup_ClientHeartbeat :: "soup_ClientHeartbeat \<Rightarrow> bool" where [layout]:
  "valid_soup_ClientHeartbeat m \<longleftrightarrow> True"

definition put_soup_ClientHeartbeat :: "soup_ClientHeartbeat \<Rightarrow> byte list" where [layout]:
  "put_soup_ClientHeartbeat m =
     put16 (ch_packetLength m) @
     put8 (ch_packetType m)"

definition get_soup_ClientHeartbeat :: "byte list \<Rightarrow> soup_ClientHeartbeat" where [layout]:
  "get_soup_ClientHeartbeat bs =
     \<lparr>ch_packetLength = get16 bs,
      ch_packetType = get8 (drop 2 bs)\<rparr>"

interpretation soup_ClientHeartbeat: wire_codec
  3 valid_soup_ClientHeartbeat put_soup_ClientHeartbeat get_soup_ClientHeartbeat
  by unfold_locales (simp_all add: layout wire)

subsection \<open>\<^verbatim>\<open>soupbintcp_server_heartbeat.hpp\<close>\<close>

record soup_ServerHeartbeat =
  sh_packetLength :: u16
  sh_packetType :: byte

definition valid_soup_ServerHeartbeat :: "soup_ServerHeartbeat \<Rightarrow> bool" where [layout]:
  "valid_soup_ServerHeartbeat m \<longleftrightarrow> True"

definition put_soup_ServerHeartbeat :: "soup_ServerHeartbeat \<Rightarrow> byte list" where [layout]:
  "put_soup_ServerHeartbeat m =
     put16 (sh_packetLength m) @
     put8 (sh_packetType m)"

definition get_soup_ServerHeartbeat :: "byte list \<Rightarrow> soup_ServerHeartbeat" where [layout]:
  "get_soup_ServerHeartbeat bs =
     \<lparr>sh_packetLength = get16 bs,
      sh_packetType = get8 (drop 2 bs)\<rparr>"

interpretation soup_ServerHeartbeat: wire_codec
  3 valid_soup_ServerHeartbeat put_soup_ServerHeartbeat get_soup_ServerHeartbeat
  by unfold_locales (simp_all add: layout wire)

subsection \<open>\<^verbatim>\<open>soupbintcp_end_of_session.hpp\<close>\<close>

record soup_EndOfSession =
  eos_packetLength :: u16
  eos_packetType :: byte

definition valid_soup_EndOfSession :: "soup_EndOfSession \<Rightarrow> bool" where [layout]:
  "valid_soup_EndOfSession m \<longleftrightarrow> True"

definition put_soup_EndOfSession :: "soup_EndOfSession \<Rightarrow> byte list" where [layout]:
  "put_soup_EndOfSession m =
     put16 (eos_packetLength m) @
     put8 (eos_packetType m)"

definition get_soup_EndOfSession :: "byte list \<Rightarrow> soup_EndOfSession" where [layout]:
  "get_soup_EndOfSession bs =
     \<lparr>eos_packetLength = get16 bs,
      eos_packetType = get8 (drop 2 bs)\<rparr>"

interpretation soup_EndOfSession: wire_codec
  3 valid_soup_EndOfSession put_soup_EndOfSession get_soup_EndOfSession
  by unfold_locales (simp_all add: layout wire)

section \<open>OUCH\<close>

subsection \<open>\<^verbatim>\<open>ouch_enter_order.hpp\<close>\<close>

record ouch_EnterOrder =
  eo_type :: byte
  eo_order_token :: "byte list"
  eo_orderbook_id :: u32
  eo_side :: byte
  eo_quantity :: u64
  eo_price :: u32
  eo_time_in_force :: byte
  eo_open_close :: byte
  eo_client_account :: "byte list"
  eo_customer_info :: "byte list"
  eo_exchange_info :: "byte list"
  eo_display_quantity :: u64
  eo_client_category :: byte
  eo_offhours :: byte
  eo_reserved :: "byte list"

definition valid_ouch_EnterOrder :: "ouch_EnterOrder \<Rightarrow> bool" where [layout]:
  "valid_ouch_EnterOrder m \<longleftrightarrow>
     length (eo_order_token m) = ORDER_TOKEN_LENGTH \<and>
     length (eo_client_account m) = CLIENT_ACCOUNT_LENGTH \<and>
     length (eo_customer_info m) = CUSTOMER_INFO_LENGTH \<and>
     length (eo_exchange_info m) = EXCHANGE_INFO_LENGTH \<and>
     length (eo_reserved m) = 7"

definition put_ouch_EnterOrder :: "ouch_EnterOrder \<Rightarrow> byte list" where [layout]:
  "put_ouch_EnterOrder m =
     put8 (eo_type m) @
     eo_order_token m @
     put32 (eo_orderbook_id m) @
     put8 (eo_side m) @
     put64 (eo_quantity m) @
     put32 (eo_price m) @
     put8 (eo_time_in_force m) @
     put8 (eo_open_close m) @
     eo_client_account m @
     eo_customer_info m @
     eo_exchange_info m @
     put64 (eo_display_quantity m) @
     put8 (eo_client_category m) @
     put8 (eo_offhours m) @
     eo_reserved m"

definition get_ouch_EnterOrder :: "byte list \<Rightarrow> ouch_EnterOrder" where [layout]:
  "get_ouch_EnterOrder bs =
     \<lparr>eo_type = get8 bs,
      eo_order_token = take ORDER_TOKEN_LENGTH (drop 1 bs),
      eo_orderbook_id = get32 (drop 15 bs),
      eo_side = get8 (drop 19 bs),
      eo_quantity = get64 (drop 20 bs),
      eo_price = get32 (drop 28 bs),
      eo_time_in_force = get8 (drop 32 bs),
      eo_open_close = get8 (drop 33 bs),
      eo_client_account = take CLIENT_ACCOUNT_LENGTH (drop 34 bs),
      eo_customer_info = take CUSTOMER_INFO_LENGTH (drop 50 bs),
      eo_exchange_info = take EXCHANGE_INFO_LENGTH (drop 65 bs),
      eo_display_quantity = get64 (drop 97 bs),
      eo_client_category = get8 (drop 105 bs),
      eo_offhours = get8 (drop 106 bs),
      eo_reserved = take 7 (drop 107 bs)\<rparr>"

interpretation ouch_EnterOrder: wire_codec
  114 valid_ouch_EnterOrder put_ouch_EnterOrder get_ouch_EnterOrder
  by unfold_locales (simp_all add: layout wire)

subsection \<open>\<^verbatim>\<open>ouch_replace_order.hpp\<close>\<close>

record ouch_ReplaceOrder =
  ro_type :: byte
  ro_existing_order_token :: "byte list"
  ro_replacement_order_token :: "byte list"
  ro_quantity :: u64
  ro_price :: u32
  ro_open_close :: byte
  ro_client_account :: "byte list"
  ro_customer_info :: "byte list"
  ro_exchange_info :: "byte list"
  ro_display_quantity :: u64
  ro_client_category :: byte
  ro_reserved :: "byte list"

definition valid_ouch_ReplaceOrder :: "ouch_ReplaceOrder \<Rightarrow> bool" where [layout]:
  "valid_ouch_ReplaceOrder m \<longleftrightarrow>
     length (ro_existing_order_token m) = ORDER_TOKEN_LENGTH \<and>
     length (ro_replacement_order_token m) = ORDER_TOKEN_LENGTH \<and>
     length (ro_client_account m) = CLIENT_ACCOUNT_LENGTH \<and>
     length (ro_customer_info m) = CUSTOMER_INFO_LENGTH \<and>
     length (ro_exchange_info m) = EXCHANGE_INFO_LENGTH \<and>
     length (ro_reserved m) = 8"

definition put_ouch_ReplaceOrder :: "ouch_ReplaceOrder \<Rightarrow> byte list" where [layout]:
  "put_ouch_ReplaceOrder m =
     put8 (ro_type m) @
     ro_existing_order_token m @
     ro_replacement_order_token m @
     put64 (ro_quantity m) @
     put32 (ro_price m) @
     put8 (ro_open_close m) @
     ro_client_account m @
     ro_customer_info m @
     ro_exchange_info m @
     put64 (ro_display_quantity m) @
     put8 (ro_client_category m) @
     ro_reserved m"

definition get_ouch_ReplaceOrder :: "byte list \<Rightarrow> ouch_ReplaceOrder" where [layout]:
  "get_ouch_ReplaceOrder bs =
     \<lparr>ro_type = get8 bs,
      ro_existing_order_token = take ORDER_TOKEN_LENGTH (drop 1 bs),
      ro_replacement_order_token = take ORDER_TOKEN_LENGTH (drop 15 bs),
      ro_quantity = get64 (drop 29 bs),
      ro_price = get32 (drop 37 bs),
      ro_open_close = get8 (drop 41 bs),
      ro_client_account = take CLIENT_ACCOUNT_LENGTH (drop 42 bs),
      ro_customer_info = take CUSTOMER_INFO_LENGTH (drop 58 bs),
      ro_exchange_info = take EXCHANGE_INFO_LENGTH (drop 73 bs),
      ro_display_quantity = get64 (drop 105 bs),
      ro_client_category = get8 (drop 113 bs),
      ro_reserved = take 8 (drop 114 bs)\<rparr>"

interpretation ouch_ReplaceOrder: wire_codec
  122 valid_ouch_ReplaceOrder put_ouch_ReplaceOrder get_ouch_ReplaceOrder
  by unfold_locales (simp_all add: layout wire)

subsection \<open>\<^verbatim>\<open>ouch_cancel_order.hpp\<close>\<close>

record ouch_CancelOrder =
  co_type :: byte
  co_order_token :: "byte list"

definition valid_ouch_CancelOrder :: "ouch_CancelOrder \<Rightarrow> bool" where [layout]:
  "valid_ouch_CancelOrder m \<longleftrightarrow>
     length (co_order_token m) = ORDER_TOKEN_LENGTH"

definition put_ouch_CancelOrder :: "ouch_CancelOrder \<Rightarrow> byte list" where [layout]:
  "put_ouch_CancelOrder m =
     put8 (co_type m) @
     co_order_token m"

definition get_ouch_CancelOrder :: "byte list \<Rightarrow> ouch_CancelOrder" where [layout]:
  "get_ouch_CancelOrder bs =
     \<lparr>co_type = get8 bs,
      co_order_token = take ORDER_TOKEN_LENGTH (drop 1 bs)\<rparr>"

interpretation ouch_CancelOrder: wire_codec
  15 valid_ouch_CancelOrder put_ouch_CancelOrder get_ouch_CancelOrder
  by unfold_locales (simp_all add: layout wire)

subsection \<open>\<^verbatim>\<open>ouch_cancel_by_order_id.hpp\<close>\<close>

record ouch_CancelOrderByOrderId =
  coi_type :: byte
  coi_orderbook_id :: u32
  coi_side :: byte
  coi_order_id :: u64

definition valid_ouch_CancelOrderByOrderId :: "ouch_CancelOrderByOrderId \<Rightarrow> bool" where [layout]:
  "valid_ouch_CancelOrderByOrderId m \<longleftrightarrow> True"

definition put_ouch_CancelOrderByOrderId :: "ouch_CancelOrderByOrderId \<Rightarrow> byte list" where [layout]:
  "put_ouch_CancelOrderByOrderId m =
     put8 (coi_type m) @
     put32 (coi_orderbook_id m) @
     put8 (coi_side m) @
     put64 (coi_order_id m)"

definition get_ouch_CancelOrderByOrderId :: "byte list \<Rightarrow> ouch_CancelOrderByOrderId" where [layout]:
  "get_ouch_CancelOrderByOrderId bs =
     \<lparr>coi_type = get8 bs,
      coi_orderbook_id = get32 (drop 1 bs),
      coi_side = get8 (drop 5 bs),
      coi_order_id = get64 (drop 6 bs)\<rparr>"

interpretation ouch_CancelOrderByOrderId: wire_codec
  14 valid_ouch_CancelOrderByOrderId put_ouch_CancelOrderByOrderId get_ouch_CancelOrderByOrderId
  by unfold_locales (simp_all add: layout wire)

subsection \<open>\<^verbatim>\<open>ouch_order_accepted.hpp\<close>\<close>

record ouch_OrderAccepted =
  oa_type :: byte
  oa_timestamp :: u64
  oa_order_token :: "byte list"
  oa_orderbook_id :: u32
  oa_side :: byte
  oa_order_id :: u64
  oa_quantity :: u64
  oa_price :: u32
  oa_time_in_force :: byte
  oa_open_close :: byte
  oa_client_account :: "byte list"
  oa_order_state :: byte
  oa_customer_info :: "byte list"
  oa_exchange_info :: "byte list"
  oa_pre_trade_quantity :: u64
  oa_display_quantity :: u64
  oa_client_category :: byte
  oa_offhours :: byte
  oa_reserved :: "byte list"

definition valid_ouch_OrderAccepted :: "ouch_OrderAccepted \<Rightarrow> bool" where [layout]:
  "valid_ouch_OrderAccepted m \<longleftrightarrow>
     length (oa_order_token m) = ORDER_TOKEN_LENGTH \<and>
     length (oa_client_account m) = CLIENT_ACCOUNT_LENGTH \<and>
     length (oa_customer_info m) = CUSTOMER_INFO_LENGTH \<and>
     length (oa_exchange_info m) = EXCHANGE_INFO_LENGTH \<and>
     length (oa_reserved m) = 3"

definition put_ouch_OrderAccepted :: "ouch_OrderAccepted \<Rightarrow> byte list" where [layout]:
  "put_ouch_OrderAccepted m =
     put8 (oa_type m) @
     put64 (oa_timestamp m) @
     oa_order_token m @
     put32 (oa_orderbook_id m) @
     put8 (oa_side m) @
     put64 (oa_order_id m) @
     put64 (oa_quantity m) @
     put32 (oa_price m) @
     put8 (oa_time_in_force m) @
     put8 (oa_open_close m) @
     oa_client_account m @
     put8 (oa_order_state m) @
     oa_customer_info m @
     oa_exchange_info m @
     put64 (oa_pre_trade_quantity m) @
     put64 (oa_display_quantity m) @
     put8 (oa_client_category m) @
     put8 (oa_offhours m) @
     oa_reserved m"

definition get_ouch_OrderAccepted :: "byte list \<Rightarrow> ouch_OrderAccepted" where [layout]:
  "get_ouch_OrderAccepted bs =
     \<lparr>oa_type = get8 bs,
      oa_timestamp = get64 (drop 1 bs),
      oa_order_token = take ORDER_TOKEN_LENGTH (drop 9 bs),
      oa_orderbook_id = get32 (drop 23 bs),
      oa_side = get8 (drop 27 bs),
      oa_order_id = get64 (drop 28 bs),
      oa_quantity = get64 (drop 36 bs),
      oa_price = get32 (drop 44 bs),
      oa_time_in_force = get8 (drop 48 bs),
      oa_open_close = get8 (drop 49 bs),
      oa_client_account = take CLIENT_ACCOUNT_LENGTH (drop 50 bs),
      oa_order_state = get8 (drop 66 bs),
      oa_customer_info = take CUSTOMER_INFO_LENGTH (drop 67 bs),
      oa_exchange_info = take EXCHANGE_INFO_LENGTH (drop 82 bs),
      oa_pre_trade_quantity = get64 (drop 114 bs),
      oa_display_quantity = get64 (drop 122 bs),
      oa_client_category = get8 (drop 130 bs),
      oa_offhours = get8 (drop 131 bs),
      oa_reserved = take 3 (drop 132 bs)\<rparr>"

interpretation ouch_OrderAccepted: wire_codec
  135 valid_ouch_OrderAccepted put_ouch_OrderAccepted get_ouch_OrderAccepted
  by unfold_locales (simp_all add: layout wire)

subsection \<open>\<^verbatim>\<open>ouch_order_canceled.hpp\<close>\<close>

record ouch_OrderCanceled =
  ocn_type :: byte
  ocn_timestamp :: u64
  ocn_order_token :: "byte list"
  ocn_orderbook_id :: u32
  ocn_side :: byte
  ocn_order_id :: u64
  ocn_cancel_reason :: byte

definition valid_ouch_OrderCanceled :: "ouch_OrderCanceled \<Rightarrow> bool" where [layout]:
  "valid_ouch_OrderCanceled m \<longleftrightarrow>
     length (ocn_order_token m) = ORDER_TOKEN_LENGTH"

definition put_ouch_OrderCanceled :: "ouch_OrderCanceled \<Rightarrow> byte list" where [layout]:
  "put_ouch_OrderCanceled m =
     put8 (ocn_type m) @
     put64 (ocn_timestamp m) @
     ocn_order_token m @
     put32 (ocn_orderbook_id m) @
     put8 (ocn_side m) @
     put64 (ocn_order_id m) @
     put8 (ocn_cancel_reason m)"

definition get_ouch_OrderCanceled :: "byte list \<Rightarrow> ouch_OrderCanceled" where [layout]:
  "get_ouch_OrderCanceled bs =
     \<lparr>ocn_type = get8 bs,
      ocn_timestamp = get64 (drop 1 bs),
      ocn_order_token = take ORDER_TOKEN_LENGTH (drop 9 bs),
      ocn_orderbook_id = get32 (drop 23 bs),
      ocn_side = get8 (drop 27 bs),
      ocn_order_id = get64 (drop 28 bs),
      ocn_cancel_reason = get8 (drop 36 bs)\<rparr>"

interpretation ouch_OrderCanceled: wire_codec
  37 valid_ouch_OrderCanceled put_ouch_OrderCanceled get_ouch_OrderCanceled
  by unfold_locales (simp_all add: layout wire)

subsection \<open>\<^verbatim>\<open>ouch_order_executed.hpp\<close>\<close>

record ouch_OrderExecuted =
  oex_type :: byte
  oex_timestamp :: u64
  oex_order_token :: "byte list"
  oex_orderbook_id :: u32
  oex_traded_quantity :: u64
  oex_trade_price :: u32
  oex_match_id :: "byte list"
  oex_client_category :: byte
  oex_reserved :: "byte list"

definition valid_ouch_OrderExecuted :: "ouch_OrderExecuted \<Rightarrow> bool" where [layout]:
  "valid_ouch_OrderExecuted m \<longleftrightarrow>
     length (oex_order_token m) = ORDER_TOKEN_LENGTH \<and>
     length (oex_match_id m) = OUCH_MATCH_ID_LENGTH \<and>
     length (oex_reserved m) = 16"

definition put_ouch_OrderExecuted :: "ouch_OrderExecuted \<Rightarrow> byte list" where [layout]:
  "put_ouch_OrderExecuted m =
     put8 (oex_type m) @
     put64 (oex_timestamp m) @
     oex_order_token m @
     put32 (oex_orderbook_id m) @
     put64 (oex_traded_quantity m) @
     put32 (oex_trade_price m) @
     oex_match_id m @
     put8 (oex_client_category m) @
     oex_reserved m"

definition get_ouch_OrderExecuted :: "byte list \<Rightarrow> ouch_OrderExecuted" where [layout]:
  "get_ouch_OrderExecuted bs =
     \<lparr>oex_type = get8 bs,
      oex_timestamp = get64 (drop 1 bs),
      oex_order_token = take ORDER_TOKEN_LENGTH (drop 9 bs),
      oex_orderbook_id = get32 (drop 23 bs),
      oex_traded_quantity = get64 (drop 27 bs),
      oex_trade_price = get32 (drop 35 bs),
      oex_match_id = take OUCH_MATCH_ID_LENGTH (drop 39 bs),
      oex_client_category = get8 (drop 51 bs),
      oex_reserved = take 16 (drop 52 bs)\<rparr>"

interpretation ouch_OrderExecuted: wire_codec
  68 valid_ouch_OrderExecuted put_ouch_OrderExecuted get_ouch_OrderExecuted
  by unfold_locales (simp_all add: layout wire)

subsection \<open>\<^verbatim>\<open>ouch_order_rejected.hpp\<close>\<close>

record ouch_OrderRejected =
  orj_type :: byte
  orj_timestamp :: u64
  orj_order_token :: "byte list"
  orj_reject_code :: u32

definition valid_ouch_OrderRejected :: "ouch_OrderRejected \<Rightarrow> bool" where [layout]:
  "valid_ouch_OrderRejected m \<longleftrightarrow>
     length (orj_order_token m) = ORDER_TOKEN_LENGTH"

definition put_ouch_OrderRejected :: "ouch_OrderRejected \<Rightarrow> byte list" where [layout]:
  "put_ouch_OrderRejected m =
     put8 (orj_type m) @
     put64 (orj_timestamp m) @
     orj_order_token m @
     put32 (orj_reject_code m)"

definition get_ouch_OrderRejected :: "byte list \<Rightarrow> ouch_OrderRejected" where [layout]:
  "get_ouch_OrderRejected bs =
     \<lparr>orj_type = get8 bs,
      orj_timestamp = get64 (drop 1 bs),
      orj_order_token = take ORDER_TOKEN_LENGTH (drop 9 bs),
      orj_reject_code = get32 (drop 23 bs)\<rparr>"

interpretation ouch_OrderRejected: wire_codec
  27 valid_ouch_OrderRejected put_ouch_OrderRejected get_ouch_OrderRejected
  by unfold_locales (simp_all add: layout wire)

subsection \<open>\<^verbatim>\<open>ouch_order_replaced.hpp\<close>\<close>

record ouch_OrderReplaced =
  ord_type :: byte
  ord_timestamp :: u64
  ord_replacement_order_token :: "byte list"
  ord_previous_order_token :: "byte list"
  ord_orderbook_id :: u32
  ord_side :: byte
  ord_order_id :: u64
  ord_quantity :: u64
  ord_price :: u32
  ord_time_in_force :: byte
  ord_open_close :: byte
  ord_client_account :: "byte list"
  ord_order_state :: byte
  ord_customer_info :: "byte list"
  ord_exchange_info :: "byte list"
  ord_pre_trade_quantity :: u64
  ord_display_quantity :: u64
  ord_client_category :: byte

definition valid_ouch_OrderReplaced :: "ouch_OrderReplaced \<Rightarrow> bool" where [layout]:
  "valid_ouch_OrderReplaced m \<longleftrightarrow>
     length (ord_replacement_order_token m) = ORDER_TOKEN_LENGTH \<and>
     length (ord_previous_order_token m) = ORDER_TOKEN_LENGTH \<and>
     length (ord_client_account m) = CLIENT_ACCOUNT_LENGTH \<and>
     length (ord_customer_info m) = CUSTOMER_INFO_LENGTH \<and>
     length (ord_exchange_info m) = EXCHANGE_INFO_LENGTH"

definition put_ouch_OrderReplaced :: "ouch_OrderReplaced \<Rightarrow> byte list" where [layout]:
  "put_ouch_OrderReplaced m =
     put8 (ord_type m) @
     put64 (ord_timestamp m) @
     ord_replacement_order_token m @
     ord_previous_order_token m @
     put32 (ord_orderbook_id m) @
     put8 (ord_side m) @
     put64 (ord_order_id m) @
     put64 (ord_quantity m) @
     put32 (ord_price m) @
     put8 (ord_time_in_force m) @
     put8 (ord_open_close m) @
     ord_client_account m @
     put8 (ord_order_state m) @
     ord_customer_info m @
     ord_exchange_info m @
     put64 (ord_pre_trade_quantity m) @
     put64 (ord_display_quantity m) @
     put8 (ord_client_category m)"

definition get_ouch_OrderReplaced :: "byte list \<Rightarrow> ouch_OrderReplaced" where [layout]:
  "get_ouch_OrderReplaced bs =
     \<lparr>ord_type = get8 bs,
      ord_timestamp = get64 (drop 1 bs),
      ord_replacement_order_token = take ORDER_TOKEN_LENGTH (drop 9 bs),
      ord_previous_order_token = take ORDER_TOKEN_LENGTH (drop 23 bs),
      ord_orderbook_id = get32 (drop 37 bs),
      ord_side = get8 (drop 41 bs),
      ord_order_id = get64 (drop 42 bs),
      ord_quantity = get64 (drop 50 bs),
      ord_price = get32 (drop 58 bs),
      ord_time_in_force = get8 (drop 62 bs),
      ord_open_close = get8 (drop 63 bs),
      ord_client_account = take CLIENT_ACCOUNT_LENGTH (drop 64 bs),
      ord_order_state = get8 (drop 80 bs),
      ord_customer_info = take CUSTOMER_INFO_LENGTH (drop 81 bs),
      ord_exchange_info = take EXCHANGE_INFO_LENGTH (drop 96 bs),
      ord_pre_trade_quantity = get64 (drop 128 bs),
      ord_display_quantity = get64 (drop 136 bs),
      ord_client_category = get8 (drop 144 bs)\<rparr>"

interpretation ouch_OrderReplaced: wire_codec
  145 valid_ouch_OrderReplaced put_ouch_OrderReplaced get_ouch_OrderReplaced
  by unfold_locales (simp_all add: layout wire)

end
