(* ===== verification/Order_Manager.thy ===== *)
theory Order_Manager
  imports Prelude "HOL-Library.Signed_Division"
begin

text \<open>
  \<^verbatim>\<open>src/lib/core/order_manager.hpp\<close>: the client's own orders, kept in an array that is indexed by the
  decimal value of the 14-character order token, and the generator of the tokens.  The lemmas show
  that the array behaves as a map from tokens to orders, what sequence of tokens the generator
  produces, and what survives a restart of the program.
\<close>

section \<open>State\<close>

definition ORDERS_SIZE :: nat where "ORDERS_SIZE = 2 ^ 10"

record Order =
  order_quantity :: u64
  order_orderbook_id :: u32
  order_price :: i32
  order_side :: byte
  order_is_valid :: bool

type_synonym order_token = "byte list"

record OrderManager =
  m_orders :: "Order list"
  m_token :: order_token
  m_originalToReplacementTokens :: "(order_token \<times> order_token) list"

text \<open>\<^verbatim>\<open>std::array<Order, ORDERS_SIZE> m_orders {}\<close> value-initialises every order.\<close>

definition Order_init :: Order where
  "Order_init = \<lparr>order_quantity = 0, order_orderbook_id = 0, order_price = 0, order_side = 0, order_is_valid = True\<rparr>"

section \<open>Construction and destruction\<close>

text \<open>
  The constructor writes the digits of \<^verbatim>\<open>last_order_token_index + 1\<close> from the last position to the
  first.  The sum is taken in 32 bits and then stored in an \<^verbatim>\<open>int\<close>; \<^verbatim>\<open>%\<close> and \<^verbatim>\<open>/\<close> truncate.
\<close>

primrec OrderManager_digits :: "nat \<Rightarrow> int \<Rightarrow> order_token \<Rightarrow> order_token" where
  "OrderManager_digits 0 index tok = tok"
| "OrderManager_digits (Suc i) index tok =
     OrderManager_digits i (index sdiv 10) (tok[i := of_int (48 + index smod 10)])"

definition OrderManager_ctor :: "u32 \<Rightarrow> OrderManager" where
  "OrderManager_ctor last_order_token_index =
     \<lparr>m_orders = replicate ORDERS_SIZE Order_init,
      m_token = OrderManager_digits 14 (sint (last_order_token_index + 1)) (replicate 14 0),
      m_originalToReplacementTokens = []\<rparr>"

text \<open>What the destructor saves as \<^verbatim>\<open>last_used_order_token_index\<close>, computed in 32 bits.\<close>

definition OrderManager_dtor :: "OrderManager \<Rightarrow> u32" where
  "OrderManager_dtor om =
     foldl (\<lambda>token_index c. token_index * 10 + of_int (sint c - 48)) 0 (m_token om)"

section \<open>Tokens and the order array\<close>

definition parse_order_token_decimal :: "order_token \<Rightarrow> u64" where
  "parse_order_token_decimal token = foldl (\<lambda>index c. index * 10 + of_int (sint c - 48)) 0 token"

definition withinRange :: "OrderManager \<Rightarrow> u64 \<Rightarrow> bool" where
  "withinRange om index \<longleftrightarrow> \<not> unat index \<ge> length (m_orders om)"

text \<open>A pointer to an order of the array is its index; \<open>None\<close> is the null pointer.\<close>

definition getOrder_ptr :: "OrderManager \<Rightarrow> order_token \<Rightarrow> nat option" where
  "getOrder_ptr om token =
     (let index = parse_order_token_decimal token
      in if \<not> withinRange om index then None else Some (unat index))"

definition set_order :: "nat \<Rightarrow> (Order \<Rightarrow> Order) \<Rightarrow> OrderManager \<Rightarrow> OrderManager" where
  "set_order i f om = om\<lparr>m_orders := (m_orders om)[i := f (m_orders om ! i)]\<rparr>"

definition orderAccepted ::
  "OrderManager \<Rightarrow> order_token \<Rightarrow> u64 \<Rightarrow> u32 \<Rightarrow> i32 \<Rightarrow> byte \<Rightarrow> OrderManager" where
  "orderAccepted om token quantity orderbook_id price side =
     (let index = parse_order_token_decimal token
      in if \<not> withinRange om index then om
         else set_order (unat index) (\<lambda>order. order\<lparr>order_orderbook_id := orderbook_id,
                order_quantity := quantity, order_price := price, order_side := side\<rparr>) om)"

definition pendingReplace :: "OrderManager \<Rightarrow> order_token \<Rightarrow> order_token \<Rightarrow> OrderManager" where
  "pendingReplace om original_order_token replacement_order_token =
     om\<lparr>m_originalToReplacementTokens :=
          m_originalToReplacementTokens om @ [(original_order_token, replacement_order_token)]\<rparr>"

text \<open>
  The loop runs \<^verbatim>\<open>size_t i\<close> from \<^verbatim>\<open>size() - 1\<close> down while \<^verbatim>\<open>i >= 0\<close>, which always holds: when no
  entry matches, the index after 0 is the largest \<^verbatim>\<open>size_t\<close> and the next access is out of range.
  Position \<open>Suc i\<close> of the recursion is index \<open>i\<close> of the loop.
\<close>

primrec orderReplaced_loop ::
  "(order_token \<times> order_token) list \<Rightarrow> order_token \<Rightarrow> nat \<Rightarrow> order_token result" where
  "orderReplaced_loop pairs replacement_token 0 = Inl OutOfBoundsRead"
| "orderReplaced_loop pairs replacement_token (Suc i) =
     (if snd (pairs ! i) = replacement_token then Inr (fst (pairs ! i))
      else orderReplaced_loop pairs replacement_token i)"

text \<open>\<^verbatim>\<open>std::array<char, 14>::empty()\<close> is constantly false, so the test after the loop never returns.\<close>

definition orderReplaced :: "OrderManager \<Rightarrow> order_token \<Rightarrow> i32 \<Rightarrow> OrderManager result" where
  "orderReplaced om replacement_token price =
     res_bind (orderReplaced_loop (m_originalToReplacementTokens om) replacement_token
                 (length (m_originalToReplacementTokens om)))
       (\<lambda>original_order_token.
         case getOrder_ptr om original_order_token of
           None \<Rightarrow> Inr om
         | Some i \<Rightarrow> Inr (set_order i (\<lambda>order. order\<lparr>order_price := price\<rparr>) om))"

definition executed_order :: "u64 \<Rightarrow> Order \<Rightarrow> Order" where
  "executed_order traded_qty order =
     (let order' = order\<lparr>order_quantity := order_quantity order - traded_qty\<rparr>
      in if order_quantity order' = 0 then order'\<lparr>order_is_valid := False\<rparr> else order')"

definition orderExecuted :: "OrderManager \<Rightarrow> order_token \<Rightarrow> u64 \<Rightarrow> OrderManager" where
  "orderExecuted om token traded_qty =
     (case getOrder_ptr om token of
        None \<Rightarrow> om
      | Some i \<Rightarrow> set_order i (executed_order traded_qty) om)"

definition orderDeleted :: "OrderManager \<Rightarrow> order_token \<Rightarrow> OrderManager" where
  "orderDeleted om token =
     (case getOrder_ptr om token of
        None \<Rightarrow> om
      | Some i \<Rightarrow> set_order i (\<lambda>order. order\<lparr>order_is_valid := False\<rparr>) om)"

text \<open>
  The branchless increment, from the last character to the first: the carry into a digit is whether
  the digit to its right was a nine.
\<close>

primrec nextToken_loop :: "nat \<Rightarrow> int \<Rightarrow> order_token \<Rightarrow> order_token" where
  "nextToken_loop 0 carry tok = tok"
| "nextToken_loop (Suc i) carry tok =
     (let is_nine = (if tok ! i = ascii CHR ''9'' then 1 else 0);
          tok' = tok[i := of_int (48 + (sint (tok ! i) - 48 + carry) smod 10)]
      in nextToken_loop i is_nine tok')"

definition nextToken :: "OrderManager \<Rightarrow> OrderManager \<times> order_token" where
  "nextToken om =
     (let tok = nextToken_loop 14 1 (m_token om) in (om\<lparr>m_token := tok\<rparr>, tok))"

section \<open>Decimal tokens\<close>

definition is_digit :: "byte \<Rightarrow> bool" where
  "is_digit c \<longleftrightarrow> 48 \<le> unat c \<and> unat c \<le> 57"

definition digit_token :: "order_token \<Rightarrow> bool" where
  "digit_token tok \<longleftrightarrow> length tok = 14 \<and> list_all is_digit tok"

text \<open>The value of a digit string, least significant digit first.\<close>

primrec lsd_val :: "byte list \<Rightarrow> nat" where
  "lsd_val [] = 0"
| "lsd_val (c # cs) = (unat c - 48) + 10 * lsd_val cs"

definition dec_val :: "order_token \<Rightarrow> nat" where
  "dec_val tok = lsd_val (rev tok)"

lemma lsd_val_append: "lsd_val (xs @ ys) = lsd_val xs + 10 ^ length xs * lsd_val ys"
  by (induction xs) (simp_all add: algebra_simps)

lemma dec_val_snoc: "dec_val (tok @ [c]) = 10 * dec_val tok + (unat c - 48)"
  by (simp add: dec_val_def)

lemma lsd_val_less: "list_all is_digit cs \<Longrightarrow> lsd_val cs < 10 ^ length cs"
  by (induction cs) (auto simp: is_digit_def)

lemma dec_val_less: "digit_token tok \<Longrightarrow> dec_val tok < 10 ^ 14"
  using lsd_val_less [of "rev tok"] by (simp add: dec_val_def digit_token_def list_all_rev)

lemma digit_split: "(a :: nat) + 10 * x = b + 10 * y \<Longrightarrow> a < 10 \<Longrightarrow> b < 10 \<Longrightarrow> a = b \<and> x = y"
  by presburger

lemma lsd_val_inject:
  "list_all is_digit cs \<Longrightarrow> list_all is_digit ds \<Longrightarrow> length cs = length ds \<Longrightarrow>
   lsd_val cs = lsd_val ds \<Longrightarrow> cs = ds"
proof (induction cs arbitrary: ds)
  case (Cons c cs)
  then obtain d ds' where ds: "ds = d # ds'" by (cases ds) auto
  have eq: "(unat c - 48) + 10 * lsd_val cs = (unat d - 48) + 10 * lsd_val ds'"
    using Cons.prems(4) by (simp add: ds)
  have small: "unat c - 48 < 10" "unat d - 48 < 10" using Cons.prems(1,2) by (auto simp: ds is_digit_def)
  have "unat c - 48 = unat d - 48" "lsd_val cs = lsd_val ds'"
    using digit_split [OF eq small] by auto
  moreover have "unat c = unat d"
    using calculation(1) Cons.prems(1,2) by (auto simp: ds is_digit_def)
  then have "c = d" by (simp only: word_unat_eq_iff)
  ultimately show ?case using Cons.IH [of ds'] Cons.prems(1-3) by (simp add: ds)
qed simp

lemma dec_val_inject: "digit_token s \<Longrightarrow> digit_token t \<Longrightarrow> dec_val s = dec_val t \<longleftrightarrow> s = t"
  using lsd_val_inject [of "rev s" "rev t"] by (auto simp: dec_val_def digit_token_def list_all_rev)

lemma sint_digit: "is_digit c \<Longrightarrow> sint c - 48 = int (unat c - 48)"
proof -
  assume d: "is_digit c"
  have "int (unat c) < 2 ^ 7" using d by (simp add: is_digit_def del: of_nat_unat)
  then have small: "uint c < 2 ^ 7" by (simp only: uint_nat)
  have "signed_take_bit 7 (uint c) = uint c"
    using small by (intro signed_take_bit_int_eq_self order_trans [OF _ uint_ge_0]) simp_all
  then have "sint c = int (unat c)" by (simp only: sint_uint uint_nat) simp
  then show ?thesis using d by (simp add: is_digit_def of_nat_diff)
qed

lemma token_foldl:
  "list_all is_digit tok \<Longrightarrow>
   foldl (\<lambda>index c. index * 10 + of_int (sint c - 48)) 0 tok = (of_nat (dec_val tok) :: 'a::len word)"
proof (induction tok rule: rev_induct)
  case (snoc c tok)
  then show ?case by (simp add: dec_val_snoc sint_digit algebra_simps del: of_int_diff)
qed (simp add: dec_val_def)

lemma parse_digit_token: "digit_token tok \<Longrightarrow> unat (parse_order_token_decimal tok) = dec_val tok"
  using dec_val_less [of tok] token_foldl [of tok, where 'a = 64]
  by (simp add: parse_order_token_decimal_def digit_token_def unat_of_nat)

section \<open>The array as a map from tokens to orders\<close>

definition om_ok :: "OrderManager \<Rightarrow> bool" where
  "om_ok om \<longleftrightarrow> length (m_orders om) = ORDERS_SIZE \<and> digit_token (m_token om)"

definition order_of :: "OrderManager \<Rightarrow> order_token \<Rightarrow> Order option" where
  "order_of om token = map_option (\<lambda>i. m_orders om ! i) (getOrder_ptr om token)"

text \<open>
  A store of orders under keys, as the response handlers use it.  What the handlers promise follows
  from the two laws of a lookup after a change: how one order ends up depends on its own messages
  only, in their order.
\<close>

locale order_store =
  fixes inv :: "'s \<Rightarrow> bool" and key :: "'t \<Rightarrow> bool" and lookup :: "'s \<Rightarrow> 't \<Rightarrow> 'o option"
    and modify :: "'t \<Rightarrow> ('o \<Rightarrow> 'o) \<Rightarrow> 's \<Rightarrow> 's"
  assumes inv_modify: "inv s \<Longrightarrow> inv (modify t f s)"
    and lookup_same: "inv s \<Longrightarrow> key t \<Longrightarrow> lookup (modify t f s) t = map_option f (lookup s t)"
    and lookup_other: "inv s \<Longrightarrow> key t \<Longrightarrow> key u \<Longrightarrow> t \<noteq> u \<Longrightarrow> lookup (modify t f s) u = lookup s u"
begin

lemma inv_run: "inv s \<Longrightarrow> inv (fold (\<lambda>(t, f). modify t f) es s)"
  by (induction es arbitrary: s) (auto simp: inv_modify)

lemma run_projection:
  assumes "inv s" and "key u" and "\<forall>(t, f) \<in> set es. key t"
  shows "lookup (fold (\<lambda>(t, f). modify t f) es s) u =
    map_option (fold (\<lambda>(t, f). f) (filter (\<lambda>(t, f). t = u) es)) (lookup s u)"
  using assms(1,3)
proof (induction es arbitrary: s)
  case Nil
  then show ?case by (simp add: option.map_id0 [unfolded id_def])
next
  case (Cons e es)
  obtain t f where e: "e = (t, f)" by (cases e)
  have "lookup (modify t f s) u = (if t = u then map_option f (lookup s u) else lookup s u)"
    using Cons.prems assms(2) lookup_same lookup_other by (auto simp: e)
  then show ?case
    using Cons inv_modify [of s t f] by (auto simp: e option.map_comp comp_def)
qed

end

definition modify_order :: "order_token \<Rightarrow> (Order \<Rightarrow> Order) \<Rightarrow> OrderManager \<Rightarrow> OrderManager" where
  "modify_order token f om =
     (case getOrder_ptr om token of None \<Rightarrow> om | Some i \<Rightarrow> set_order i f om)"

lemma getOrder_ptr_set [simp]: "getOrder_ptr (set_order i f om) token = getOrder_ptr om token"
  by (simp add: getOrder_ptr_def withinRange_def set_order_def)

lemma getOrder_ptr_bound: "getOrder_ptr om token = Some i \<Longrightarrow> i < length (m_orders om)"
  by (auto simp: getOrder_ptr_def withinRange_def Let_def split: if_splits)

lemma getOrder_ptr_digits:
  "digit_token t \<Longrightarrow> getOrder_ptr om t =
     (if dec_val t < length (m_orders om) then Some (dec_val t) else None)"
  by (simp add: getOrder_ptr_def withinRange_def parse_digit_token)

interpretation orders: order_store om_ok digit_token order_of modify_order
proof
  fix om t u f
  show "om_ok om \<Longrightarrow> om_ok (modify_order t f om)"
    by (auto simp: om_ok_def modify_order_def set_order_def split: option.splits)
  show "order_of (modify_order t f om) t = map_option f (order_of om t)"
    by (cases "getOrder_ptr om t")
      (auto simp: order_of_def modify_order_def dest: getOrder_ptr_bound, simp add: set_order_def getOrder_ptr_bound)
  assume "digit_token t" "digit_token u" "t \<noteq> u"
  then have "dec_val t \<noteq> dec_val u" using dec_val_inject by blast
  then show "order_of (modify_order t f om) u = order_of om u"
    using \<open>digit_token t\<close> \<open>digit_token u\<close>
    by (auto simp: order_of_def modify_order_def getOrder_ptr_digits set_order_def)
qed

text \<open>The response handlers are changes of the order of their token.\<close>

lemma handlers_modify:
  "orderAccepted om token quantity orderbook_id price side =
     modify_order token (\<lambda>order. order\<lparr>order_orderbook_id := orderbook_id,
       order_quantity := quantity, order_price := price, order_side := side\<rparr>) om"
  "orderExecuted om token traded_qty = modify_order token (executed_order traded_qty) om"
  "orderDeleted om token = modify_order token (\<lambda>order. order\<lparr>order_is_valid := False\<rparr>) om"
  by (simp_all add: modify_order_def orderAccepted_def orderExecuted_def orderDeleted_def
      getOrder_ptr_def Let_def)

section \<open>The token generator\<close>

text \<open>The increment on the digits themselves, least significant first.\<close>

primrec lsd_next :: "nat \<Rightarrow> byte list \<Rightarrow> byte list" where
  "lsd_next carry [] = []"
| "lsd_next carry (c # cs) =
     of_nat (48 + (unat c - 48 + carry) mod 10) # lsd_next (if unat c = 57 then 1 else 0) cs"

lemma length_lsd_next [simp]: "length (lsd_next carry cs) = length cs"
  by (induction cs arbitrary: carry) auto

lemma nine_unat: "c = ascii CHR ''9'' \<longleftrightarrow> unat c = 57"
  by (simp add: ascii_def word_unat_eq_iff)

lemma unat_next_digit: "unat (of_nat (48 + k mod 10) :: byte) = 48 + k mod 10"
proof -
  have "48 + k mod 10 < 256" by (rule le_less_trans [of _ 57]) auto
  then show ?thesis by (simp add: unat_of_nat del: of_nat_add)
qed

lemma smod_nat: "int n smod 10 = int (n mod 10)" and sdiv_nat: "int n sdiv 10 = int (n div 10)"
  by (cases "n = 0"; simp add: smod_int_alt_def signed_divide_int_def zmod_int zdiv_int)+

lemma next_digit:
  assumes "is_digit c"
  shows "of_int (48 + (sint c - 48 + int carry) smod 10) = (of_nat (48 + (unat c - 48 + carry) mod 10) :: byte)"
proof -
  have "(int (unat c - 48) + int carry) smod 10 = int ((unat c - 48 + carry) mod 10)"
    using smod_nat [of "unat c - 48 + carry"] by simp
  then show ?thesis unfolding sint_digit [OF assms]
    by (metis of_int_of_nat_eq of_nat_add of_nat_numeral)
qed

lemma nextToken_loop_lsd:
  assumes "n \<le> length tok" and "list_all is_digit tok"
  shows "nextToken_loop n (int carry) tok = rev (lsd_next carry (rev (take n tok))) @ drop n tok"
  using assms
proof (induction n arbitrary: carry tok)
  case (Suc i)
  let ?d = "of_nat (48 + (unat (tok ! i) - 48 + carry) mod 10) :: byte"
  let ?nine = "if unat (tok ! i) = 57 then 1 else 0 :: nat"
  have i: "i < length tok" "is_digit (tok ! i)" using Suc.prems by (auto simp: list_all_length)
  have digit: "is_digit ?d" unfolding is_digit_def unat_next_digit by auto
  have all: "list_all is_digit (tok[i := ?d])"
    using Suc.prems(2) digit set_update_subset_insert [of tok i ?d] by (auto simp: list_all_iff)
  have "nextToken_loop (Suc i) (int carry) tok = nextToken_loop i (int ?nine) (tok[i := ?d])"
    using next_digit [OF i(2), of carry] by (simp add: nine_unat Let_def)
  also have "\<dots> = rev (lsd_next ?nine (rev (take i tok))) @ ?d # drop (Suc i) tok"
    using Suc.IH [of "tok[i := ?d]" ?nine] all i(1) by (simp add: drop_update_swap Cons_nth_drop_Suc [symmetric])
  finally show ?case using i(1) by (simp add: take_Suc_conv_app_nth)
qed simp

primrec carry_out :: "nat \<Rightarrow> byte list \<Rightarrow> nat" where
  "carry_out carry [] = carry"
| "carry_out carry (c # cs) = carry_out (if unat c = 57 then 1 else 0) cs"

text \<open>A nine that receives no carry emits one all the same: the carries out of thin air.\<close>

primrec spurious :: "nat \<Rightarrow> byte list \<Rightarrow> nat" where
  "spurious carry [] = 0"
| "spurious carry (c # cs) =
     (if unat c = 57 \<and> carry = 0 then 10 else 0) + 10 * spurious (if unat c = 57 then 1 else 0) cs"

lemma lsd_next_val:
  assumes "list_all is_digit cs" and "carry \<le> 1"
  shows "lsd_val (lsd_next carry cs) + 10 ^ length cs * carry_out carry cs =
    lsd_val cs + carry + spurious carry cs"
  using assms
proof (induction cs arbitrary: carry)
  case (Cons c cs)
  let ?k = "if unat c = 57 then 1 else 0 :: nat"
  have ih: "lsd_val (lsd_next ?k cs) + 10 ^ length cs * carry_out ?k cs =
      lsd_val cs + ?k + spurious ?k cs"
    using Cons.prems by (intro Cons.IH) auto
  have d: "48 \<le> unat c" "unat c \<le> 57" using Cons.prems(1) by (auto simp: is_digit_def)
  have "carry = 0 \<or> carry = 1" using Cons.prems(2) by auto
  then have "(unat c - 48 + carry) mod 10 + 10 * ?k =
      unat c - 48 + carry + (if unat c = 57 \<and> carry = 0 then 10 else 0)"
    using d by (cases "unat c = 57") auto
  then show ?case using ih by (simp add: unat_next_digit algebra_simps del: of_nat_add)
qed simp

lemma lsd_next_digits: "list_all is_digit (lsd_next carry cs)"
  by (induction cs arbitrary: carry) (auto simp: is_digit_def unat_next_digit simp del: of_nat_add)


text \<open>The carries out of thin air of a token, as a number, and the tokens that have none.\<close>

definition skipped :: "order_token \<Rightarrow> nat" where
  "skipped tok = spurious 1 (rev tok)"

primrec nines_low :: "bool \<Rightarrow> byte list \<Rightarrow> bool" where
  "nines_low ok [] \<longleftrightarrow> True"
| "nines_low ok (c # cs) \<longleftrightarrow> (unat c = 57 \<longrightarrow> ok) \<and> nines_low (unat c = 57) cs"

lemma spurious_0_iff: "spurious carry cs = 0 \<longleftrightarrow> nines_low (carry \<noteq> 0) cs"
  by (induction cs arbitrary: carry) auto

lemma nextToken_token:
  assumes "digit_token tok"
  shows "nextToken_loop 14 1 tok = rev (lsd_next 1 (rev tok))"
  using assms nextToken_loop_lsd [of 14 tok 1] by (simp add: digit_token_def)

lemma nextToken_digits:
  assumes "digit_token tok"
  shows "digit_token (nextToken_loop 14 1 tok)"
  using assms lsd_next_digits [of 1 "rev tok"] by (simp add: nextToken_token digit_token_def)

lemma carry_out_last: "cs \<noteq> [] \<Longrightarrow> carry_out carry cs = (if unat (last cs) = 57 then 1 else 0)"
  by (induction cs arbitrary: carry) auto

lemma nextToken_val:
  assumes "digit_token tok"
  shows "dec_val (nextToken_loop 14 1 tok) + (if hd tok = ascii CHR ''9'' then 10 ^ 14 else 0) =
    dec_val tok + 1 + skipped tok"
proof -
  have tok: "list_all is_digit (rev tok)" "length tok = 14" "rev tok \<noteq> []"
    using assms by (auto simp: digit_token_def list_all_rev)
  then show ?thesis
    using lsd_next_val [OF tok(1), of 1] carry_out_last [OF tok(3), of 1]
    by (auto simp: nextToken_token [OF assms] dec_val_def skipped_def nine_unat last_rev split: if_splits)
qed


lemma all_nat_split: "(\<forall>j. P j) \<longleftrightarrow> P 0 \<and> (\<forall>j. P (Suc j))"
  by (metis nat.exhaust)

lemma nines_low_iff:
  "nines_low ok cs \<longleftrightarrow> (cs \<noteq> [] \<longrightarrow> unat (hd cs) = 57 \<longrightarrow> ok) \<and>
     (\<forall>j. Suc j < length cs \<longrightarrow> unat (cs ! Suc j) = 57 \<longrightarrow> unat (cs ! j) = 57)"
proof (induction cs arbitrary: ok)
  case (Cons c cs)
  show ?case unfolding nines_low.simps Cons.IH
    by (subst (2) all_nat_split) (auto simp: hd_conv_nth)
qed simp

text \<open>The nines of a token are at its end exactly when no carry comes out of thin air.\<close>

lemma skipped_0_iff:
  assumes "length tok = 14"
  shows "skipped tok = 0 \<longleftrightarrow> (\<forall>i < 13. tok ! i = ascii CHR ''9'' \<longrightarrow> tok ! Suc i = ascii CHR ''9'')"
proof -
  have "nines_low True (rev tok) \<longleftrightarrow>
      (\<forall>j < 13. unat (rev tok ! Suc j) = 57 \<longrightarrow> unat (rev tok ! j) = 57)"
    unfolding nines_low_iff using assms by auto
  also have "\<dots> \<longleftrightarrow> (\<forall>j < 13. unat (tok ! (12 - j)) = 57 \<longrightarrow> unat (tok ! Suc (12 - j)) = 57)"
  proof -
    have "rev tok ! Suc j = tok ! (12 - j)" "rev tok ! j = tok ! Suc (12 - j)" if "j < 13" for j
      using that assms by (simp_all add: rev_nth flip: Suc_diff_le)
    then show ?thesis by auto
  qed
  also have "\<dots> \<longleftrightarrow> (\<forall>i < 13. unat (tok ! i) = 57 \<longrightarrow> unat (tok ! Suc i) = 57)"
  proof
    assume a: "\<forall>j < 13. unat (tok ! (12 - j)) = 57 \<longrightarrow> unat (tok ! Suc (12 - j)) = 57"
    show "\<forall>i < 13. unat (tok ! i) = 57 \<longrightarrow> unat (tok ! Suc i) = 57"
    proof (intro allI impI)
      fix i :: nat assume i: "i < 13" "unat (tok ! i) = 57"
      have "12 - (12 - i) = i" using i(1) by simp
      then show "unat (tok ! Suc i) = 57" using a [rule_format, of "12 - i"] i by simp
    qed
  qed auto
  finally show ?thesis by (simp add: skipped_def spurious_0_iff nine_unat)
qed

text \<open>The tokens of a run: the generator moves upwards until the first digit is a nine.\<close>

definition token_after :: "nat \<Rightarrow> OrderManager \<Rightarrow> order_token" where
  "token_after n om = m_token (((fst \<circ> nextToken) ^^ n) om)"

lemma token_after_simps:
  "token_after 0 om = m_token om"
  "token_after (Suc n) om = nextToken_loop 14 1 (token_after n om)"
  by (simp_all add: token_after_def nextToken_def Let_def)

lemma token_after_digits: "om_ok om \<Longrightarrow> digit_token (token_after n om)"
  by (induction n) (simp_all add: token_after_simps nextToken_digits om_ok_def)

lemma token_after_increasing:
  assumes "om_ok om" and "i < j" and "\<forall>k < j. hd (token_after k om) \<noteq> ascii CHR ''9''"
  shows "dec_val (token_after i om) < dec_val (token_after j om)"
  using assms(2,3)
proof (induction j)
  case (Suc j)
  have "dec_val (token_after j om) < dec_val (token_after (Suc j) om)"
    using nextToken_val [OF token_after_digits [OF assms(1)], of j] Suc.prems(2)
    by (simp add: token_after_simps)
  then show ?case using Suc by (cases "i = j") (auto simp: less_Suc_eq intro: less_trans)
qed simp

section \<open>Restarting\<close>

primrec lsd_digits :: "int \<Rightarrow> nat \<Rightarrow> nat \<Rightarrow> byte list" where
  "lsd_digits sign 0 v = []"
| "lsd_digits sign (Suc n) v = of_int (48 + sign * int (v mod 10)) # lsd_digits sign n (v div 10)"

lemma sdiv_smod_signed:
  assumes "sign = 1 \<or> sign = - 1"
  shows "(sign * int v) smod 10 = sign * int (v mod 10)" "(sign * int v) sdiv 10 = sign * int (v div 10)"
  using assms smod_nat [of v] sdiv_nat [of v] by auto

lemma OrderManager_digits_lsd:
  assumes "sign = 1 \<or> sign = - 1" and "n \<le> length tok"
  shows "OrderManager_digits n (sign * int v) tok = rev (lsd_digits sign n v) @ drop n tok"
  using assms(2)
proof (induction n arbitrary: v tok)
  case (Suc i)
  then show ?case
    by (simp add: sdiv_smod_signed [OF assms(1)] drop_update_swap Cons_nth_drop_Suc [symmetric])
qed simp

lemma length_lsd_digits [simp]: "length (lsd_digits sign n v) = n"
  by (induction n arbitrary: v) auto

lemma unat_lsd_digit: "unat (of_int (48 + 1 * int (v mod 10)) :: byte) = 48 + v mod 10"
  using unat_next_digit [of v] by (metis mult_1 of_int_of_nat_eq of_nat_add of_nat_numeral)

lemma lsd_digits_val: "lsd_val (lsd_digits 1 n v) = v mod 10 ^ n"
proof (induction n arbitrary: v)
  case (Suc n)
  have "v mod 10 + 10 * (v div 10 mod 10 ^ n) = v mod (10 * 10 ^ n)" by (simp add: mod_mult2_eq)
  then show ?case using Suc unat_lsd_digit [of v] by simp
qed simp

lemma lsd_digits_digits: "list_all is_digit (lsd_digits 1 n v)"
proof (induction n arbitrary: v)
  case (Suc n)
  have "is_digit (of_int (48 + 1 * int (v mod 10)))"
    unfolding is_digit_def unat_lsd_digit by auto
  then show ?case using Suc by simp
qed simp

lemma ctor_token:
  assumes "Suc (unat n) < 2 ^ 31"
  shows "digit_token (m_token (OrderManager_ctor n))" and "dec_val (m_token (OrderManager_ctor n)) = unat n + 1"
proof -
  have "unat (n + 1) = unat n + 1" using assms by (simp add: unat_word_ariths)
  then have v: "sint (n + 1) = 1 * int (unat n + 1)" using sint_small [of "n + 1"] assms by simp
  have tok: "m_token (OrderManager_ctor n) = rev (lsd_digits 1 14 (unat n + 1))"
    unfolding OrderManager_ctor_def v
    using OrderManager_digits_lsd [of 1 14 "replicate 14 0" "unat n + 1"] by simp
  show "digit_token (m_token (OrderManager_ctor n))"
    unfolding tok digit_token_def using lsd_digits_digits by simp
  show "dec_val (m_token (OrderManager_ctor n)) = unat n + 1"
    unfolding tok dec_val_def using lsd_digits_val [of 14 "unat n + 1"] assms by simp
qed

lemma dtor_val: "om_ok om \<Longrightarrow> OrderManager_dtor om = of_nat (dec_val (m_token om))"
  using token_foldl [of "m_token om"] by (simp add: OrderManager_dtor_def om_ok_def digit_token_def)

lemma neg_digit:
  assumes "is_digit (of_int (48 + - 1 * int (v mod 10)))"
  shows "v mod 10 = 0"
proof -
  let ?r = "v mod 10"
  have r: "?r < 10" by simp
  have "(of_int (48 + - 1 * int ?r) :: byte) = of_nat (48 - ?r)"
    using r by (simp add: of_nat_diff flip: of_nat_mod)
  then have "48 \<le> unat (of_nat (48 - ?r) :: byte)" using assms by (simp add: is_digit_def)
  also have "\<dots> \<le> 48 - ?r" by (simp add: unat_of_nat del: of_nat_diff)
  finally show ?thesis by simp
qed

lemma lsd_digits_neg: "list_all is_digit (lsd_digits (- 1) n v) \<Longrightarrow> v mod 10 ^ n = 0"
proof (induction n arbitrary: v)
  case (Suc n)
  then have "v mod 10 = 0" "v div 10 mod 10 ^ n = 0" using neg_digit [of v] by auto
  then show ?case by (simp add: mod_mult2_eq)
qed simp

lemma ctor_not_digits:
  assumes "2 ^ 31 \<le> Suc (unat n)" and "Suc (unat n) < 2 ^ 32"
  shows "\<not> digit_token (m_token (OrderManager_ctor n))"
proof
  assume digits: "digit_token (m_token (OrderManager_ctor n))"
  let ?v = "2 ^ 32 - unat (n + 1)"
  have "unat (n + 1) = Suc (unat n)" using assms(2) by (simp add: unat_word_ariths)
  then have v: "sint (n + 1) = - 1 * int ?v" "0 < ?v" "?v < 10 ^ 14"
    using sint_large [of "n + 1"] assms by simp_all
  have "m_token (OrderManager_ctor n) = rev (lsd_digits (- 1) 14 ?v)"
    unfolding OrderManager_ctor_def v(1)
    using OrderManager_digits_lsd [of "- 1" 14 "replicate 14 0" ?v] by simp
  then have "?v mod 10 ^ 14 = 0"
    using digits lsd_digits_neg [of 14 ?v] by (simp add: digit_token_def list_all_rev)
  then show False using v(2,3) by simp
qed

section \<open>Responses\<close>

text \<open>The responses that change one order, with the token they name.\<close>

datatype om_event =
    Accepted order_token u64 u32 i32 byte
  | Executed order_token u64
  | Deleted order_token

fun om_step :: "OrderManager \<Rightarrow> om_event \<Rightarrow> OrderManager" where
  "om_step om (Accepted t quantity ob price side) = orderAccepted om t quantity ob price side"
| "om_step om (Executed t qty) = orderExecuted om t qty"
| "om_step om (Deleted t) = orderDeleted om t"

fun event_token :: "om_event \<Rightarrow> order_token" where
  "event_token (Accepted t quantity ob price side) = t"
| "event_token (Executed t qty) = t"
| "event_token (Deleted t) = t"

fun event_effect :: "om_event \<Rightarrow> Order \<Rightarrow> Order" where
  "event_effect (Accepted t quantity ob price side) =
     (\<lambda>order. order\<lparr>order_orderbook_id := ob, order_quantity := quantity, order_price := price, order_side := side\<rparr>)"
| "event_effect (Executed t qty) = executed_order qty"
| "event_effect (Deleted t) = (\<lambda>order. order\<lparr>order_is_valid := False\<rparr>)"

lemma om_step_modify: "om_step om e = modify_order (event_token e) (event_effect e) om"
  by (cases e) (simp_all add: handlers_modify)

lemma om_run_modify:
  "fold (\<lambda>e om. om_step om e) es om =
   fold (\<lambda>(t, f). modify_order t f) (map (\<lambda>e. (event_token e, event_effect e)) es) om"
  by (induction es arbitrary: om) (simp_all add: om_step_modify)

lemma om_run_projection:
  assumes "om_ok om" and "digit_token u" and "\<forall>e \<in> set es. digit_token (event_token e)"
  shows "order_of (fold (\<lambda>e om. om_step om e) es om) u =
    map_option (fold event_effect (filter (\<lambda>e. event_token e = u) es)) (order_of om u)"
proof -
  have "fold (\<lambda>(t, f). f) (filter (\<lambda>(t, f). t = u) (map (\<lambda>e. (event_token e, event_effect e)) es)) =
      fold event_effect (filter (\<lambda>e. event_token e = u) es)"
    by (induction es) auto
  then show ?thesis
    using orders.run_projection [OF assms(1,2), of "map (\<lambda>e. (event_token e, event_effect e)) es"] assms(3)
    by (simp add: om_run_modify)
qed

lemma executions_quantity:
  "sum_list (map unat xs) \<le> unat (order_quantity order) \<Longrightarrow>
   unat (order_quantity (fold executed_order xs order)) = unat (order_quantity order) - sum_list (map unat xs) \<and>
   order_is_valid (fold executed_order xs order) =
     (order_is_valid order \<and> (xs = [] \<or> sum_list (map unat xs) < unat (order_quantity order)))"
proof (induction xs arbitrary: order)
  case (Cons x xs)
  let ?o = "executed_order x order"
  have le: "unat x \<le> unat (order_quantity order)" using Cons.prems by simp
  have q: "unat (order_quantity ?o) = unat (order_quantity order) - unat x"
    using le by (simp add: executed_order_def Let_def unat_sub word_le_nat_alt)
  have v: "order_is_valid ?o \<longleftrightarrow> order_is_valid order \<and> unat x < unat (order_quantity order)"
    using le q by (auto simp: executed_order_def Let_def word_unat_eq_iff split: if_splits)
  show ?case using Cons.IH [of ?o] Cons.prems q v by auto
qed simp

lemma orderReplaced_loop_found:
  assumes "rep \<notin> snd ` set later" and "k = length earlier + Suc (length later)"
  shows "orderReplaced_loop (earlier @ (orig, rep) # later) rep k = Inr orig"
proof -
  have "orderReplaced_loop (earlier @ (orig, rep) # later) rep (length earlier + Suc n) = Inr orig"
    if "n \<le> length later" for n
    using that
  proof (induction n)
    case (Suc n)
    have "snd (later ! n) \<noteq> rep" using Suc.prems assms(1) by (metis Suc_le_lessD image_eqI nth_mem)
    then show ?case using Suc by (simp add: nth_append)
  qed simp
  then show ?thesis using assms(2) by simp
qed

lemma orderReplaced_loop_missing:
  "rep \<notin> snd ` set pairs \<Longrightarrow> k \<le> length pairs \<Longrightarrow> orderReplaced_loop pairs rep k = Inl OutOfBoundsRead"
proof (induction k)
  case (Suc k)
  have "snd (pairs ! k) \<noteq> rep" using Suc.prems by (metis Suc_le_lessD image_eqI nth_mem)
  then show ?case using Suc by simp
qed simp

lemma om_ok_ctor: "Suc (unat n) < 2 ^ 31 \<Longrightarrow> om_ok (OrderManager_ctor n)"
  using ctor_token(1) [of n] by (simp add: om_ok_def OrderManager_ctor_def)

definition tok :: "string \<Rightarrow> order_token" where
  "tok s = map ascii s"

lemma digit_ascii: "c \<in> set ''0123456789'' \<Longrightarrow> is_digit (ascii c)"
  unfolding list.set by (elim insertE; simp add: is_digit_def ascii_def)

lemma digit_tok:
  assumes "length s = 14" and "set s \<subseteq> set ''0123456789''"
  shows "digit_token (tok s)"
  using assms digit_ascii unfolding digit_token_def tok_def list_all_iff by auto

lemma fresh_order: "digit_token t \<Longrightarrow> dec_val t < ORDERS_SIZE \<Longrightarrow> order_of (OrderManager_ctor n) t = Some Order_init"
  by (simp add: order_of_def getOrder_ptr_digits OrderManager_ctor_def)

lemma tok7: "digit_token (tok ''00000000000007'')" "dec_val (tok ''00000000000007'') = 7"
  and tok8: "digit_token (tok ''00000000000008'')" "dec_val (tok ''00000000000008'') = 8"
  by (rule digit_tok, simp, simp, simp add: dec_val_def tok_def ascii_def)+

lemma fresh7: "order_of (OrderManager_ctor 0) (tok ''00000000000007'') = Some Order_init"
  by (intro fresh_order tok7) (simp add: tok7 ORDERS_SIZE_def)

section \<open>Properties\<close>

text \<open>
  One order is determined by its own responses: after any sequence of responses with decimal
  tokens, what is stored for a token is what the responses naming it make of the order, in their
  order; the responses to other tokens do not matter.
\<close>

theorem responses_projection:
  assumes "om_ok om" and "digit_token u" and "\<forall>e \<in> set es. digit_token (event_token e)"
  shows "order_of (fold (\<lambda>e om. om_step om e) es om) u =
    map_option (fold event_effect (filter (\<lambda>e. event_token e = u) es)) (order_of om u)"
  using assms by (rule om_run_projection)

theorem responses_projection_witness:
  "map_option order_quantity (order_of (fold (\<lambda>e om. om_step om e)
     [Accepted (tok ''00000000000007'') 10 5 100 66, Accepted (tok ''00000000000008'') 20 5 100 66,
      Executed (tok ''00000000000007'') 4] (OrderManager_ctor 0)) (tok ''00000000000007'')) = Some 6"
proof -
  have "tok ''00000000000008'' \<noteq> tok ''00000000000007''" using tok7 tok8 by auto
  then show ?thesis
    using responses_projection [of "OrderManager_ctor 0" "tok ''00000000000007''"
        "[Accepted (tok ''00000000000007'') 10 5 100 66, Accepted (tok ''00000000000008'') 20 5 100 66,
          Executed (tok ''00000000000007'') 4]"] tok7(1) tok8(1) fresh7
    by (simp add: om_ok_ctor executed_order_def)
qed

text \<open>
  C17. Executions of an order that together take no more than its quantity leave exactly the rest, and
  make the order invalid exactly when nothing is left.
\<close>

theorem executions_leave_rest:
  assumes "om_ok om" and "digit_token t" and "order_of om t = Some order" and "xs \<noteq> []"
    and "sum_list (map unat xs) \<le> unat (order_quantity order)"
  shows "\<exists>order'. order_of (fold (\<lambda>x om. orderExecuted om t x) xs om) t = Some order' \<and>
    unat (order_quantity order') = unat (order_quantity order) - sum_list (map unat xs) \<and>
    (order_is_valid order' \<longleftrightarrow> order_is_valid order \<and> sum_list (map unat xs) < unat (order_quantity order))"
proof -
  have "fold (\<lambda>x om. orderExecuted om t x) xs om = fold (\<lambda>e om. om_step om e) (map (Executed t) xs) om"
    by (induction xs arbitrary: om) simp_all
  moreover have "fold event_effect (filter (\<lambda>e. event_token e = t) (map (Executed t) xs)) order =
      fold executed_order xs order"
    by (induction xs arbitrary: order) simp_all
  ultimately show ?thesis
    using om_run_projection [OF assms(1,2), of "map (Executed t) xs"] assms(2-4)
      executions_quantity [OF assms(5)] by simp
qed

theorem executions_leave_rest_witness:
  "\<exists>order'. order_of (fold (\<lambda>x om. orderExecuted om (tok ''00000000000007'') x) [0] (OrderManager_ctor 0))
      (tok ''00000000000007'') = Some order' \<and> unat (order_quantity order') = 0 \<and> \<not> order_is_valid order'"
  using executions_leave_rest [of "OrderManager_ctor 0" "tok ''00000000000007''" Order_init "[0]"] fresh7 tok7(1)
  by (simp add: om_ok_ctor Order_init_def)

text \<open>
  The value of the next token is the value of the current one plus one plus every carry that a
  nine emits without having received one, modulo \<open>10 ^ 14\<close>; the new token is again decimal.
\<close>

theorem nextToken_value:
  assumes "om_ok om"
  shows "om_ok (fst (nextToken om)) \<and> snd (nextToken om) = m_token (fst (nextToken om)) \<and>
    dec_val (snd (nextToken om)) + (if hd (m_token om) = ascii CHR ''9'' then 10 ^ 14 else 0) =
      dec_val (m_token om) + 1 + skipped (m_token om)"
  using assms nextToken_val [of "m_token om"] nextToken_digits [of "m_token om"]
  by (simp add: om_ok_def nextToken_def Let_def)

theorem nextToken_value_witness:
  "snd (nextToken ((OrderManager_ctor 0)\<lparr>m_token := tok ''00000000000090''\<rparr>)) = tok ''00000000000191'' \<and>
   dec_val (tok ''00000000000191'') = dec_val (tok ''00000000000090'') + 1 + 100"
proof -
  let ?om = "(OrderManager_ctor 0)\<lparr>m_token := tok ''00000000000090''\<rparr>"
  have ok: "om_ok ?om" using om_ok_ctor [of 0] digit_tok [of "''00000000000090''"] by (simp add: om_ok_def)
  have d: "digit_token (snd (nextToken ?om))" "digit_token (tok ''00000000000191'')"
    using nextToken_value [OF ok] by (auto simp: om_ok_def intro: digit_tok)
  have v: "dec_val (tok ''00000000000191'') = 191" "dec_val (tok ''00000000000090'') = 90"
    by (simp_all add: dec_val_def tok_def ascii_def)
  have "hd (tok ''00000000000090'') \<noteq> ascii CHR ''9''" "skipped (tok ''00000000000090'') = 100"
    by (simp_all add: skipped_def tok_def ascii_def)
  then have "dec_val (snd (nextToken ?om)) = 191" using nextToken_value [OF ok] v by auto
  then show ?thesis using d v dec_val_inject by force
qed



text \<open>
  A run of the generator never hands out the same token twice, as long as the first digit has not
  reached nine.
\<close>

theorem tokens_distinct:
  assumes "om_ok om" and "i < j" and "\<forall>k < j. hd (token_after k om) \<noteq> ascii CHR ''9''"
  shows "token_after i om \<noteq> token_after j om"
  using token_after_increasing [OF assms] by auto

theorem tokens_distinct_witness: "token_after 0 (OrderManager_ctor 0) \<noteq> token_after 1 (OrderManager_ctor 0)"
proof -
  have "m_token (OrderManager_ctor 0) = tok ''00000000000001''"
    using ctor_token [of 0] digit_tok [of "''00000000000001''"]
      dec_val_inject [of "m_token (OrderManager_ctor 0)" "tok ''00000000000001''"]
    by (simp add: dec_val_def tok_def ascii_def)
  then have "\<forall>k < 1. hd (token_after k (OrderManager_ctor 0)) \<noteq> ascii CHR ''9''"
    by (simp add: token_after_simps tok_def ascii_def)
  then show ?thesis by (intro tokens_distinct om_ok_ctor) auto
qed

lemma restart_token:
  assumes "om_ok om" and "dec_val (m_token om) + 1 < 2 ^ 31"
  shows "om_ok (OrderManager_ctor (OrderManager_dtor om)) \<and>
    dec_val (m_token (OrderManager_ctor (OrderManager_dtor om))) = dec_val (m_token om) + 1"
proof -
  have "unat (OrderManager_dtor om) = dec_val (m_token om)"
    using assms(2) by (simp add: dtor_val [OF assms(1)] unat_of_nat)
  then show ?thesis
    using assms(2) ctor_token(2) [of "OrderManager_dtor om"] om_ok_ctor [of "OrderManager_dtor om"] by simp
qed

text \<open>
  A saved index of \<open>2147483647\<close> or more (the largest 32-bit value apart) is turned into a token
  that is not decimal, because the digits of a negative \<open>int\<close> are subtracted from the character 0.
\<close>

theorem restart_overflow_not_decimal:
  assumes "2 ^ 31 \<le> Suc (unat last_order_token_index)" and "Suc (unat last_order_token_index) < 2 ^ 32"
  shows "\<not> digit_token (m_token (OrderManager_ctor last_order_token_index))"
  using assms by (rule ctor_not_digits)

theorem restart_overflow_not_decimal_witness:
  "\<not> digit_token (m_token (OrderManager_ctor 2147483647))"
  by (rule restart_overflow_not_decimal) simp_all

text \<open>
  A replacement response changes the price of the order under the original token of the latest
  pending replacement with that replacement token, and nothing else of the store.
\<close>

theorem orderReplaced_price:
  assumes "om_ok om" and "digit_token orig" and "digit_token u"
    and "m_originalToReplacementTokens om = earlier @ (orig, rep) # later" and "rep \<notin> snd ` set later"
  shows "\<exists>om'. orderReplaced om rep price = Inr om' \<and> om_ok om' \<and>
    order_of om' u =
      (if u = orig then map_option (\<lambda>order. order\<lparr>order_price := price\<rparr>) (order_of om u) else order_of om u)"
proof -
  have "orderReplaced om rep price = Inr (modify_order orig (\<lambda>order. order\<lparr>order_price := price\<rparr>) om)"
    using orderReplaced_loop_found [OF assms(5)] assms(4)
    by (simp add: orderReplaced_def modify_order_def split: option.split)
  then show ?thesis
    using orders.inv_modify [OF assms(1)] orders.lookup_same [OF assms(1,2)]
      orders.lookup_other [OF assms(1-3)] by auto
qed

theorem orderReplaced_price_witness:
  "\<exists>om'. orderReplaced (pendingReplace (OrderManager_ctor 0) (tok ''00000000000007'') (tok ''00000000000008''))
      (tok ''00000000000008'') 55 = Inr om' \<and>
    map_option order_price (order_of om' (tok ''00000000000007'')) = Some 55"
proof -
  let ?om = "pendingReplace (OrderManager_ctor 0) (tok ''00000000000007'') (tok ''00000000000008'')"
  have ok: "om_ok ?om" using om_ok_ctor [of 0] by (simp add: om_ok_def pendingReplace_def)
  have "order_of ?om (tok ''00000000000007'') = Some Order_init"
    using fresh7 by (simp add: order_of_def getOrder_ptr_def withinRange_def pendingReplace_def)
  then show ?thesis
    using orderReplaced_price [OF ok, of "tok ''00000000000007''" "tok ''00000000000007''" "[]"
        "tok ''00000000000008''" "[]" 55]
      tok7(1) by (auto simp: pendingReplace_def OrderManager_ctor_def Order_init_def)
qed

text \<open>
  A replacement response without a pending replacement runs the search below index zero and reads
  outside the vector; the check for a missing original token behind the loop is never reached.
\<close>

theorem orderReplaced_unknown_reads_out_of_bounds:
  assumes "rep \<notin> snd ` set (m_originalToReplacementTokens om)"
  shows "orderReplaced om rep price = Inl OutOfBoundsRead"
  using orderReplaced_loop_missing [OF assms] by (simp add: orderReplaced_def)

theorem orderReplaced_unknown_reads_out_of_bounds_witness:
  "orderReplaced (OrderManager_ctor 0) (tok ''00000000000008'') 55 = Inl OutOfBoundsRead"
  by (rule orderReplaced_unknown_reads_out_of_bounds) (simp add: OrderManager_ctor_def)

text \<open>
  The store has 1024 places and a token is its own place: no response to an order whose token is 1024 or more
  has any effect.
\<close>

theorem high_token_not_stored:
  assumes "om_ok om" and "\<forall>e \<in> set es. digit_token (event_token e) \<and> 1024 \<le> dec_val (event_token e)"
  shows "fold (\<lambda>e om. om_step om e) es om = om"
  using assms(2)
proof (induction es)
  case (Cons e es)
  then have "om_step om e = om"
    using assms(1) by (simp add: om_step_modify modify_order_def getOrder_ptr_digits om_ok_def ORDERS_SIZE_def)
  then show ?case using Cons by simp
qed simp

theorem high_token_not_stored_witness:
  "om_step (OrderManager_ctor 0) (Accepted (tok ''00000000001024'') 10 1 5 83) = OrderManager_ctor 0"
proof -
  have "dec_val (tok ''00000000001024'') = 1024" by (simp add: dec_val_def tok_def ascii_def)
  moreover have "digit_token (tok ''00000000001024'')" by (intro digit_tok) simp_all
  ultimately show ?thesis
    using high_token_not_stored [of "OrderManager_ctor 0" "[Accepted (tok ''00000000001024'') 10 1 5 83]"] om_ok_ctor [of 0] by simp
qed

end
