(* ===== verification/Order_Entry_Client.thy ===== *)
theory Order_Entry_Client
  imports Ouch_Messages Order_Manager
begin

text \<open>
  \<^verbatim>\<open>src/lib/client/order_entry_client.cpp\<close>: the order entry session.  It keeps one prepared packet per
  request type and overwrites the varying fields before each send.  The lemmas show that every packet
  decodes to what the caller asked for, whatever was sent before from the same buffer, and which
  packets are framed consistently with their length field.
\<close>

section \<open>Constants and helpers\<close>

definition USERNAME_LENGTH :: nat where [layout]: "USERNAME_LENGTH = 6"
definition PASSWORD_LENGTH :: nat where [layout]: "PASSWORD_LENGTH = 10"
definition SESSION_NAME_LENGTH :: nat where [layout]: "SESSION_NAME_LENGTH = 10"
definition REQUESTED_SEQUENCE_NUMBER_LENGTH :: nat where [layout]: "REQUESTED_SEQUENCE_NUMBER_LENGTH = 20"

definition LOGIN_REQUEST_PACKET_LENGTH :: nat where [layout]:
  "LOGIN_REQUEST_PACKET_LENGTH =
     1 + USERNAME_LENGTH + PASSWORD_LENGTH + SESSION_NAME_LENGTH + REQUESTED_SEQUENCE_NUMBER_LENGTH"

definition toPaddedArray :: "nat \<Rightarrow> byte list \<Rightarrow> byte list" where
  "toPaddedArray N input =
     (let n = min (length input) N in take n input @ replicate (N - n) (ascii CHR '' ''))"

section \<open>State\<close>

datatype bma_State = bma_Continuous | bma_Disconnected | bma_Reconnecting

text \<open>
  The parts of \<^verbatim>\<open>OrderEntryPartitionConfig\<close> the class uses, its own members, and the messages it has
  handed to \<^verbatim>\<open>TcpClient::write\<close>.
\<close>

record BistMarketAccessor =
  partition_username :: "byte list"
  partition_password :: "byte list"
  partition_isEquity :: bool
  m_exchangeInfo :: "byte list"
  m_orderManager :: OrderManager
  m_sequenceNumber :: u64
  bma_sessionName :: "byte list"
  bma_state :: bma_State
  m_enterOrderByteArray :: "byte list"
  m_replaceOrderByteArray :: "byte list"
  m_cancelOrderByteArray :: "byte list"
  tcp_written :: "byte list list"

definition tcp_write :: "BistMarketAccessor \<Rightarrow> byte list \<Rightarrow> BistMarketAccessor" where
  "tcp_write acc bytes = acc\<lparr>tcp_written := tcp_written acc @ [bytes]\<rparr>"

section \<open>Session packets\<close>

definition login :: "BistMarketAccessor \<Rightarrow> BistMarketAccessor" where
  "login acc =
     (let login_request =
        \<lparr>lr_packetLength = be16toh (of_nat LOGIN_REQUEST_PACKET_LENGTH),
         lr_packetType = PacketType_val PacketType_LoginRequest,
         lr_username = toPaddedArray USERNAME_LENGTH (partition_username acc),
         lr_password = toPaddedArray PASSWORD_LENGTH (partition_password acc),
         lr_sessionName = toPaddedArray SESSION_NAME_LENGTH (bma_sessionName acc),
         lr_sequenceNumber =
           toPaddedArray REQUESTED_SEQUENCE_NUMBER_LENGTH (to_string (unat (m_sequenceNumber acc + 1)))\<rparr>
      in tcp_write acc (put_soup_LoginRequest login_request))"

definition logout :: "BistMarketAccessor \<Rightarrow> BistMarketAccessor" where
  "logout acc =
     tcp_write acc (put_soup_LogoutRequest
       \<lparr>lo_packetLength = be16toh 3, lo_packetType = PacketType_val PacketType_LogoutRequest\<rparr>)"

section \<open>Prepared packets\<close>

definition unsequenced_header :: "nat \<Rightarrow> soup_UnsequencedData" where
  "unsequenced_header body_size =
     \<lparr>ud_packetLength = be16toh (of_nat (3 + body_size - 2)),
      ud_packetType = PacketType_val PacketType_UnsequencedData\<rparr>"

text \<open>\<open>memcpy\<close> of \<open>src\<close> to offset \<open>off\<close> of an array that is long enough.\<close>

definition copy_to :: "byte list \<Rightarrow> nat \<Rightarrow> byte list \<Rightarrow> byte list" where
  "copy_to buf off src = take off buf @ src @ drop (off + length src) buf"

text \<open>
  The loop over \<^verbatim>\<open>m_exchangeInfo\<close> writes \<^verbatim>\<open>enter_order.exchange_info[i]\<close> for every character; beyond the
  array that is a write outside it.
\<close>

definition prepareEnterOrderBuffer :: "BistMarketAccessor \<Rightarrow> BistMarketAccessor result" where
  "prepareEnterOrderBuffer acc =
     (if length (m_exchangeInfo acc) > EXCHANGE_INFO_LENGTH then Inl OutOfBoundsWrite
      else
        let buf = copy_to (m_enterOrderByteArray acc) 0 (put_soup_UnsequencedData (unsequenced_header 114));
            enter_order =
              \<lparr>eo_type = ouch_MessageType_val ouch_MessageType_EnterOrder,
               eo_order_token = replicate ORDER_TOKEN_LENGTH 0, eo_orderbook_id = 0, eo_side = 0,
               eo_quantity = 0, eo_price = 0,
               eo_time_in_force = ouch_TimeInForce_val ouch_TimeInForce_Day,
               eo_open_close = ouch_OpenClose_val ouch_OpenClose_DefaultForTheAccount,
               eo_client_account = replicate CLIENT_ACCOUNT_LENGTH 0,
               eo_customer_info = replicate CUSTOMER_INFO_LENGTH 0,
               eo_exchange_info = m_exchangeInfo acc
                 @ replicate (EXCHANGE_INFO_LENGTH - length (m_exchangeInfo acc)) 0,
               eo_display_quantity = be64toh 0,
               eo_client_category = ouch_ClientCategory_val ouch_ClientCategory_Client,
               eo_offhours = ouch_OffHours_val ouch_OffHours_NormalHours,
               eo_reserved = replicate 7 0\<rparr>
        in Inr (acc\<lparr>m_enterOrderByteArray := copy_to buf 3 (put_ouch_EnterOrder enter_order)\<rparr>))"

definition prepareReplaceOrderBuffer :: "BistMarketAccessor \<Rightarrow> BistMarketAccessor" where
  "prepareReplaceOrderBuffer acc =
     (let buf = copy_to (m_replaceOrderByteArray acc) 0 (put_soup_UnsequencedData (unsequenced_header 122));
          replace_order =
            \<lparr>ro_type = ouch_MessageType_val ouch_MessageType_ReplaceOrder,
             ro_existing_order_token = replicate ORDER_TOKEN_LENGTH 0,
             ro_replacement_order_token = replicate ORDER_TOKEN_LENGTH 0,
             ro_quantity = be64toh 0, ro_price = 0,
             ro_open_close = ouch_OpenClose_val ouch_OpenClose_DefaultForTheAccount,
             ro_client_account = replicate CLIENT_ACCOUNT_LENGTH 0,
             ro_customer_info = replicate CUSTOMER_INFO_LENGTH 0,
             ro_exchange_info = replicate EXCHANGE_INFO_LENGTH 0,
             ro_display_quantity = be64toh 0,
             ro_client_category = ouch_ClientCategory_val ouch_ClientCategory_NoChange,
             ro_reserved = replicate 8 0\<rparr>
      in acc\<lparr>m_replaceOrderByteArray := copy_to buf 3 (put_ouch_ReplaceOrder replace_order)\<rparr>)"

definition prepareCancelOrderBuffer :: "BistMarketAccessor \<Rightarrow> BistMarketAccessor" where
  "prepareCancelOrderBuffer acc =
     (let buf = copy_to (m_cancelOrderByteArray acc) 0 (put_soup_UnsequencedData (unsequenced_header 15));
          cancel_order =
            \<lparr>co_type = ouch_MessageType_val ouch_MessageType_CancelOrder,
             co_order_token = replicate ORDER_TOKEN_LENGTH 0\<rparr>
      in acc\<lparr>m_cancelOrderByteArray := copy_to buf 3 (put_ouch_CancelOrder cancel_order)\<rparr>)"

text \<open>The constructor; \<^verbatim>\<open>last_order_token_index\<close> is an \<^verbatim>\<open>int\<close> that becomes a \<^verbatim>\<open>uint32_t\<close>.\<close>

definition BistMarketAccessor_ctor ::
  "byte list \<Rightarrow> byte list \<Rightarrow> bool \<Rightarrow> byte list \<Rightarrow> i32 \<Rightarrow> BistMarketAccessor result" where
  "BistMarketAccessor_ctor username password equity exchange_info last_order_token_index =
     (let acc =
        \<lparr>partition_username = username, partition_password = password, partition_isEquity = equity,
         m_exchangeInfo = exchange_info,
         m_orderManager = OrderManager_ctor (of_int last_order_token_index),
         m_sequenceNumber = 0, bma_sessionName = [], bma_state = bma_Disconnected,
         m_enterOrderByteArray = replicate (3 + 114) 0, m_replaceOrderByteArray = replicate (3 + 122) 0,
         m_cancelOrderByteArray = replicate (3 + 15) 0, tcp_written = []\<rparr>
      in res_bind (prepareEnterOrderBuffer acc)
           (\<lambda>acc. Inr (prepareCancelOrderBuffer (prepareReplaceOrderBuffer acc))))"

text \<open>The destructor logs out; the order manager it owns then saves its token index.\<close>

definition BistMarketAccessor_dtor :: "BistMarketAccessor \<Rightarrow> BistMarketAccessor \<times> u32" where
  "BistMarketAccessor_dtor acc = (logout acc, OrderManager_dtor (m_orderManager (logout acc)))"

section \<open>Sending\<close>

definition sendEnterOrder ::
  "BistMarketAccessor \<Rightarrow> u32 \<Rightarrow> byte \<Rightarrow> u32 \<Rightarrow> i32 \<Rightarrow> BistMarketAccessor" where
  "sendEnterOrder acc orderbook_id side qty price =
     (case nextToken (m_orderManager acc) of
        (om, token) \<Rightarrow>
          let enter_order = (get_ouch_EnterOrder (drop 3 (m_enterOrderByteArray acc)))
                \<lparr>eo_order_token := token, eo_orderbook_id := be32toh orderbook_id, eo_side := side,
                 eo_quantity := be64toh (ucast qty), eo_price := be32toh (of_int price)\<rparr>;
              buf = copy_to (m_enterOrderByteArray acc) 3 (put_ouch_EnterOrder enter_order)
          in tcp_write (acc\<lparr>m_orderManager := om, m_enterOrderByteArray := buf\<rparr>) buf)"

definition sendReplaceOrder :: "BistMarketAccessor \<Rightarrow> order_token \<Rightarrow> i32 \<Rightarrow> BistMarketAccessor" where
  "sendReplaceOrder acc original_order_token price =
     (case nextToken (m_orderManager acc) of
        (om, replacement_token) \<Rightarrow>
          let om' = pendingReplace om original_order_token replacement_token;
              replace_order = (get_ouch_ReplaceOrder (drop 3 (m_replaceOrderByteArray acc)))
                \<lparr>ro_existing_order_token := original_order_token,
                 ro_replacement_order_token := replacement_token, ro_price := be32toh (of_int price)\<rparr>;
              buf = copy_to (m_replaceOrderByteArray acc) 3 (put_ouch_ReplaceOrder replace_order)
          in tcp_write (acc\<lparr>m_orderManager := om', m_replaceOrderByteArray := buf\<rparr>) buf)"

definition sendCancelOrder :: "BistMarketAccessor \<Rightarrow> order_token \<Rightarrow> BistMarketAccessor" where
  "sendCancelOrder acc original_order_token =
     (let cancel_order = (get_ouch_CancelOrder (drop 3 (m_cancelOrderByteArray acc)))
            \<lparr>co_order_token := original_order_token\<rparr>;
          buf = copy_to (m_cancelOrderByteArray acc) 3 (put_ouch_CancelOrder cancel_order)
      in tcp_write (acc\<lparr>m_cancelOrderByteArray := buf\<rparr>) buf)"

definition onLoginAccepted :: "BistMarketAccessor \<Rightarrow> soup_LoginAccepted \<Rightarrow> BistMarketAccessor" where
  "onLoginAccepted acc login_accepted =
     (let acc' = acc\<lparr>bma_state := bma_Continuous, bma_sessionName := la_session_name login_accepted\<rparr>
      in if partition_isEquity acc'
         then sendEnterOrder acc' 78436 (Side_val Side_Sell) 5000 770000 else acc')"

definition onLoginRejected :: "BistMarketAccessor \<Rightarrow> soup_LoginRejected \<Rightarrow> BistMarketAccessor" where
  "onLoginRejected acc login_rejected = acc\<lparr>bma_state := bma_Disconnected\<rparr>"

section \<open>Framing\<close>

text \<open>A SoupBinTCP packet is framed when its first two bytes count the bytes behind them.\<close>

definition well_framed :: "byte list \<Rightarrow> bool" where
  "well_framed bytes \<longleftrightarrow> 2 \<le> length bytes \<and> be_val (take 2 bytes) + 2 = length bytes"

lemma be_val_put16: "be_val (put16 (be16toh w)) = unat w"
proof -
  have "unat (be16toh (get16 (put16 (be16toh w)))) = be_val (take 2 (put16 (be16toh w)))"
    by (rule network_order) (simp add: wire)
  then show ?thesis using codec16.get_put [of "be16toh w" "[]"] by (simp add: wire)
qed

lemma well_framedI: "unat w = length body \<Longrightarrow> well_framed (put16 (be16toh w) @ body)"
  by (simp add: well_framed_def wire be_val_put16)

section \<open>A prepared packet\<close>

text \<open>
  The three request buffers have one contract: a fixed header followed by a message of fixed size, of
  which some fields are overwritten in place.
\<close>

locale prepared_packet = wire_codec width valid put get
  for width :: nat and valid :: "'a \<Rightarrow> bool" and put :: "'a \<Rightarrow> byte list" and get :: "byte list \<Rightarrow> 'a" +
  fixes hdr :: "byte list"
  assumes hdr_length: "length hdr = 3"
begin

lemma refill:
  assumes "valid x" and "valid (f x)"
  shows "copy_to (hdr @ put x) 3 (put (f (get (drop 3 (hdr @ put x))))) = hdr @ put (f x)"
proof -
  have "get (put x) = x" using get_put [OF assms(1), of "[]"] by simp
  then show ?thesis
    using hdr_length put_length [OF assms(1)] put_length [OF assms(2)] by (simp add: copy_to_def)
qed

lemma prepare:
  assumes "length buf = 3 + width" and "valid x"
  shows "copy_to (copy_to buf 0 hdr) 3 (put x) = hdr @ put x"
  using assms hdr_length put_length [OF assms(2)] by (simp add: copy_to_def)

end

definition soup_hdr :: "nat \<Rightarrow> byte list" where
  "soup_hdr body_size = put_soup_UnsequencedData (unsequenced_header body_size)"

lemma soup_hdr_eq:
  "soup_hdr n = put16 (be16toh (of_nat (3 + n - 2))) @ [PacketType_val PacketType_UnsequencedData]"
  by (simp add: soup_hdr_def unsequenced_header_def put_soup_UnsequencedData_def put8_def)

lemma length_soup_hdr: "length (soup_hdr n) = 3"
  by (simp add: soup_hdr_eq wire)

lemma soup_packet_framed:
  assumes "length body = n" and "n < 2 ^ 15"
  shows "well_framed (soup_hdr n @ body)"
proof -
  have "3 + n - 2 = Suc n" by simp
  moreover have "unat (of_nat (Suc n) :: u16) = Suc n"
    using assms(2) by (simp add: unat_of_nat del: of_nat_Suc)
  ultimately show ?thesis
    using assms(1) well_framedI [of "of_nat (Suc n)" "PacketType_val PacketType_UnsequencedData # body"]
    by (simp add: soup_hdr_eq del: of_nat_Suc)
qed

interpretation enter_buffer: prepared_packet
  114 valid_ouch_EnterOrder put_ouch_EnterOrder get_ouch_EnterOrder "soup_hdr 114"
  by unfold_locales (rule length_soup_hdr)

interpretation replace_buffer: prepared_packet
  122 valid_ouch_ReplaceOrder put_ouch_ReplaceOrder get_ouch_ReplaceOrder "soup_hdr 122"
  by unfold_locales (rule length_soup_hdr)

interpretation cancel_buffer: prepared_packet
  15 valid_ouch_CancelOrder put_ouch_CancelOrder get_ouch_CancelOrder "soup_hdr 15"
  by unfold_locales (rule length_soup_hdr)

section \<open>What the buffers hold\<close>

definition enter_message :: "byte list \<Rightarrow> order_token \<Rightarrow> u32 \<Rightarrow> byte \<Rightarrow> u64 \<Rightarrow> u32 \<Rightarrow> ouch_EnterOrder" where
  "enter_message exch token ob side qty price =
     \<lparr>eo_type = ascii CHR ''O'', eo_order_token = token, eo_orderbook_id = ob, eo_side = side,
      eo_quantity = qty, eo_price = price, eo_time_in_force = 0, eo_open_close = 4,
      eo_client_account = replicate 16 0, eo_customer_info = replicate 15 0,
      eo_exchange_info = exch @ replicate (32 - length exch) 0, eo_display_quantity = 0,
      eo_client_category = 1, eo_offhours = 0, eo_reserved = replicate 7 0\<rparr>"

definition replace_message :: "order_token \<Rightarrow> order_token \<Rightarrow> u32 \<Rightarrow> ouch_ReplaceOrder" where
  "replace_message existing replacement price =
     \<lparr>ro_type = ascii CHR ''U'', ro_existing_order_token = existing,
      ro_replacement_order_token = replacement, ro_quantity = 0, ro_price = price, ro_open_close = 4,
      ro_client_account = replicate 16 0, ro_customer_info = replicate 15 0,
      ro_exchange_info = replicate 32 0, ro_display_quantity = 0, ro_client_category = 0,
      ro_reserved = replicate 8 0\<rparr>"

definition cancel_message :: "order_token \<Rightarrow> ouch_CancelOrder" where
  "cancel_message token = \<lparr>co_type = ascii CHR ''X'', co_order_token = token\<rparr>"

definition enter_ready :: "byte list \<Rightarrow> byte list \<Rightarrow> bool" where
  "enter_ready exch buf \<longleftrightarrow> (\<exists>t ob sd q p. length t = 14 \<and>
     buf = soup_hdr 114 @ put_ouch_EnterOrder (enter_message exch t ob sd q p))"

definition replace_ready :: "byte list \<Rightarrow> bool" where
  "replace_ready buf \<longleftrightarrow> (\<exists>t u p. length t = 14 \<and> length u = 14 \<and>
     buf = soup_hdr 122 @ put_ouch_ReplaceOrder (replace_message t u p))"

definition cancel_ready :: "byte list \<Rightarrow> bool" where
  "cancel_ready buf \<longleftrightarrow> (\<exists>t. length t = 14 \<and>
     buf = soup_hdr 15 @ put_ouch_CancelOrder (cancel_message t))"

lemma readyI [intro]:
  "length t = 14 \<Longrightarrow> enter_ready exch (soup_hdr 114 @ put_ouch_EnterOrder (enter_message exch t ob sd q p))"
  "length t = 14 \<Longrightarrow> length u = 14 \<Longrightarrow>
     replace_ready (soup_hdr 122 @ put_ouch_ReplaceOrder (replace_message t u pr))"
  "length t = 14 \<Longrightarrow> cancel_ready (soup_hdr 15 @ put_ouch_CancelOrder (cancel_message t))"
  unfolding enter_ready_def replace_ready_def cancel_ready_def by blast+

definition acc_ok :: "BistMarketAccessor \<Rightarrow> bool" where
  "acc_ok acc \<longleftrightarrow>
     om_ok (m_orderManager acc) \<and> length (m_exchangeInfo acc) \<le> 32 \<and>
     enter_ready (m_exchangeInfo acc) (m_enterOrderByteArray acc) \<and>
     replace_ready (m_replaceOrderByteArray acc) \<and> cancel_ready (m_cancelOrderByteArray acc)"

lemma valid_messages:
  "length exch \<le> 32 \<Longrightarrow> length t = 14 \<Longrightarrow> valid_ouch_EnterOrder (enter_message exch t ob sd q p)"
  "length t = 14 \<Longrightarrow> length u = 14 \<Longrightarrow> valid_ouch_ReplaceOrder (replace_message t u p)"
  "length t = 14 \<Longrightarrow> valid_ouch_CancelOrder (cancel_message t)"
  by (simp_all add: enter_message_def replace_message_def cancel_message_def layout)

lemma be64toh_0: "be64toh 0 = 0"
proof -
  have "le_bytes n 0 = replicate n 0" for n by (induction n) auto
  moreover have "le_val (replicate n 0) = 0" for n by (induction n) auto
  ultimately show ?thesis by (simp add: be64toh_def bswap_def)
qed

lemma BistMarketAccessor_ctor_ok:
  assumes "length exch \<le> 32" and "0 \<le> n" and "n + 1 < 2 ^ 31"
  shows "\<exists>acc. BistMarketAccessor_ctor user pwd equity exch n = Inr acc \<and> acc_ok acc \<and>
    m_exchangeInfo acc = exch \<and> partition_username acc = user \<and> partition_password acc = pwd \<and>
    partition_isEquity acc = equity \<and> m_sequenceNumber acc = 0 \<and> bma_sessionName acc = [] \<and>
    tcp_written acc = [] \<and> m_orderManager acc = OrderManager_ctor (of_int n)"
proof -
  have n: "unat (of_int n :: u32) = nat n"
    using assms(2,3) by (simp add: unat_eq_nat_uint uint_word_of_int)
  have om: "om_ok (OrderManager_ctor (of_int n))"
    using assms(2,3) by (intro om_ok_ctor) (simp add: n)
  note empty = enter_message_def replace_message_def cancel_message_def
  have enter: "copy_to (copy_to (replicate 117 0) 0 (soup_hdr 114)) 3
      (put_ouch_EnterOrder (enter_message exch (replicate 14 0) 0 0 0 0)) =
      soup_hdr 114 @ put_ouch_EnterOrder (enter_message exch (replicate 14 0) 0 0 0 0)"
    using assms(1) by (intro enter_buffer.prepare valid_messages) simp_all
  have replace: "copy_to (copy_to (replicate 125 0) 0 (soup_hdr 122)) 3
      (put_ouch_ReplaceOrder (replace_message (replicate 14 0) (replicate 14 0) 0)) =
      soup_hdr 122 @ put_ouch_ReplaceOrder (replace_message (replicate 14 0) (replicate 14 0) 0)"
    by (intro replace_buffer.prepare valid_messages) simp_all
  have cancel: "copy_to (copy_to (replicate 18 0) 0 (soup_hdr 15)) 3
      (put_ouch_CancelOrder (cancel_message (replicate 14 0))) =
      soup_hdr 15 @ put_ouch_CancelOrder (cancel_message (replicate 14 0))"
    by (intro cancel_buffer.prepare valid_messages) simp_all
  let ?acc = "\<lparr>partition_username = user, partition_password = pwd, partition_isEquity = equity,
    m_exchangeInfo = exch, m_orderManager = OrderManager_ctor (of_int n), m_sequenceNumber = 0,
    bma_sessionName = [], bma_state = bma_Disconnected,
    m_enterOrderByteArray = soup_hdr 114 @ put_ouch_EnterOrder (enter_message exch (replicate 14 0) 0 0 0 0),
    m_replaceOrderByteArray =
      soup_hdr 122 @ put_ouch_ReplaceOrder (replace_message (replicate 14 0) (replicate 14 0) 0),
    m_cancelOrderByteArray = soup_hdr 15 @ put_ouch_CancelOrder (cancel_message (replicate 14 0)),
    tcp_written = []\<rparr>"
  have "BistMarketAccessor_ctor user pwd equity exch n = Inr ?acc"
    using assms(1) enter replace cancel
    by (simp add: BistMarketAccessor_ctor_def prepareEnterOrderBuffer_def prepareReplaceOrderBuffer_def
        prepareCancelOrderBuffer_def empty soup_hdr_def be64toh_0 ORDER_TOKEN_LENGTH_def
        CLIENT_ACCOUNT_LENGTH_def CUSTOMER_INFO_LENGTH_def EXCHANGE_INFO_LENGTH_def)
  moreover have "acc_ok ?acc"
    using om assms(1) by (simp add: acc_ok_def readyI)
  ultimately show ?thesis by simp
qed

lemma length_nextToken: "om_ok om \<Longrightarrow> length (snd (nextToken om)) = 14 \<and> om_ok (fst (nextToken om))"
  using nextToken_digits [of "m_token om"] by (simp add: om_ok_def nextToken_def Let_def digit_token_def)

lemma om_ok_pending [simp]: "om_ok (pendingReplace om t u) = om_ok om"
  by (simp add: om_ok_def pendingReplace_def)

lemma sendEnterOrder_sends:
  assumes "acc_ok acc"
  shows "acc_ok (sendEnterOrder acc ob side qty price)"
    and "tcp_written (sendEnterOrder acc ob side qty price) = tcp_written acc @
      [soup_hdr 114 @ put_ouch_EnterOrder (enter_message (m_exchangeInfo acc)
         (snd (nextToken (m_orderManager acc))) (be32toh ob) side (be64toh (ucast qty)) (be32toh (of_int price)))]"
proof -
  let ?exch = "m_exchangeInfo acc"
  obtain t ob' sd q p where buf: "length t = 14" "m_enterOrderByteArray acc =
      soup_hdr 114 @ put_ouch_EnterOrder (enter_message ?exch t ob' sd q p)"
    and exch: "length ?exch \<le> 32" and om: "om_ok (m_orderManager acc)"
    using assms by (auto simp: acc_ok_def enter_ready_def replace_ready_def)
  obtain om' tk where tk: "nextToken (m_orderManager acc) = (om', tk)" by fastforce
  have tk': "length tk = 14" "om_ok om'" using length_nextToken [OF om] tk by simp_all
  let ?f = "\<lambda>e. e\<lparr>eo_order_token := tk, eo_orderbook_id := be32toh ob, eo_side := side,
    eo_quantity := be64toh (ucast qty), eo_price := be32toh (of_int price)\<rparr>"
  let ?m = "enter_message ?exch tk (be32toh ob) side (be64toh (ucast qty)) (be32toh (of_int price))"
  have f: "?f (enter_message ?exch t ob' sd q p) = ?m" by (simp add: enter_message_def)
  have "copy_to (m_enterOrderByteArray acc) 3 (put_ouch_EnterOrder
      (?f (get_ouch_EnterOrder (drop 3 (m_enterOrderByteArray acc))))) = soup_hdr 114 @ put_ouch_EnterOrder ?m"
    unfolding buf(2) f [symmetric]
    by (rule enter_buffer.refill) (simp_all only: f valid_messages exch buf tk')
  then have send: "sendEnterOrder acc ob side qty price =
      tcp_write (acc\<lparr>m_orderManager := om', m_enterOrderByteArray := soup_hdr 114 @ put_ouch_EnterOrder ?m\<rparr>)
        (soup_hdr 114 @ put_ouch_EnterOrder ?m)"
    by (simp add: sendEnterOrder_def tk Let_def)
  show "acc_ok (sendEnterOrder acc ob side qty price)"
    unfolding send using assms tk' by (simp add: acc_ok_def tcp_write_def readyI)
  show "tcp_written (sendEnterOrder acc ob side qty price) = tcp_written acc @
      [soup_hdr 114 @ put_ouch_EnterOrder (enter_message (m_exchangeInfo acc)
         (snd (nextToken (m_orderManager acc))) (be32toh ob) side (be64toh (ucast qty)) (be32toh (of_int price)))]"
    unfolding send by (simp add: tcp_write_def tk)
qed

lemma sendReplaceOrder_sends:
  assumes "acc_ok acc" and "length orig = 14"
  shows "acc_ok (sendReplaceOrder acc orig price)"
    and "tcp_written (sendReplaceOrder acc orig price) = tcp_written acc @
      [soup_hdr 122 @ put_ouch_ReplaceOrder (replace_message orig
         (snd (nextToken (m_orderManager acc))) (be32toh (of_int price)))]"
    and "m_orderManager (sendReplaceOrder acc orig price) =
      pendingReplace (fst (nextToken (m_orderManager acc))) orig (snd (nextToken (m_orderManager acc)))"
proof -
  obtain t u p where buf: "length t = 14" "length u = 14" "m_replaceOrderByteArray acc =
      soup_hdr 122 @ put_ouch_ReplaceOrder (replace_message t u p)"
    and om: "om_ok (m_orderManager acc)"
    using assms by (auto simp: acc_ok_def enter_ready_def replace_ready_def)
  obtain om' tk where tk: "nextToken (m_orderManager acc) = (om', tk)" by fastforce
  have tk': "length tk = 14" "om_ok om'" using length_nextToken [OF om] tk by simp_all
  let ?f = "\<lambda>r. r\<lparr>ro_existing_order_token := orig, ro_replacement_order_token := tk,
    ro_price := be32toh (of_int price)\<rparr>"
  let ?m = "replace_message orig tk (be32toh (of_int price))"
  have f: "?f (replace_message t u p) = ?m" by (simp add: replace_message_def)
  have "copy_to (m_replaceOrderByteArray acc) 3 (put_ouch_ReplaceOrder
      (?f (get_ouch_ReplaceOrder (drop 3 (m_replaceOrderByteArray acc))))) = soup_hdr 122 @ put_ouch_ReplaceOrder ?m"
    unfolding buf(3) f [symmetric]
    by (rule replace_buffer.refill) (simp_all only: f valid_messages buf tk' assms(2))
  then have send: "sendReplaceOrder acc orig price =
      tcp_write (acc\<lparr>m_orderManager := pendingReplace om' orig tk,
          m_replaceOrderByteArray := soup_hdr 122 @ put_ouch_ReplaceOrder ?m\<rparr>)
        (soup_hdr 122 @ put_ouch_ReplaceOrder ?m)"
    by (simp add: sendReplaceOrder_def tk Let_def)
  show "acc_ok (sendReplaceOrder acc orig price)"
    unfolding send using assms tk' by (simp add: acc_ok_def tcp_write_def readyI)
  show "tcp_written (sendReplaceOrder acc orig price) = tcp_written acc @
      [soup_hdr 122 @ put_ouch_ReplaceOrder (replace_message orig
         (snd (nextToken (m_orderManager acc))) (be32toh (of_int price)))]"
    and "m_orderManager (sendReplaceOrder acc orig price) =
      pendingReplace (fst (nextToken (m_orderManager acc))) orig (snd (nextToken (m_orderManager acc)))"
    unfolding send by (simp_all add: tcp_write_def tk)
qed

lemma sendCancelOrder_sends:
  assumes "acc_ok acc" and "length orig = 14"
  shows "acc_ok (sendCancelOrder acc orig)"
    and "tcp_written (sendCancelOrder acc orig) = tcp_written acc @
      [soup_hdr 15 @ put_ouch_CancelOrder (cancel_message orig)]"
proof -
  obtain t where buf: "length t = 14"
    "m_cancelOrderByteArray acc = soup_hdr 15 @ put_ouch_CancelOrder (cancel_message t)"
    using assms by (auto simp: acc_ok_def cancel_ready_def)
  let ?f = "\<lambda>c. c\<lparr>co_order_token := orig\<rparr>"
  have f: "?f (cancel_message t) = cancel_message orig" by (simp add: cancel_message_def)
  have "copy_to (m_cancelOrderByteArray acc) 3 (put_ouch_CancelOrder
      (?f (get_ouch_CancelOrder (drop 3 (m_cancelOrderByteArray acc))))) =
      soup_hdr 15 @ put_ouch_CancelOrder (cancel_message orig)"
    unfolding buf(2) f [symmetric]
    by (rule cancel_buffer.refill) (simp_all only: f valid_messages buf assms(2))
  then have send: "sendCancelOrder acc orig =
      tcp_write (acc\<lparr>m_cancelOrderByteArray := soup_hdr 15 @ put_ouch_CancelOrder (cancel_message orig)\<rparr>)
        (soup_hdr 15 @ put_ouch_CancelOrder (cancel_message orig))"
    by (simp add: sendCancelOrder_def Let_def)
  show "acc_ok (sendCancelOrder acc orig)"
    unfolding send using assms by (simp add: acc_ok_def tcp_write_def readyI)
  show "tcp_written (sendCancelOrder acc orig) = tcp_written acc @
      [soup_hdr 15 @ put_ouch_CancelOrder (cancel_message orig)]"
    unfolding send by (simp add: tcp_write_def)
qed

section \<open>Request sequences\<close>

datatype bma_request =
    ReqLogin
  | ReqEnter u32 byte u32 i32
  | ReqReplace order_token i32
  | ReqCancel order_token

fun bma_step :: "BistMarketAccessor \<Rightarrow> bma_request \<Rightarrow> BistMarketAccessor" where
  "bma_step acc ReqLogin = login acc"
| "bma_step acc (ReqEnter ob side qty price) = sendEnterOrder acc ob side qty price"
| "bma_step acc (ReqReplace orig price) = sendReplaceOrder acc orig price"
| "bma_step acc (ReqCancel orig) = sendCancelOrder acc orig"

fun request_ok :: "bma_request \<Rightarrow> bool" where
  "request_ok (ReqReplace orig price) \<longleftrightarrow> length orig = 14"
| "request_ok (ReqCancel orig) \<longleftrightarrow> length orig = 14"
| "request_ok _ \<longleftrightarrow> True"

lemma length_toPaddedArray [simp]: "length (toPaddedArray N input) = N"
  by (simp add: toPaddedArray_def Let_def)

lemma login_packet:
  "tcp_written (login acc) = tcp_written acc @
     [put16 (be16toh 47) @ PacketType_val PacketType_LoginRequest #
      toPaddedArray 6 (partition_username acc) @ toPaddedArray 10 (partition_password acc) @
      toPaddedArray 10 (bma_sessionName acc) @ toPaddedArray 20 (to_string (unat (m_sequenceNumber acc + 1)))]"
  by (simp add: login_def Let_def tcp_write_def put_soup_LoginRequest_def put8_def layout)

lemma acc_ok_login [simp]: "acc_ok (login acc) = acc_ok acc"
  by (simp add: login_def Let_def tcp_write_def acc_ok_def)

lemma packets_framed:
  "length exch \<le> 32 \<Longrightarrow> length t = 14 \<Longrightarrow>
     well_framed (soup_hdr 114 @ put_ouch_EnterOrder (enter_message exch t ob sd q p))"
  "length t = 14 \<Longrightarrow> length u = 14 \<Longrightarrow>
     well_framed (soup_hdr 122 @ put_ouch_ReplaceOrder (replace_message t u pr))"
  "length t = 14 \<Longrightarrow> well_framed (soup_hdr 15 @ put_ouch_CancelOrder (cancel_message t))"
  by (simp_all add: soup_packet_framed valid_messages ouch_EnterOrder.put_length
      ouch_ReplaceOrder.put_length ouch_CancelOrder.put_length)

lemma bma_step_framed:
  assumes "acc_ok acc" and "request_ok r"
  shows "acc_ok (bma_step acc r) \<and>
    (\<exists>pkt. tcp_written (bma_step acc r) = tcp_written acc @ [pkt] \<and> well_framed pkt)"
proof -
  have exch: "length (m_exchangeInfo acc) \<le> 32" and om: "om_ok (m_orderManager acc)"
    using assms(1) by (auto simp: acc_ok_def)
  note tk = length_nextToken [OF om]
  show ?thesis
  proof (cases r)
    case ReqLogin
    have "well_framed (put16 (be16toh 47) @ PacketType_val PacketType_LoginRequest #
      toPaddedArray 6 (partition_username acc) @ toPaddedArray 10 (partition_password acc) @
      toPaddedArray 10 (bma_sessionName acc) @ toPaddedArray 20 (to_string (unat (m_sequenceNumber acc + 1))))"
      by (rule well_framedI) simp
    then show ?thesis using ReqLogin assms(1) login_packet [of acc] by simp
  next
    case (ReqEnter ob side qty price)
    then show ?thesis
      using sendEnterOrder_sends [OF assms(1), of ob side qty price] packets_framed(1) exch tk by simp
  next
    case (ReqReplace orig price)
    then show ?thesis
      using sendReplaceOrder_sends [OF assms(1), of orig price] packets_framed(2) assms(2) tk by simp
  next
    case (ReqCancel orig)
    then show ?thesis
      using sendCancelOrder_sends [OF assms(1), of orig] packets_framed(3) assms(2) by simp
  qed
qed

lemma bma_run_framed:
  assumes "acc_ok acc" and "\<forall>r \<in> set rs. request_ok r" and "\<forall>pkt \<in> set (tcp_written acc). well_framed pkt"
  shows "acc_ok (fold (\<lambda>r acc. bma_step acc r) rs acc) \<and>
    (\<forall>pkt \<in> set (tcp_written (fold (\<lambda>r acc. bma_step acc r) rs acc)). well_framed pkt)"
  using assms
proof (induction rs arbitrary: acc)
  case (Cons r rs)
  have r: "request_ok r" using Cons.prems(2) by simp
  obtain pkt where "acc_ok (bma_step acc r)" "tcp_written (bma_step acc r) = tcp_written acc @ [pkt]"
    "well_framed pkt" using bma_step_framed [OF Cons.prems(1) r] by blast
  then have "acc_ok (bma_step acc r)" "\<forall>pkt \<in> set (tcp_written (bma_step acc r)). well_framed pkt"
    using Cons.prems(3) by simp_all
  then show ?case using Cons.IH [of "bma_step acc r"] Cons.prems(2) by simp
qed simp

lemma bma_run_constant:
  "m_sequenceNumber (fold (\<lambda>r acc. bma_step acc r) rs acc) = m_sequenceNumber acc \<and>
   partition_username (fold (\<lambda>r acc. bma_step acc r) rs acc) = partition_username acc \<and>
   partition_password (fold (\<lambda>r acc. bma_step acc r) rs acc) = partition_password acc"
proof (induction rs arbitrary: acc)
  case (Cons r rs)
  have "m_sequenceNumber (bma_step acc r) = m_sequenceNumber acc \<and>
      partition_username (bma_step acc r) = partition_username acc \<and>
      partition_password (bma_step acc r) = partition_password acc"
    by (cases r) (auto simp: login_def sendEnterOrder_def sendReplaceOrder_def sendCancelOrder_def
        tcp_write_def Let_def split: prod.splits)
  then show ?case using Cons.IH [of "bma_step acc r"] by simp
qed simp

lemma sint_of_int_price: "- (2 ^ 31) \<le> p \<Longrightarrow> p < 2 ^ 31 \<Longrightarrow> sint (of_int p :: u32) = p"
  by (simp add: signed_of_int signed_take_bit_int_eq_self)

section \<open>Properties\<close>

lemma enter_order_packet:
  assumes "acc_ok acc" and "- (2 ^ 31) \<le> price" and "price < 2 ^ 31"
  shows "\<exists>pkt m. tcp_written (sendEnterOrder acc ob side qty price) = tcp_written acc @ [pkt] \<and>
    well_framed pkt \<and> length pkt = 117 \<and> m = get_ouch_EnterOrder (drop 3 pkt) \<and>
    eo_type m = ouch_MessageType_val ouch_MessageType_EnterOrder \<and>
    eo_order_token m = snd (nextToken (m_orderManager acc)) \<and> be32toh (eo_orderbook_id m) = ob \<and>
    eo_side m = side \<and> unat (be64toh (eo_quantity m)) = unat qty \<and> sint (be32toh (eo_price m)) = price \<and>
    take (length (m_exchangeInfo acc)) (eo_exchange_info m) = m_exchangeInfo acc \<and>
    acc_ok (sendEnterOrder acc ob side qty price)"
proof -
  let ?tk = "snd (nextToken (m_orderManager acc))"
  let ?m = "enter_message (m_exchangeInfo acc) ?tk (be32toh ob) side (be64toh (ucast qty)) (be32toh (of_int price))"
  have exch: "length (m_exchangeInfo acc) \<le> 32" "length ?tk = 14"
    using assms(1) length_nextToken by (auto simp: acc_ok_def)
  have valid: "valid_ouch_EnterOrder ?m" by (intro valid_messages exch)
  have dec: "get_ouch_EnterOrder (drop 3 (soup_hdr 114 @ put_ouch_EnterOrder ?m)) = ?m"
    using ouch_EnterOrder.get_put [OF valid, of "[]"] length_soup_hdr by simp
  have len: "length (soup_hdr 114 @ put_ouch_EnterOrder ?m) = 117"
    using ouch_EnterOrder.put_length [OF valid] length_soup_hdr by simp
  have fields: "eo_type ?m = ouch_MessageType_val ouch_MessageType_EnterOrder" "eo_order_token ?m = ?tk"
    "be32toh (eo_orderbook_id ?m) = ob" "eo_side ?m = side" "unat (be64toh (eo_quantity ?m)) = unat qty"
    "sint (be32toh (eo_price ?m)) = price"
    "take (length (m_exchangeInfo acc)) (eo_exchange_info ?m) = m_exchangeInfo acc"
    using sint_of_int_price [OF assms(2,3)] by (simp_all add: enter_message_def unat_ucast_wide(1))
  show ?thesis
    using sendEnterOrder_sends [OF assms(1), of ob side qty price] packets_framed(1) [OF exch] len dec fields
    by metis
qed

text \<open>
  C18. An order request puts exactly one framed packet on the wire, which decodes to the next token and
  to the order book, side, quantity and price of the call, with the fixed fields of the template,
  whatever was sent from the buffer before.
\<close>

theorem enter_order_on_wire:
  assumes "acc_ok acc" and "- (2 ^ 31) \<le> price" and "price < 2 ^ 31"
  shows "\<exists>pkt m. tcp_written (sendEnterOrder acc ob side qty price) = tcp_written acc @ [pkt] \<and>
    well_framed pkt \<and> length pkt = 117 \<and> m = get_ouch_EnterOrder (drop 3 pkt) \<and>
    eo_type m = ouch_MessageType_val ouch_MessageType_EnterOrder \<and>
    eo_order_token m = snd (nextToken (m_orderManager acc)) \<and> be32toh (eo_orderbook_id m) = ob \<and>
    eo_side m = side \<and> unat (be64toh (eo_quantity m)) = unat qty \<and> sint (be32toh (eo_price m)) = price \<and>
    take (length (m_exchangeInfo acc)) (eo_exchange_info m) = m_exchangeInfo acc \<and>
    acc_ok (sendEnterOrder acc ob side qty price)"
  using assms by (rule enter_order_packet)

theorem enter_order_on_wire_witness:
  "\<exists>acc pkt. BistMarketAccessor_ctor [] [] False [] 0 = Inr acc \<and>
     tcp_written (sendEnterOrder acc 78436 (ascii CHR ''S'') 5000 770000) = [pkt] \<and>
     unat (be64toh (eo_quantity (get_ouch_EnterOrder (drop 3 pkt)))) = 5000 \<and>
     sint (be32toh (eo_price (get_ouch_EnterOrder (drop 3 pkt)))) = 770000"
proof -
  obtain acc where acc: "BistMarketAccessor_ctor [] [] False [] 0 = Inr acc" "acc_ok acc" "tcp_written acc = []"
    using BistMarketAccessor_ctor_ok [of "[]" 0 "[]" "[]" False] by auto
  then show ?thesis
    using enter_order_on_wire [of acc 770000 78436 "ascii CHR ''S''" 5000] by auto
qed

text \<open>
  Whatever requests a freshly constructed session makes (login, enter, replace, cancel, in any
  order), every packet it writes carries the length of what follows in its first two bytes.
\<close>

theorem requests_framed:
  assumes "length exch \<le> 32" and "0 \<le> n" and "n + 1 < 2 ^ 31" and "\<forall>r \<in> set rs. request_ok r"
    and "BistMarketAccessor_ctor user pwd equity exch n = Inr acc"
  shows "\<forall>pkt \<in> set (tcp_written (fold (\<lambda>r acc. bma_step acc r) rs acc)). well_framed pkt"
  using bma_run_framed [of acc rs] BistMarketAccessor_ctor_ok [OF assms(1-3), of user pwd equity] assms(4,5)
  by auto

theorem requests_framed_witness:
  "\<exists>acc. BistMarketAccessor_ctor [] [] False [] 0 = Inr acc \<and>
     (\<forall>pkt \<in> set (tcp_written (fold (\<lambda>r acc. bma_step acc r)
        [ReqLogin, ReqEnter 78436 83 10 5, ReqCancel (replicate 14 48)] acc)). well_framed pkt)"
proof -
  obtain acc where acc: "BistMarketAccessor_ctor [] [] False [] 0 = Inr acc"
    using BistMarketAccessor_ctor_ok [of "[]" 0 "[]" "[]" False] by auto
  then show ?thesis
    using requests_framed [OF _ _ _ _ acc, of "[ReqLogin, ReqEnter 78436 83 10 5, ReqCancel (replicate 14 48)]"]
    by simp
qed

text \<open>
  The logout packet is the exception: its length field says three while one byte follows, so it is
  never framed.
\<close>

theorem logout_not_framed:
  "\<exists>pkt. tcp_written (logout acc) = tcp_written acc @ [pkt] \<and> length pkt = 3 \<and>
     be_val (take 2 pkt) = 3 \<and> \<not> well_framed pkt"
proof -
  have "tcp_written (logout acc) = tcp_written acc @
      [put16 (be16toh 3) @ [PacketType_val PacketType_LogoutRequest]]"
    by (simp add: logout_def tcp_write_def put_soup_LogoutRequest_def put8_def)
  then show ?thesis by (simp add: well_framed_def wire be_val_put16)
qed

text \<open>
  An exchange information string longer than the field overruns it while the session is constructed;
  any other string is accepted.
\<close>

theorem exchange_info_overrun:
  assumes "0 \<le> n" and "n + 1 < 2 ^ 31"
  shows "(BistMarketAccessor_ctor user pwd equity exch n = Inl OutOfBoundsWrite) \<longleftrightarrow>
    EXCHANGE_INFO_LENGTH < length exch"
proof (cases "length exch \<le> 32")
  case True
  then show ?thesis
    using BistMarketAccessor_ctor_ok [OF True assms, of user pwd equity] by (auto simp: EXCHANGE_INFO_LENGTH_def)
qed (simp add: BistMarketAccessor_ctor_def prepareEnterOrderBuffer_def EXCHANGE_INFO_LENGTH_def)

theorem exchange_info_overrun_witness:
  "BistMarketAccessor_ctor [] [] False (replicate 33 65) 0 = Inl OutOfBoundsWrite"
  using exchange_info_overrun [of 0 "[]" "[]" False "replicate 33 65"] by (simp add: EXCHANGE_INFO_LENGTH_def)

text \<open>
  Every login, also after earlier requests, asks for the session from sequence number 1: the
  sequence number of the session object is never advanced.
\<close>

theorem login_requests_sequence_one:
  assumes "BistMarketAccessor_ctor user pwd equity exch n = Inr acc" and "length exch \<le> 32"
    and "0 \<le> n" and "n + 1 < 2 ^ 31"
  shows "\<exists>pkt. tcp_written (login (fold (\<lambda>r acc. bma_step acc r) rs acc)) =
      tcp_written (fold (\<lambda>r acc. bma_step acc r) rs acc) @ [pkt] \<and>
    lr_username (get_soup_LoginRequest pkt) = toPaddedArray 6 user \<and>
    lr_password (get_soup_LoginRequest pkt) = toPaddedArray 10 pwd \<and>
    lr_sequenceNumber (get_soup_LoginRequest pkt) = toPaddedArray 20 [ascii CHR ''1'']"
proof -
  let ?acc = "fold (\<lambda>r acc. bma_step acc r) rs acc"
  let ?m = "\<lparr>lr_packetLength = be16toh (of_nat LOGIN_REQUEST_PACKET_LENGTH),
    lr_packetType = PacketType_val PacketType_LoginRequest,
    lr_username = toPaddedArray USERNAME_LENGTH user, lr_password = toPaddedArray PASSWORD_LENGTH pwd,
    lr_sessionName = toPaddedArray SESSION_NAME_LENGTH (bma_sessionName ?acc),
    lr_sequenceNumber = toPaddedArray REQUESTED_SEQUENCE_NUMBER_LENGTH (to_string 1)\<rparr>"
  have "tcp_written (login ?acc) = tcp_written ?acc @ [put_soup_LoginRequest ?m]"
    using BistMarketAccessor_ctor_ok [OF assms(2-4), of user pwd equity] assms(1) bma_run_constant [of rs acc]
    by (simp add: login_def Let_def tcp_write_def)
  moreover have "get_soup_LoginRequest (put_soup_LoginRequest ?m) = ?m"
    using soup_LoginRequest.get_put [of ?m "[]"] by (simp add: layout)
  moreover have "to_string 1 = [ascii CHR ''1'']" by (subst to_string.simps) (simp add: ascii_def)
  ultimately show ?thesis
    by (simp add: USERNAME_LENGTH_def PASSWORD_LENGTH_def REQUESTED_SEQUENCE_NUMBER_LENGTH_def)
qed

theorem login_requests_sequence_one_witness:
  "\<exists>acc pkt. BistMarketAccessor_ctor [] [] False [] 0 = Inr acc \<and> tcp_written (login acc) = [pkt] \<and>
     lr_sequenceNumber (get_soup_LoginRequest pkt) = toPaddedArray 20 [ascii CHR ''1'']"
proof -
  obtain acc where acc: "BistMarketAccessor_ctor [] [] False [] 0 = Inr acc" "tcp_written acc = []"
    using BistMarketAccessor_ctor_ok [of "[]" 0 "[]" "[]" False] by auto
  then show ?thesis using login_requests_sequence_one [OF acc(1), of "[]"] by auto
qed

end
