(* ===== verification/Tcp_Client.thy ===== *)
theory Tcp_Client
  imports Order_Entry_Client
begin

text \<open>
  \<^verbatim>\<open>src/lib/network/tcp_client.cpp\<close>: reassembly of SoupBinTCP packets from a byte stream and dispatch of
  the packets.  The reassembly is shown to hand over the packets of the stream in order, however the
  stream is cut into reads; the dispatch is shown to update the order manager as the responses say.
\<close>

section \<open>Reading and reassembling\<close>

definition BUFFER_SIZE :: nat where "BUFFER_SIZE = 4096"

record 's TcpClient =
  m_buffer :: "byte list"
  m_dataSize :: nat
  m_marketAccessor :: 's

definition TcpClient_ctor :: "'s \<Rightarrow> 's TcpClient" where
  "TcpClient_ctor market_accessor =
     \<lparr>m_buffer = replicate BUFFER_SIZE 0, m_dataSize = 0, m_marketAccessor = market_accessor\<rparr>"

text \<open>
  A handler gets the memory behind \<^verbatim>\<open>data\<close> up to the end of the buffer, and the length as a 16-bit
  value.  The offset never exceeds the data size, so the unsigned subtraction does not wrap.
\<close>

function processBuffer_loop ::
  "('s \<Rightarrow> byte list \<Rightarrow> nat \<Rightarrow> 's result) \<Rightarrow> byte list \<Rightarrow> nat \<Rightarrow> nat \<Rightarrow> 's \<Rightarrow> ('s \<times> nat) result" where
  "processBuffer_loop handle buf dataSize offset s =
     (if dataSize - offset \<ge> 2
      then
        let messageLength = unat (be16toh (get16 (drop offset buf))) in
        if dataSize - offset < 2 + messageLength then Inr (s, offset)
        else res_bind (handle s (drop offset buf) (unat (of_nat (2 + messageLength) :: u16)))
               (\<lambda>s'. processBuffer_loop handle buf dataSize (offset + (2 + messageLength)) s')
      else Inr (s, offset))"
  by auto

termination
  by (relation "measure (\<lambda>(handle, buf, dataSize, offset, s). dataSize - offset)") auto

declare processBuffer_loop.simps [simp del]

definition processBuffer :: "('s \<Rightarrow> byte list \<Rightarrow> nat \<Rightarrow> 's result) \<Rightarrow> 's TcpClient \<Rightarrow> 's TcpClient result" where
  "processBuffer handle tc =
     res_bind (processBuffer_loop handle (m_buffer tc) (m_dataSize tc) 0 (m_marketAccessor tc))
       (\<lambda>(s, offset).
         let tc' = tc\<lparr>m_marketAccessor := s\<rparr> in
         if offset > 0
         then Inr (tc'\<lparr>m_buffer :=
                         copy_to (m_buffer tc) 0 (take (m_dataSize tc - offset) (drop offset (m_buffer tc))),
                       m_dataSize := m_dataSize tc - offset\<rparr>)
         else Inr tc')"

text \<open>
  What \<^verbatim>\<open>::read\<close> can do: fail, or deliver bytes into the free part of the buffer (none when the peer has
  closed the connection).
\<close>

datatype read_result = ReadError | ReadBytes "byte list"

definition readFromSocket :: "'s TcpClient \<Rightarrow> byte list \<Rightarrow> 's TcpClient" where
  "readFromSocket tc bytes =
     tc\<lparr>m_buffer := copy_to (m_buffer tc) (m_dataSize tc) bytes,
        m_dataSize := m_dataSize tc + length bytes\<rparr>"

text \<open>The reads that happen before a stop is requested are given as a list.\<close>

fun startRead ::
  "('s \<Rightarrow> byte list \<Rightarrow> nat \<Rightarrow> 's result) \<Rightarrow> 's TcpClient \<Rightarrow> read_result list \<Rightarrow> 's TcpClient result" where
  "startRead handle tc [] = Inr tc"
| "startRead handle tc (ReadError # rs) = Inr tc"
| "startRead handle tc (ReadBytes bytes # rs) =
     (let tc' = readFromSocket tc bytes in
      if bytes = [] then Inr tc'
      else res_bind (processBuffer handle tc') (\<lambda>tc''. startRead handle tc'' rs))"

section \<open>The packets of a stream\<close>

function split_frames :: "byte list \<Rightarrow> byte list list \<times> byte list" where
  "split_frames bs =
     (if length bs < 2 \<or> length bs < 2 + be_val (take 2 bs) then ([], bs)
      else case split_frames (drop (2 + be_val (take 2 bs)) bs) of
             (fs, r) \<Rightarrow> (take (2 + be_val (take 2 bs)) bs # fs, r))"
  by auto

termination
  by (relation "measure length") auto

declare split_frames.simps [simp del]

lemma split_frames_short:
  "length bs < 2 \<or> length bs < 2 + be_val (take 2 bs) \<Longrightarrow> split_frames bs = ([], bs)"
  by (subst split_frames.simps) simp

lemma split_frames_cons:
  assumes "well_framed m"
  shows "split_frames (m @ bs) = (m # fst (split_frames bs), snd (split_frames bs))"
proof -
  have m: "2 \<le> length m" "length m = 2 + be_val (take 2 m)" using assms by (auto simp: well_framed_def)
  then have "take 2 (m @ bs) = take 2 m" by simp
  then show ?thesis using m by (subst split_frames.simps) (simp add: case_prod_beta)
qed

lemma split_frames_cases:
  obtains (short) "split_frames bs = ([], bs)" "length bs < 2 \<or> length bs < 2 + be_val (take 2 bs)"
  | (cons) m bs' where "bs = m @ bs'" "well_framed m" "length bs' < length bs"
proof (cases "length bs < 2 \<or> length bs < 2 + be_val (take 2 bs)")
  case True
  then show ?thesis using that(1) split_frames_short by blast
next
  case False
  let ?n = "2 + be_val (take 2 bs)"
  have "well_framed (take ?n bs)" using False by (simp add: well_framed_def min_def)
  moreover have "length (drop ?n bs) < length bs" using False by (cases bs) auto
  ultimately show ?thesis using that(2) [of "take ?n bs" "drop ?n bs"] by simp
qed

lemma split_frames_append:
  "split_frames (a @ b) =
     (fst (split_frames a) @ fst (split_frames (snd (split_frames a) @ b)),
      snd (split_frames (snd (split_frames a) @ b)))"
proof (induction a rule: length_induct)
  case (1 a)
  show ?case
  proof (cases rule: split_frames_cases [of a])
    case (cons m a')
    then have "split_frames (a' @ b) =
      (fst (split_frames a') @ fst (split_frames (snd (split_frames a') @ b)),
       snd (split_frames (snd (split_frames a') @ b)))" using 1 by blast
    then show ?thesis using cons split_frames_cons [of m] by simp
  qed simp
qed

lemma split_frames_rest: "split_frames (snd (split_frames bs)) = ([], snd (split_frames bs))"
proof (induction bs rule: length_induct)
  case (1 bs)
  show ?case
  proof (cases rule: split_frames_cases [of bs])
    case (cons m bs')
    then show ?thesis using 1 split_frames_cons [of m bs'] by simp
  qed simp
qed

lemma split_frames_none: "fst (split_frames bs) = [] \<Longrightarrow> split_frames bs = ([], bs)"
  by (cases rule: split_frames_cases [of bs]) (auto simp: split_frames_cons)

section \<open>Reassembly is splitting\<close>

text \<open>
  What the reassembly needs of a handler: on the packets of interest it depends on the packet only and
  not on what lies behind it in the buffer, given \<open>slack\<close> further bytes of buffer.
\<close>

locale frame_handler =
  fixes handle :: "'s \<Rightarrow> byte list \<Rightarrow> nat \<Rightarrow> 's result" and good :: "byte list \<Rightarrow> bool"
    and slack :: nat and step :: "'s \<Rightarrow> byte list \<Rightarrow> 's result"
  assumes frame_local: "good m \<Longrightarrow> well_framed m \<Longrightarrow> slack \<le> length rest \<Longrightarrow>
    handle s (m @ rest) (length m) = step s m"
begin

lemma loop_frames:
  assumes "length pre + length bs < 2 ^ 16" and "slack \<le> length rest"
    and "\<forall>m \<in> set (fst (split_frames bs)). good m"
  shows "processBuffer_loop handle (pre @ bs @ rest) (length pre + length bs) (length pre) s =
    res_bind (res_fold step s (fst (split_frames bs)))
      (\<lambda>s'. Inr (s', length pre + length bs - length (snd (split_frames bs))))"
  using assms
proof (induction bs arbitrary: pre s rule: length_induct)
  case (1 bs)
  have len: "unat (be16toh (get16 (bs @ rest))) = be_val (take 2 bs)" if "2 \<le> length bs"
    using that network_order(1) [of "bs @ rest"] by simp
  show ?case
  proof (cases rule: split_frames_cases [of bs])
    case short
    then show ?thesis
      by (subst processBuffer_loop.simps) (auto simp: len)
  next
    case (cons m bs')
    have m: "2 \<le> length m" "length m = 2 + be_val (take 2 m)" "take 2 (m @ bs') = take 2 m"
      using cons(2) by (auto simp: well_framed_def)
    have small: "unat (of_nat (length m) :: u16) = length m"
      using "1.prems"(1) cons(1) by (simp add: unat_of_nat)
    have good: "good m" "\<forall>m \<in> set (fst (split_frames bs')). good m"
      using "1.prems"(3) split_frames_cons [OF cons(2), of bs'] by (simp_all add: cons(1))
    have step: "handle s (m @ bs' @ rest) (length m) = step s m"
      using frame_local [OF good(1) cons(2), of "bs' @ rest"] "1.prems"(2) by simp
    have "processBuffer_loop handle (pre @ bs @ rest) (length pre + length bs) (length pre) s =
        res_bind (step s m) (\<lambda>s'. processBuffer_loop handle ((pre @ m) @ bs' @ rest)
          (length (pre @ m) + length bs') (length (pre @ m)) s')"
      using m small step len by (subst processBuffer_loop.simps) (simp add: cons(1) add.assoc Let_def)
    moreover have "processBuffer_loop handle ((pre @ m) @ bs' @ rest)
          (length (pre @ m) + length bs') (length (pre @ m)) s' =
        res_bind (res_fold step s' (fst (split_frames bs')))
          (\<lambda>s''. Inr (s'', length (pre @ m) + length bs' - length (snd (split_frames bs'))))" for s'
      using "1.IH" [rule_format, of bs' "pre @ m" s'] "1.prems"(1,2) good(2) cons by simp
    ultimately show ?thesis
      using split_frames_cons [OF cons(2), of bs'] by (simp add: cons(1) res_bind_assoc add.assoc)
  qed
qed

text \<open>The bytes that wait in the buffer, and the reads that the buffer has room for.\<close>

end

definition tc_data :: "'s TcpClient \<Rightarrow> byte list" where
  "tc_data tc = take (m_dataSize tc) (m_buffer tc)"

definition tc_ok :: "'s TcpClient \<Rightarrow> bool" where
  "tc_ok tc \<longleftrightarrow> length (m_buffer tc) = BUFFER_SIZE \<and> m_dataSize tc \<le> BUFFER_SIZE"

fun chunks_fit :: "nat \<Rightarrow> byte list \<Rightarrow> byte list list \<Rightarrow> bool" where
  "chunks_fit slack waiting [] \<longleftrightarrow> True"
| "chunks_fit slack waiting (c # cs) \<longleftrightarrow>
     c \<noteq> [] \<and> length waiting + length c + slack \<le> BUFFER_SIZE \<and>
     chunks_fit slack (snd (split_frames (waiting @ c))) cs"

lemma readFromSocket_data:
  assumes "tc_ok tc" and "m_dataSize tc + length bytes \<le> BUFFER_SIZE"
  shows "tc_data (readFromSocket tc bytes) = tc_data tc @ bytes" "tc_ok (readFromSocket tc bytes)"
  using assms by (auto simp: readFromSocket_def tc_data_def tc_ok_def copy_to_def min_absorb2)

lemma snd_split_frames_suffix: "\<exists>p. bs = p @ snd (split_frames bs)"
proof (induction bs rule: length_induct)
  case (1 bs)
  show ?case
  proof (cases rule: split_frames_cases [of bs])
    case (cons m bs')
    then obtain p where "bs' = p @ snd (split_frames bs')" using 1 by blast
    then have "bs = (m @ p) @ snd (split_frames bs)" using cons split_frames_cons [of m bs'] by simp
    then show ?thesis by blast
  qed simp
qed

text \<open>Pieces that fit into the buffer all together fit one by one.\<close>

lemma small_chunks_fit:
  "[] \<notin> set cs \<Longrightarrow> length waiting + length (concat cs) + slack \<le> BUFFER_SIZE \<Longrightarrow> chunks_fit slack waiting cs"
proof (induction cs arbitrary: waiting)
  case (Cons c cs)
  obtain p where "waiting @ c = p @ snd (split_frames (waiting @ c))" using snd_split_frames_suffix by blast
  then have "length (snd (split_frames (waiting @ c))) \<le> length waiting + length c"
    by (metis le_add2 length_append)
  then show ?case using Cons by auto
qed simp

context frame_handler
begin

lemma processBuffer_frames:
  assumes ok: "tc_ok tc" and room: "m_dataSize tc + slack \<le> BUFFER_SIZE"
    and good: "\<forall>m \<in> set (fst (split_frames (tc_data tc))). good m"
  shows "case res_fold step (m_marketAccessor tc) (fst (split_frames (tc_data tc))) of
      Inl e \<Rightarrow> processBuffer handle tc = Inl e
    | Inr s \<Rightarrow> \<exists>tc'. processBuffer handle tc = Inr tc' \<and> m_marketAccessor tc' = s \<and>
        tc_data tc' = snd (split_frames (tc_data tc)) \<and> tc_ok tc'"
proof -
  let ?d = "tc_data tc" and ?rest = "drop (m_dataSize tc) (m_buffer tc)"
  let ?k = "m_dataSize tc - length (snd (split_frames ?d))"
  have len: "length ?d = m_dataSize tc" "m_buffer tc = ?d @ ?rest" "length (m_buffer tc) = BUFFER_SIZE"
    using ok by (simp_all add: tc_data_def tc_ok_def)
  have loop: "processBuffer_loop handle (m_buffer tc) (m_dataSize tc) 0 (m_marketAccessor tc) =
      res_bind (res_fold step (m_marketAccessor tc) (fst (split_frames ?d))) (\<lambda>s'. Inr (s', ?k))"
    using loop_frames [of "[]" ?d ?rest "m_marketAccessor tc"] good room len ok
    by (simp add: BUFFER_SIZE_def tc_ok_def)
  obtain p where p: "?d = p @ snd (split_frames ?d)" using snd_split_frames_suffix by blast
  then have k: "?k = length p" "drop (length p) (m_buffer tc) = snd (split_frames ?d) @ ?rest"
    using len by (metis add_diff_cancel_right' length_append, metis append.assoc append_eq_conv_conj)
  have rest: "length (snd (split_frames ?d)) = m_dataSize tc - length p" "length p \<le> m_dataSize tc"
    using p len(1) by (metis add_diff_cancel_left' length_append, metis le_add1 length_append)
  show ?thesis
  proof (cases "res_fold step (m_marketAccessor tc) (fst (split_frames ?d))")
    case (Inr s)
    let ?tc = "if 0 < length p then tc\<lparr>m_marketAccessor := s, m_buffer := copy_to (m_buffer tc) 0 (snd (split_frames ?d)),
        m_dataSize := m_dataSize tc - length p\<rparr> else tc\<lparr>m_marketAccessor := s\<rparr>"
    have "processBuffer handle tc = Inr ?tc"
      using loop Inr k rest by (simp add: processBuffer_def Let_def)
    moreover have "tc_data ?tc = snd (split_frames ?d)" "tc_ok ?tc" "m_marketAccessor ?tc = s"
      using p ok rest len by (auto simp: tc_data_def tc_ok_def copy_to_def)
    ultimately show ?thesis using Inr by auto
  qed (use loop in \<open>simp add: processBuffer_def\<close>)
qed

lemma startRead_frames:
  assumes "tc_ok tc" and "fst (split_frames (tc_data tc)) = []" and "chunks_fit slack (tc_data tc) cs"
    and "\<forall>m \<in> set (fst (split_frames (tc_data tc @ concat cs))). good m"
  shows "case res_fold step (m_marketAccessor tc) (fst (split_frames (tc_data tc @ concat cs))) of
      Inl e \<Rightarrow> startRead handle tc (map ReadBytes cs) = Inl e
    | Inr s \<Rightarrow> \<exists>tc'. startRead handle tc (map ReadBytes cs) = Inr tc' \<and> m_marketAccessor tc' = s \<and>
        tc_data tc' = snd (split_frames (tc_data tc @ concat cs)) \<and> tc_ok tc'"
  using assms
proof (induction cs arbitrary: tc)
  case Nil
  then show ?case using split_frames_none [of "tc_data tc"] by simp
next
  case (Cons c cs)
  let ?tc = "readFromSocket tc c" and ?d = "tc_data tc @ c"
  have c: "c \<noteq> []" "length (tc_data tc) + length c + slack \<le> BUFFER_SIZE"
    "chunks_fit slack (snd (split_frames ?d)) cs" using Cons.prems(3) by simp_all
  have size: "length (tc_data tc) = m_dataSize tc" using Cons.prems(1) by (simp add: tc_data_def tc_ok_def)
  have tc: "tc_data ?tc = ?d" "tc_ok ?tc" "m_marketAccessor ?tc = m_marketAccessor tc"
    "m_dataSize ?tc + slack \<le> BUFFER_SIZE"
    using readFromSocket_data [OF Cons.prems(1), of c] c(2) size by (simp_all add: readFromSocket_def)
  have whole: "split_frames (tc_data tc @ concat (c # cs)) =
      (fst (split_frames ?d) @ fst (split_frames (snd (split_frames ?d) @ concat cs)),
       snd (split_frames (snd (split_frames ?d) @ concat cs)))"
    using split_frames_append [of ?d "concat cs"] by simp
  have good: "\<forall>m \<in> set (fst (split_frames (tc_data ?tc))). good m"
    "\<forall>m \<in> set (fst (split_frames (snd (split_frames ?d) @ concat cs))). good m"
    using Cons.prems(4) whole tc(1) by auto
  note head = processBuffer_frames [OF tc(2,4) good(1), unfolded tc(1,3)]
  show ?case
  proof (cases "res_fold step (m_marketAccessor tc) (fst (split_frames ?d))")
    case (Inl e)
    then show ?thesis using head whole c(1) by (simp add: res_fold_append)
  next
    case (Inr s)
    obtain tc' where tc': "processBuffer handle ?tc = Inr tc'" "m_marketAccessor tc' = s"
      "tc_data tc' = snd (split_frames ?d)" "tc_ok tc'" using head Inr by auto
    have ih: "case res_fold step s (fst (split_frames (tc_data tc' @ concat cs))) of
        Inl e \<Rightarrow> startRead handle tc' (map ReadBytes cs) = Inl e
      | Inr s \<Rightarrow> \<exists>tc''. startRead handle tc' (map ReadBytes cs) = Inr tc'' \<and> m_marketAccessor tc'' = s \<and>
          tc_data tc'' = snd (split_frames (tc_data tc' @ concat cs)) \<and> tc_ok tc''"
      using Cons.IH [of tc'] tc' c(3) good(2) split_frames_rest [of ?d] by simp
    have run: "startRead handle tc (map ReadBytes (c # cs)) = startRead handle tc' (map ReadBytes cs)"
      using tc'(1) c(1) by simp
    have steps: "res_fold step (m_marketAccessor tc) (fst (split_frames (tc_data tc @ concat (c # cs)))) =
        res_fold step s (fst (split_frames (tc_data tc' @ concat cs)))"
      "snd (split_frames (tc_data tc @ concat (c # cs))) = snd (split_frames (tc_data tc' @ concat cs))"
      using whole Inr tc'(3) by (simp_all add: res_fold_append)
    show ?thesis unfolding run steps by (rule ih)
  qed
qed

end

section \<open>Dispatch\<close>

text \<open>
  The client with the sizes of the writes that went past the structure they were meant for.  The
  responses are copied with \<^verbatim>\<open>length - sizeof(PacketType)\<close> bytes, which counts the two length bytes of the
  header as payload; the model records by how much a copy overruns its target and goes on with the
  bytes inside the target.
\<close>

record tcp_session =
  session_accessor :: BistMarketAccessor
  session_overruns :: "nat list"

definition memcpy_struct ::
  "nat \<Rightarrow> (byte list \<Rightarrow> 'a) \<Rightarrow> byte list \<Rightarrow> nat \<Rightarrow> nat \<Rightarrow> ('a \<times> nat) result" where
  "memcpy_struct width get mem off n =
     (if off + n \<le> length mem
      then Inr (get (take width (take n (drop off mem) @ replicate width 0)), n - width)
      else Inl OutOfBoundsRead)"

definition note_overrun :: "nat \<Rightarrow> tcp_session \<Rightarrow> tcp_session" where
  "note_overrun k ts = (if k = 0 then ts else ts\<lparr>session_overruns := session_overruns ts @ [k]\<rparr>)"

abbreviation on_accessor ::
  "(BistMarketAccessor \<Rightarrow> BistMarketAccessor) \<Rightarrow> tcp_session \<Rightarrow> tcp_session" where
  "on_accessor f ts \<equiv> ts\<lparr>session_accessor := f (session_accessor ts)\<rparr>"

abbreviation on_orders :: "(OrderManager \<Rightarrow> OrderManager) \<Rightarrow> tcp_session \<Rightarrow> tcp_session" where
  "on_orders f \<equiv> on_accessor (\<lambda>acc. acc\<lparr>m_orderManager := f (m_orderManager acc)\<rparr>)"

text \<open>The branches of \<^verbatim>\<open>handleMessage\<close> for the payloads of sequenced data.\<close>

definition handle_sequenced :: "tcp_session \<Rightarrow> byte list \<Rightarrow> nat \<Rightarrow> byte \<Rightarrow> tcp_session result" where
  "handle_sequenced ts data len payload_type =
     (if payload_type = ouch_MessageType_val ouch_MessageType_OrderCanceled
      then res_bind (memcpy_struct 37 get_ouch_OrderCanceled data 3 (len - 1))
             (\<lambda>(order_canceled, k). Inr (note_overrun k ts))
      else if payload_type = ouch_MessageType_val ouch_MessageType_OrderAccepted
      then res_bind (memcpy_struct 135 get_ouch_OrderAccepted data 3 (len - 1))
             (\<lambda>(order_accepted, k).
               Inr (on_accessor (\<lambda>acc. sendReplaceOrder acc (oa_order_token order_accepted) 775000)
                 (on_orders (\<lambda>om. orderAccepted om (oa_order_token order_accepted)
                     (be64toh (oa_quantity order_accepted)) (oa_orderbook_id order_accepted)
                     (sint (be32toh (oa_price order_accepted))) (oa_side order_accepted))
                   (note_overrun k ts))))
      else if payload_type = ouch_MessageType_val ouch_MessageType_OrderExecuted
      then res_bind (memcpy_struct 68 get_ouch_OrderExecuted data 3 (len - 1))
             (\<lambda>(order_executed, k).
               Inr (on_orders (\<lambda>om. orderExecuted om (oex_order_token order_executed)
                     (be64toh (oex_traded_quantity order_executed))) (note_overrun k ts)))
      else if payload_type = ouch_MessageType_val ouch_MessageType_OrderReplaced
      then res_bind (memcpy_struct 145 get_ouch_OrderReplaced data 3 (len - 1))
             (\<lambda>(order_replaced, k).
               Inr (on_accessor (\<lambda>acc. sendCancelOrder acc (ord_replacement_order_token order_replaced))
                 (note_overrun k ts)))
      else if payload_type = ouch_MessageType_val ouch_MessageType_OrderRejected
      then res_bind (memcpy_struct 27 get_ouch_OrderRejected data 3 (len - 1))
             (\<lambda>(order_rejected, k).
               Inr (on_orders (\<lambda>om. orderDeleted om (orj_order_token order_rejected)) (note_overrun k ts)))
      else Inr ts)"

definition handleMessage :: "tcp_session \<Rightarrow> byte list \<Rightarrow> nat \<Rightarrow> tcp_session result" where
  "handleMessage ts data len =
     res_bind (load 3 get_soup_SequencedData data 0) (\<lambda>sequenced_data.
       let packet_type = sd_packetType sequenced_data in
       if packet_type = PacketType_val PacketType_SequencedData
       then res_bind (load 1 get8 data 3) (handle_sequenced ts data len)
       else if packet_type = PacketType_val PacketType_ServerHeartbeat
       then Inr (on_accessor (\<lambda>acc. tcp_write acc (put_soup_ClientHeartbeat
              \<lparr>ch_packetLength = be16toh 1, ch_packetType = PacketType_val PacketType_ClientHeartbeat\<rparr>)) ts)
       else if packet_type = PacketType_val PacketType_LoginAccepted
       then res_bind (memcpy_struct 33 get_soup_LoginAccepted data 0 len)
              (\<lambda>(login_accepted, k).
                Inr (on_accessor (\<lambda>acc. onLoginAccepted acc login_accepted) (note_overrun k ts)))
       else if packet_type = PacketType_val PacketType_LoginRejected
       then res_bind (memcpy_struct 4 get_soup_LoginRejected data 0 len)
              (\<lambda>(login_rejected, k). Inr (note_overrun k ts))
       else Inr ts)"

section \<open>The packets of the exchange\<close>

datatype server_packet =
    SrvAccepted ouch_OrderAccepted
  | SrvExecuted ouch_OrderExecuted
  | SrvReplaced ouch_OrderReplaced
  | SrvRejected ouch_OrderRejected
  | SrvCanceled ouch_OrderCanceled
  | SrvLoginAccepted soup_LoginAccepted
  | SrvLoginRejected soup_LoginRejected
  | SrvHeartbeat
  | SrvEndOfSession

definition sequenced :: "byte list \<Rightarrow> byte list" where
  "sequenced body = put_soup_SequencedData
     \<lparr>sd_packetLength = be16toh (of_nat (Suc (length body))),
      sd_packetType = PacketType_val PacketType_SequencedData\<rparr> @ body"

fun packet_bytes :: "server_packet \<Rightarrow> byte list" where
  "packet_bytes (SrvAccepted m) = sequenced (put_ouch_OrderAccepted m)"
| "packet_bytes (SrvExecuted m) = sequenced (put_ouch_OrderExecuted m)"
| "packet_bytes (SrvReplaced m) = sequenced (put_ouch_OrderReplaced m)"
| "packet_bytes (SrvRejected m) = sequenced (put_ouch_OrderRejected m)"
| "packet_bytes (SrvCanceled m) = sequenced (put_ouch_OrderCanceled m)"
| "packet_bytes (SrvLoginAccepted m) = put_soup_LoginAccepted m"
| "packet_bytes (SrvLoginRejected m) = put_soup_LoginRejected m"
| "packet_bytes SrvHeartbeat = put_soup_ServerHeartbeat
     \<lparr>sh_packetLength = be16toh 1, sh_packetType = PacketType_val PacketType_ServerHeartbeat\<rparr>"
| "packet_bytes SrvEndOfSession = put_soup_EndOfSession
     \<lparr>eos_packetLength = be16toh 1, eos_packetType = PacketType_val PacketType_EndOfSession\<rparr>"

fun packet_valid :: "server_packet \<Rightarrow> bool" where
  "packet_valid (SrvAccepted m) \<longleftrightarrow>
     valid_ouch_OrderAccepted m \<and> oa_type m = ouch_MessageType_val ouch_MessageType_OrderAccepted"
| "packet_valid (SrvExecuted m) \<longleftrightarrow>
     valid_ouch_OrderExecuted m \<and> oex_type m = ouch_MessageType_val ouch_MessageType_OrderExecuted"
| "packet_valid (SrvReplaced m) \<longleftrightarrow>
     valid_ouch_OrderReplaced m \<and> ord_type m = ouch_MessageType_val ouch_MessageType_OrderReplaced"
| "packet_valid (SrvRejected m) \<longleftrightarrow>
     valid_ouch_OrderRejected m \<and> orj_type m = ouch_MessageType_val ouch_MessageType_OrderRejected"
| "packet_valid (SrvCanceled m) \<longleftrightarrow>
     valid_ouch_OrderCanceled m \<and> ocn_type m = ouch_MessageType_val ouch_MessageType_OrderCanceled"
| "packet_valid (SrvLoginAccepted m) \<longleftrightarrow> valid_soup_LoginAccepted m \<and>
     la_packetLength m = be16toh 31 \<and> la_packetType m = PacketType_val PacketType_LoginAccepted"
| "packet_valid (SrvLoginRejected m) \<longleftrightarrow>
     lj_packetLength m = be16toh 2 \<and> lj_packetType m = PacketType_val PacketType_LoginRejected"
| "packet_valid _ \<longleftrightarrow> True"

text \<open>What the client does on each packet.\<close>

fun packet_step :: "tcp_session \<Rightarrow> server_packet \<Rightarrow> tcp_session" where
  "packet_step ts (SrvAccepted m) =
     on_accessor (\<lambda>acc. sendReplaceOrder acc (oa_order_token m) 775000)
       (on_orders (\<lambda>om. orderAccepted om (oa_order_token m) (be64toh (oa_quantity m)) (oa_orderbook_id m)
           (sint (be32toh (oa_price m))) (oa_side m)) (note_overrun 2 ts))"
| "packet_step ts (SrvExecuted m) =
     on_orders (\<lambda>om. orderExecuted om (oex_order_token m) (be64toh (oex_traded_quantity m))) (note_overrun 2 ts)"
| "packet_step ts (SrvReplaced m) =
     on_accessor (\<lambda>acc. sendCancelOrder acc (ord_replacement_order_token m)) (note_overrun 2 ts)"
| "packet_step ts (SrvRejected m) =
     on_orders (\<lambda>om. orderDeleted om (orj_order_token m)) (note_overrun 2 ts)"
| "packet_step ts (SrvCanceled m) = note_overrun 2 ts"
| "packet_step ts (SrvLoginAccepted m) = on_accessor (\<lambda>acc. onLoginAccepted acc m) ts"
| "packet_step ts SrvHeartbeat =
     on_accessor (\<lambda>acc. tcp_write acc (put_soup_ClientHeartbeat
       \<lparr>ch_packetLength = be16toh 1, ch_packetType = PacketType_val PacketType_ClientHeartbeat\<rparr>)) ts"
| "packet_step ts _ = ts"

lemma sequenced_eq:
  "sequenced body = put16 (be16toh (of_nat (Suc (length body)))) @ PacketType_val PacketType_SequencedData # body"
  by (simp add: sequenced_def put_soup_SequencedData_def put8_def)

lemma length_sequenced: "length (sequenced body) = 3 + length body"
  by (simp add: sequenced_eq wire)

lemma sequenced_framed: "Suc (length body) < 2 ^ 16 \<Longrightarrow> well_framed (sequenced body)"
  unfolding sequenced_eq by (rule well_framedI) (simp add: unat_of_nat del: of_nat_Suc)

lemma packet_type_at:
  "load 3 get_soup_SequencedData (put16 n @ t # rest) 0 = Inr \<lparr>sd_packetLength = n, sd_packetType = t\<rparr>"
  using soup_SequencedData.get_put [of "\<lparr>sd_packetLength = n, sd_packetType = t\<rparr>" rest]
  by (simp add: load_def wire layout put8_def)

lemma memcpy_body:
  assumes "length body = w" and "2 \<le> length rest"
  shows "memcpy_struct w get (sequenced body @ rest) 3 (length (sequenced body) - Suc 0) = Inr (get body, 2)"
proof -
  have "drop 3 (sequenced body @ rest) = body @ rest" by (simp add: sequenced_eq wire)
  then show ?thesis using assms by (simp add: memcpy_struct_def length_sequenced)
qed

lemma handle_sequenced_packet:
  assumes "body \<noteq> []"
  shows "handleMessage ts (sequenced body @ rest) n = handle_sequenced ts (sequenced body @ rest) n (get8 body)"
proof -
  have "load 1 get8 (sequenced body @ rest) 3 = Inr (get8 body)"
    using assms by (cases body) (simp_all add: load_def sequenced_eq wire get8_def)
  moreover have "load 3 get_soup_SequencedData (sequenced body @ rest) 0 =
      Inr \<lparr>sd_packetLength = be16toh (of_nat (Suc (length body))),
           sd_packetType = PacketType_val PacketType_SequencedData\<rparr>"
    unfolding sequenced_eq append.assoc append_Cons by (rule packet_type_at)
  ultimately show ?thesis by (simp add: handleMessage_def del: PacketType_val.simps)
qed

lemma get8_responses:
  "get8 (put_ouch_OrderAccepted a) = oa_type a" "get8 (put_ouch_OrderExecuted e) = oex_type e"
  "get8 (put_ouch_OrderReplaced r) = ord_type r" "get8 (put_ouch_OrderRejected j) = orj_type j"
  "get8 (put_ouch_OrderCanceled c) = ocn_type c"
  by (simp_all add: put_ouch_OrderAccepted_def put_ouch_OrderExecuted_def put_ouch_OrderReplaced_def
      put_ouch_OrderRejected_def put_ouch_OrderCanceled_def wire)

lemmas response_codecs =
  ouch_OrderAccepted.get_put [of _ "[]", simplified] ouch_OrderAccepted.put_length
  ouch_OrderExecuted.get_put [of _ "[]", simplified] ouch_OrderExecuted.put_length
  ouch_OrderReplaced.get_put [of _ "[]", simplified] ouch_OrderReplaced.put_length
  ouch_OrderRejected.get_put [of _ "[]", simplified] ouch_OrderRejected.put_length
  ouch_OrderCanceled.get_put [of _ "[]", simplified] ouch_OrderCanceled.put_length

lemma responses_nonempty:
  "put_ouch_OrderAccepted a \<noteq> []" "put_ouch_OrderExecuted e \<noteq> []" "put_ouch_OrderReplaced r \<noteq> []"
  "put_ouch_OrderRejected j \<noteq> []" "put_ouch_OrderCanceled c \<noteq> []"
  by (simp_all add: put_ouch_OrderAccepted_def put_ouch_OrderExecuted_def put_ouch_OrderReplaced_def
      put_ouch_OrderRejected_def put_ouch_OrderCanceled_def put8_def)

lemma memcpy_body_short:
  "length rest < 2 \<Longrightarrow>
   memcpy_struct w get (sequenced body @ rest) 3 (length (sequenced body) - Suc 0) = Inl OutOfBoundsRead"
  by (simp add: memcpy_struct_def length_sequenced)

lemmas response_eval =
  handle_sequenced_packet [OF responses_nonempty(1)] handle_sequenced_packet [OF responses_nonempty(2)]
  handle_sequenced_packet [OF responses_nonempty(3)] handle_sequenced_packet [OF responses_nonempty(4)]
  handle_sequenced_packet [OF responses_nonempty(5)] handle_sequenced_def get8_responses memcpy_body
  memcpy_body_short response_codecs ascii_def

text \<open>The responses to orders, which travel as sequenced data.\<close>

fun is_response :: "server_packet \<Rightarrow> bool" where
  "is_response (SrvAccepted m) \<longleftrightarrow> True"
| "is_response (SrvExecuted m) \<longleftrightarrow> True"
| "is_response (SrvReplaced m) \<longleftrightarrow> True"
| "is_response (SrvRejected m) \<longleftrightarrow> True"
| "is_response (SrvCanceled m) \<longleftrightarrow> True"
| "is_response _ \<longleftrightarrow> False"

lemma handle_response:
  assumes "packet_valid p" and "2 \<le> length rest" and "is_response p"
  shows "handleMessage ts (packet_bytes p @ rest) (length (packet_bytes p)) = Inr (packet_step ts p)"
  using assms by (cases p) (simp_all add: response_eval)

lemma handle_response_short:
  assumes "packet_valid p" and "length rest < 2" and "is_response p"
  shows "handleMessage ts (packet_bytes p @ rest) (length (packet_bytes p)) = Inl OutOfBoundsRead"
  using assms by (cases p) (simp_all add: response_eval)

lemma memcpy_whole: "length bs = w \<Longrightarrow> memcpy_struct w get (bs @ rest) 0 w = Inr (get bs, 0)"
  by (simp add: memcpy_struct_def)

lemma handle_session_packet:
  assumes "packet_valid p" and "\<not> is_response p"
  shows "handleMessage ts (packet_bytes p @ rest) (length (packet_bytes p)) = Inr (packet_step ts p)"
proof (cases p)
  case p: (SrvLoginAccepted a)
  then have v: "valid_soup_LoginAccepted a" "la_packetType a = ascii CHR ''A''" using assms(1) by simp_all
  have "load 3 get_soup_SequencedData (put_soup_LoginAccepted a @ rest) 0 =
      Inr \<lparr>sd_packetLength = la_packetLength a, sd_packetType = la_packetType a\<rparr>"
    using packet_type_at by (simp add: put_soup_LoginAccepted_def put8_def)
  then show ?thesis
    using v memcpy_whole [OF soup_LoginAccepted.put_length [OF v(1)], of get_soup_LoginAccepted rest]
      soup_LoginAccepted.get_put [OF v(1), of "[]"] soup_LoginAccepted.put_length [OF v(1)]
    by (simp add: p handleMessage_def ascii_def note_overrun_def)
next
  case p: (SrvLoginRejected j)
  have v: "valid_soup_LoginRejected j" by (simp add: layout)
  have "load 3 get_soup_SequencedData (put_soup_LoginRejected j @ rest) 0 =
      Inr \<lparr>sd_packetLength = lj_packetLength j, sd_packetType = lj_packetType j\<rparr>"
    using packet_type_at by (simp add: put_soup_LoginRejected_def put8_def)
  then show ?thesis
    using assms(1) memcpy_whole [OF soup_LoginRejected.put_length [OF v], of get_soup_LoginRejected rest]
      soup_LoginRejected.put_length [OF v]
    by (simp add: p handleMessage_def ascii_def note_overrun_def)
next
  case p: SrvHeartbeat
  show ?thesis
    using packet_type_at [of "be16toh 1" "ascii CHR ''H''" rest]
    by (simp add: p handleMessage_def put_soup_ServerHeartbeat_def put8_def ascii_def)
next
  case p: SrvEndOfSession
  show ?thesis
    using packet_type_at [of "be16toh 1" "ascii CHR ''Z''" rest]
    by (simp add: p handleMessage_def put_soup_EndOfSession_def put8_def ascii_def)
qed (use assms(2) in simp_all)

lemma handleMessage_packet:
  assumes "packet_valid p" and "2 \<le> length rest"
  shows "handleMessage ts (packet_bytes p @ rest) (length (packet_bytes p)) = Inr (packet_step ts p)"
  using handle_response [OF assms] handle_session_packet [OF assms(1)] by blast

lemma packet_bytes_framed:
  assumes "packet_valid p"
  shows "well_framed (packet_bytes p)"
proof (cases p)
  case (SrvLoginAccepted m)
  then show ?thesis using assms
    by (auto simp: put_soup_LoginAccepted_def put8_def layout intro!: well_framedI)
next
  case (SrvLoginRejected m)
  then show ?thesis using assms
    by (auto simp: put_soup_LoginRejected_def put8_def intro!: well_framedI)
qed (use assms in \<open>auto simp: response_codecs put_soup_ServerHeartbeat_def put_soup_EndOfSession_def put8_def
    intro!: sequenced_framed well_framedI\<close>)

text \<open>\<open>handleMessage\<close> is a handler for the reassembly; it reads up to two bytes behind a packet.\<close>

definition client_good :: "byte list \<Rightarrow> bool" where
  "client_good m \<longleftrightarrow> (\<exists>p. packet_valid p \<and> m = packet_bytes p)"

definition client_step :: "tcp_session \<Rightarrow> byte list \<Rightarrow> tcp_session result" where
  "client_step ts m = handleMessage ts (m @ [0, 0]) (length m)"

interpretation client: frame_handler handleMessage client_good 2 client_step
  by unfold_locales (auto simp: client_good_def client_step_def handleMessage_packet)

lemma client_step_packet: "packet_valid p \<Longrightarrow> client_step ts (packet_bytes p) = Inr (packet_step ts p)"
  by (simp add: client_step_def handleMessage_packet)

lemma client_steps:
  "\<forall>p \<in> set ps. packet_valid p \<Longrightarrow>
   res_fold client_step ts (map packet_bytes ps) = Inr (fold (\<lambda>p ts. packet_step ts p) ps ts)"
  by (induction ps arbitrary: ts) (simp_all add: client_step_packet)

lemma split_frames_packets:
  "\<forall>p \<in> set ps. packet_valid p \<Longrightarrow>
   split_frames (concat (map packet_bytes ps) @ bs) = (map packet_bytes ps @ fst (split_frames bs), snd (split_frames bs))"
  by (induction ps) (simp_all add: packet_bytes_framed split_frames_cons)

lemma split_frames_Nil [simp]: "split_frames [] = ([], [])"
  by (simp add: split_frames_short)

lemma client_stream:
  assumes "\<forall>p \<in> set ps. packet_valid p" and "concat cs = concat (map packet_bytes ps)" and "chunks_fit 2 [] cs"
  shows "\<exists>tc'. startRead handleMessage (TcpClient_ctor ts) (map ReadBytes cs) = Inr tc' \<and>
    m_marketAccessor tc' = fold (\<lambda>p ts. packet_step ts p) ps ts \<and> tc_data tc' = []"
proof -
  let ?tc = "TcpClient_ctor ts"
  have tc: "tc_ok ?tc" "tc_data ?tc = []" "m_marketAccessor ?tc = ts"
    by (simp_all add: TcpClient_ctor_def tc_ok_def tc_data_def)
  have frames: "split_frames (concat cs) = (map packet_bytes ps, [])"
    using split_frames_packets [OF assms(1), of "[]"] assms(2) by simp
  have "\<forall>m \<in> set (map packet_bytes ps). client_good m" using assms(1) by (auto simp: client_good_def)
  then show ?thesis
    using client.startRead_frames [OF tc(1), of cs] assms(3) tc frames client_steps [OF assms(1), of ts]
    by auto
qed

section \<open>Properties\<close>

definition sample_canceled :: ouch_OrderCanceled where
  "sample_canceled = \<lparr>ocn_type = ascii CHR ''C'', ocn_timestamp = 0, ocn_order_token = replicate 14 48,
     ocn_orderbook_id = 0, ocn_side = 66, ocn_order_id = 0, ocn_cancel_reason = 1\<rparr>"

definition sample_rejected :: ouch_OrderRejected where
  "sample_rejected = \<lparr>orj_type = ascii CHR ''J'', orj_timestamp = 0, orj_order_token = replicate 14 48,
     orj_reject_code = 0\<rparr>"

lemma sample_responses_valid:
  "packet_valid (SrvCanceled sample_canceled)" "packet_valid (SrvRejected sample_rejected)"
  by (simp_all add: sample_canceled_def sample_rejected_def layout)

lemma le_bytes_2: "le_bytes 2 v = [of_nat v, of_nat (v div 256)]"
  by (simp add: numeral_2_eq_2)

lemma heartbeat_bytes: "packet_bytes SrvHeartbeat = [0, 1, 72]"
  by (simp add: put_soup_ServerHeartbeat_def put16_def put8_def be16toh_def bswap_def ascii_def le_bytes_2)

lemma heartbeat_split:
  "split_frames [0, 1, 72] = ([[0, 1, 72]], [])" "split_frames [0] = ([], [0])"
  using split_frames_packets [of "[SrvHeartbeat]" "[]"] heartbeat_bytes
  by (simp_all add: split_frames_short del: packet_bytes.simps)

lemma heartbeat_chunks: "chunks_fit 2 [] [[0], [1, 72]]" "chunks_fit 2 [] [[0, 1, 72]]"
  by (simp_all add: heartbeat_split BUFFER_SIZE_def)

text \<open>
  However the packets of the exchange are cut into reads, as long as the buffer has room, the client
  handles exactly these packets in their order and leaves nothing in the buffer.
\<close>

theorem stream_dispatch:
  assumes "\<forall>p \<in> set ps. packet_valid p" and "concat cs = concat (map packet_bytes ps)" and "chunks_fit 2 [] cs"
  shows "\<exists>tc'. startRead handleMessage (TcpClient_ctor ts) (map ReadBytes cs) = Inr tc' \<and>
    m_marketAccessor tc' = fold (\<lambda>p ts. packet_step ts p) ps ts \<and> tc_data tc' = []"
  using assms by (rule client_stream)

theorem stream_dispatch_witness:
  "\<forall>ts. \<exists>tc'. startRead handleMessage (TcpClient_ctor ts) (map ReadBytes [[0], [1, 72]]) = Inr tc' \<and>
     m_marketAccessor tc' = packet_step ts SrvHeartbeat \<and> tc_data tc' = []"
proof
  fix ts
  show "\<exists>tc'. startRead handleMessage (TcpClient_ctor ts) (map ReadBytes [[0], [1, 72]]) = Inr tc' \<and>
     m_marketAccessor tc' = packet_step ts SrvHeartbeat \<and> tc_data tc' = []"
    using stream_dispatch [of "[SrvHeartbeat]" "[[0], [1, 72]]" ts] heartbeat_chunks(1) heartbeat_bytes
    by (simp del: packet_bytes.simps startRead.simps packet_step.simps)
qed

text \<open>
  Reassembly does not depend on where the stream is cut: with any handler that is local to its
  packets, two ways of reading the same bytes give the same result and leave the same bytes waiting.
\<close>

theorem chunking_irrelevant:
  assumes "concat cs = concat ds" and "chunks_fit 2 [] cs" and "chunks_fit 2 [] ds"
    and "\<forall>m \<in> set (fst (split_frames (concat cs))). client_good m"
  shows "map_sum id (\<lambda>tc. (m_marketAccessor tc, tc_data tc))
      (startRead handleMessage (TcpClient_ctor ts) (map ReadBytes cs)) =
    map_sum id (\<lambda>tc. (m_marketAccessor tc, tc_data tc))
      (startRead handleMessage (TcpClient_ctor ts) (map ReadBytes ds))"
proof -
  let ?tc = "TcpClient_ctor ts"
  have tc: "tc_ok ?tc" "tc_data ?tc = []" "m_marketAccessor ?tc = ts"
    by (simp_all add: TcpClient_ctor_def tc_ok_def tc_data_def)
  show ?thesis
    using client.startRead_frames [OF tc(1), of cs] client.startRead_frames [OF tc(1), of ds] assms tc
    by (auto split: sum.splits)
qed

theorem chunking_irrelevant_witness:
  "\<forall>ts. map_sum id (\<lambda>tc. (m_marketAccessor tc, tc_data tc))
      (startRead handleMessage (TcpClient_ctor ts) (map ReadBytes [[0], [1, 72]])) =
    map_sum id (\<lambda>tc. (m_marketAccessor tc, tc_data tc))
      (startRead handleMessage (TcpClient_ctor ts) (map ReadBytes [[0, 1, 72]]))"
proof
  fix ts
  have "client_good [0, 1, 72]"
    unfolding client_good_def by (rule exI [of _ SrvHeartbeat]) (simp only: heartbeat_bytes packet_valid.simps)
  then show "map_sum id (\<lambda>tc. (m_marketAccessor tc, tc_data tc))
      (startRead handleMessage (TcpClient_ctor ts) (map ReadBytes [[0], [1, 72]])) =
    map_sum id (\<lambda>tc. (m_marketAccessor tc, tc_data tc))
      (startRead handleMessage (TcpClient_ctor ts) (map ReadBytes [[0, 1, 72]]))"
    by (intro chunking_irrelevant heartbeat_chunks) (simp_all add: heartbeat_split)
qed

text \<open>
  C37. Every well-formed response of the exchange to an order overruns the structure it is copied to by
  two bytes, and when fewer than two bytes of buffer lie behind it the copy reads past the buffer.
\<close>

theorem order_response_overruns:
  assumes "packet_valid p" and "is_response p"
  shows "if 2 \<le> length rest
    then \<exists>ts'. handleMessage ts (packet_bytes p @ rest) (length (packet_bytes p)) = Inr ts' \<and>
      session_overruns ts' = session_overruns ts @ [2]
    else handleMessage ts (packet_bytes p @ rest) (length (packet_bytes p)) = Inl OutOfBoundsRead"
  using handle_response [OF assms(1) _ assms(2), of rest ts] handle_response_short [OF assms(1) _ assms(2), of rest ts]
    assms(2) by (cases p) (simp_all add: note_overrun_def)

theorem order_response_overruns_witness:
  "\<forall>ts. (\<exists>ts'. handleMessage ts (packet_bytes (SrvCanceled sample_canceled) @ [0, 0])
        (length (packet_bytes (SrvCanceled sample_canceled))) = Inr ts' \<and>
      session_overruns ts' = session_overruns ts @ [2]) \<and>
    handleMessage ts (packet_bytes (SrvCanceled sample_canceled) @ [])
      (length (packet_bytes (SrvCanceled sample_canceled))) = Inl OutOfBoundsRead"
  using order_response_overruns [OF sample_responses_valid(1), of "[0, 0]"]
    order_response_overruns [OF sample_responses_valid(1), of "[]"]
  by (simp del: packet_bytes.simps)

text \<open>
  A cancellation from the exchange leaves the stored orders as they are: the client keeps a cancelled
  order valid, while a rejection makes its order invalid.
\<close>

theorem cancel_keeps_orders:
  assumes "packet_valid (SrvCanceled c)" and "packet_valid (SrvRejected j)" and "2 \<le> length rest"
  shows "\<exists>ts1 ts2.
    handleMessage ts (packet_bytes (SrvCanceled c) @ rest) (length (packet_bytes (SrvCanceled c))) = Inr ts1 \<and>
    session_accessor ts1 = session_accessor ts \<and>
    handleMessage ts (packet_bytes (SrvRejected j) @ rest) (length (packet_bytes (SrvRejected j))) = Inr ts2 \<and>
    m_orderManager (session_accessor ts2) =
      orderDeleted (m_orderManager (session_accessor ts)) (orj_order_token j)"
  using handleMessage_packet [OF assms(1,3), of ts] handleMessage_packet [OF assms(2,3), of ts]
  by (simp add: note_overrun_def)

theorem cancel_keeps_orders_witness:
  "\<forall>ts. \<exists>ts1. handleMessage ts (packet_bytes (SrvCanceled sample_canceled) @ [0, 0])
      (length (packet_bytes (SrvCanceled sample_canceled))) = Inr ts1 \<and> session_accessor ts1 = session_accessor ts"
  using cancel_keeps_orders [OF sample_responses_valid, of "[0, 0]"] by (auto simp del: packet_bytes.simps)

end
