(* ===== verification/Exchange_Emulator.thy ===== *)
theory Exchange_Emulator
  imports Tcp_Client
begin

text \<open>
  \<^verbatim>\<open>src/lib/network/tcp_server.cpp\<close> and \<^verbatim>\<open>src/apps/exchange_emulator.cpp\<close>: the table of connections of the
  server and the login service that runs on it.  The kernel (accepted descriptors, bytes read) is an
  argument; what is written to a connection is kept with the connection.
\<close>

section \<open>The server\<close>

record TcpServer =
  m_clients :: "int \<Rightarrow> byte list list option"
  connection_events :: "(int \<times> bool) list"
  m_running :: bool

definition TcpServer_ctor :: TcpServer where
  "TcpServer_ctor = \<lparr>m_clients = Map.empty, connection_events = [], m_running = False\<rparr>"

text \<open>\<open>socket_ok\<close>: the listening socket could be set up; \<open>epoll_ok\<close>: it could be registered with epoll.\<close>

definition TcpServer_start :: "TcpServer \<Rightarrow> bool \<Rightarrow> bool \<Rightarrow> TcpServer result" where
  "TcpServer_start sv socket_ok epoll_ok =
     (if m_running sv then Inr sv
      else if \<not> socket_ok then Inl (Thrown ''server socket'')
      else if \<not> epoll_ok then Inl (Thrown ''Failed to add server socket to epoll'')
      else Inr (sv\<lparr>m_running := True\<rparr>))"

definition removeClient :: "TcpServer \<Rightarrow> int \<Rightarrow> TcpServer" where
  "removeClient sv client_fd =
     (case m_clients sv client_fd of
        None \<Rightarrow> sv
      | Some _ \<Rightarrow> sv\<lparr>connection_events := connection_events sv @ [(client_fd, False)],
                     m_clients := (m_clients sv)(client_fd := None)\<rparr>)"

definition disconnectClient :: "TcpServer \<Rightarrow> int \<Rightarrow> TcpServer" where
  "disconnectClient sv client_fd = removeClient sv client_fd"

definition sendToClient :: "TcpServer \<Rightarrow> int \<Rightarrow> byte list \<Rightarrow> TcpServer" where
  "sendToClient sv client_fd buffer =
     (case m_clients sv client_fd of
        None \<Rightarrow> sv
      | Some written \<Rightarrow> sv\<lparr>m_clients := (m_clients sv)(client_fd \<mapsto> written @ [buffer])\<rparr>)"

definition broadcastToAll :: "TcpServer \<Rightarrow> byte list \<Rightarrow> TcpServer" where
  "broadcastToAll sv buffer =
     sv\<lparr>m_clients := (\<lambda>fd. map_option (\<lambda>written. written @ [buffer]) (m_clients sv fd))\<rparr>"

text \<open>
  One descriptor returned by \<^verbatim>\<open>accept\<close> and whether it could be made non-blocking; the loop ends when
  \<^verbatim>\<open>accept\<close> fails.  A new connection replaces an old entry of the same descriptor.
\<close>

fun handleNewConnection :: "TcpServer \<Rightarrow> (int \<times> bool) list \<Rightarrow> TcpServer" where
  "handleNewConnection sv [] = sv"
| "handleNewConnection sv ((client_fd, nonblocking) # accepted) =
     (if client_fd < 0 then sv
      else if \<not> nonblocking then handleNewConnection sv accepted
      else handleNewConnection
        (sv\<lparr>m_clients := (m_clients sv)(client_fd \<mapsto> []),
            connection_events := connection_events sv @ [(client_fd, True)]\<rparr>) accepted)"

text \<open>
  The results of \<^verbatim>\<open>::read\<close> on an edge-triggered descriptor; the list ends where the read would block.
  The loop reads through the iterator it found before the loop: when the message handler has removed
  the client, the next read goes through an erased node.
\<close>

fun handleClientData_loop ::
  "(TcpServer \<Rightarrow> int \<Rightarrow> byte list \<Rightarrow> TcpServer) \<Rightarrow> TcpServer \<Rightarrow> int \<Rightarrow> read_result list \<Rightarrow> TcpServer result" where
  "handleClientData_loop messageHandler sv client_fd rs =
     (if m_clients sv client_fd = None then Inl UseAfterFree
      else case rs of
             [] \<Rightarrow> Inr sv
           | ReadError # _ \<Rightarrow> Inr (removeClient sv client_fd)
           | ReadBytes bytes # rs' \<Rightarrow>
               (if bytes = [] then Inr (removeClient sv client_fd)
                else handleClientData_loop messageHandler (messageHandler sv client_fd bytes) client_fd rs'))"

declare handleClientData_loop.simps [simp del]

definition handleClientData ::
  "(TcpServer \<Rightarrow> int \<Rightarrow> byte list \<Rightarrow> TcpServer) \<Rightarrow> TcpServer \<Rightarrow> int \<Rightarrow> read_result list \<Rightarrow> TcpServer result" where
  "handleClientData messageHandler sv client_fd rs =
     (if m_clients sv client_fd = None then Inr sv
      else handleClientData_loop messageHandler sv client_fd rs)"

text \<open>
  One ready event of \<^verbatim>\<open>epoll_wait\<close>: the listening socket with what \<^verbatim>\<open>accept\<close> returns, or a client with
  its \<^verbatim>\<open>EPOLLIN\<close> flag, the reads that follow, and whether \<^verbatim>\<open>EPOLLHUP\<close> or \<^verbatim>\<open>EPOLLERR\<close> is set.
\<close>

datatype epoll_event =
    ListenEvent "(int \<times> bool) list"
  | ClientEvent int bool "read_result list" bool

fun server_event ::
  "(TcpServer \<Rightarrow> int \<Rightarrow> byte list \<Rightarrow> TcpServer) \<Rightarrow> TcpServer \<Rightarrow> epoll_event \<Rightarrow> TcpServer result" where
  "server_event messageHandler sv (ListenEvent accepted) = Inr (handleNewConnection sv accepted)"
| "server_event messageHandler sv (ClientEvent fd readable rs hangup) =
     res_bind (if readable then handleClientData messageHandler sv fd rs else Inr sv)
       (\<lambda>sv'. Inr (if hangup then removeClient sv' fd else sv'))"

text \<open>
  The results of \<^verbatim>\<open>epoll_wait\<close> until the server is stopped from another thread, which waits for the loop
  to end; the loop itself never changes \<open>m_running\<close>.  A timeout is an empty list of events.
\<close>

datatype epoll_result = EpollEvents "epoll_event list" | EpollInterrupted | EpollFailed

fun serverLoop ::
  "(TcpServer \<Rightarrow> int \<Rightarrow> byte list \<Rightarrow> TcpServer) \<Rightarrow> TcpServer \<Rightarrow> epoll_result list \<Rightarrow> TcpServer result" where
  "serverLoop messageHandler sv [] = Inr sv"
| "serverLoop messageHandler sv (r # rs) =
     (if \<not> m_running sv then Inr sv
      else case r of
             EpollInterrupted \<Rightarrow> serverLoop messageHandler sv rs
           | EpollFailed \<Rightarrow> Inr sv
           | EpollEvents events \<Rightarrow>
               res_bind (res_fold (server_event messageHandler) sv events)
                 (\<lambda>sv'. serverLoop messageHandler sv' rs))"

definition TcpServer_stop :: "TcpServer \<Rightarrow> TcpServer" where
  "TcpServer_stop sv =
     (if \<not> m_running sv then sv else sv\<lparr>m_running := False, m_clients := Map.empty\<rparr>)"

section \<open>The login service\<close>

definition trimString :: "byte list \<Rightarrow> byte list" where
  "trimString arr = rev (dropWhile (\<lambda>c. c = ascii CHR '' '') (rev arr))"

definition handleSoupBinTcpMessage :: "TcpServer \<Rightarrow> int \<Rightarrow> byte list \<Rightarrow> TcpServer" where
  "handleSoupBinTcpMessage sv client_fd data =
     (if length data < 3 then sv
      else
        let packet_length = unat (be16toh (get16 data)) in
        if length data < 2 + packet_length then sv
        else
          let packet_type = data ! 2 in
          if packet_type = PacketType_val PacketType_LoginRequest
          then
            (if length data < 49 then sv
             else
               let login_req = get_soup_LoginRequest data;
                   username = trimString (lr_username login_req);
                   password = trimString (lr_password login_req);
                   session_name = trimString (lr_sessionName login_req)
               in if username = map ascii ''TEST'' \<and> password = map ascii ''TEST_PWD''
                  then
                    let session_name' = (if session_name = []
                          then map ascii ''SES_'' @ to_string (nat client_fd) else session_name);
                        login_accepted =
                          \<lparr>la_packetLength = be16toh (of_nat (33 - 2)),
                           la_packetType = PacketType_val PacketType_LoginAccepted,
                           la_session_name = toPaddedArray 10 session_name',
                           la_sequenceNumber = toPaddedArray 20 (map ascii ''1'')\<rparr>
                    in sendToClient sv client_fd (put_soup_LoginAccepted login_accepted)
                  else disconnectClient sv client_fd)
          else if packet_type = PacketType_val PacketType_ClientHeartbeat then sv
          else if packet_type = PacketType_val PacketType_LogoutRequest
          then disconnectClient sv client_fd
          else sv)"

text \<open>
  \<^verbatim>\<open>main\<close>: the server is started with the message handler and runs its loop; the connection handler only prints.
\<close>

definition exchange_emulator :: "bool \<Rightarrow> bool \<Rightarrow> epoll_result list \<Rightarrow> TcpServer result" where
  "exchange_emulator socket_ok epoll_ok rs =
     res_bind (TcpServer_start TcpServer_ctor socket_ok epoll_ok) (\<lambda>server. serverLoop handleSoupBinTcpMessage server rs)"

section \<open>Lemmas\<close>

lemma trimString_padded:
  assumes "length s \<le> N" and "s = [] \<or> last s \<noteq> ascii CHR '' ''"
  shows "trimString (toPaddedArray N s) = s"
proof -
  have "toPaddedArray N s = s @ replicate (N - length s) (ascii CHR '' '')"
    using assms(1) by (simp add: toPaddedArray_def Let_def min_absorb1)
  moreover have "dropWhile (\<lambda>c. c = x) (replicate n x @ ys) = dropWhile (\<lambda>c. c = x) ys" for x :: byte and n ys
    by (induction n) auto
  moreover have "dropWhile (\<lambda>c. c = ascii CHR '' '') (rev s) = rev s"
    using assms(2) by (cases s rule: rev_cases) auto
  ultimately show ?thesis by (simp add: trimString_def)
qed

lemma removeClient_gone [simp]: "m_clients (removeClient sv fd) fd = None"
  by (simp add: removeClient_def split: option.splits)

lemma removeClient_other: "fd' \<noteq> fd \<Longrightarrow> m_clients (removeClient sv fd) fd' = m_clients sv fd'"
  by (simp add: removeClient_def split: option.splits)

lemma handleClientData_removed:
  assumes "m_clients sv fd \<noteq> None" and "bytes \<noteq> []" and "m_clients (handler sv fd bytes) fd = None"
  shows "handleClientData handler sv fd (ReadBytes bytes # rs) = Inl UseAfterFree"
  using assms by (simp add: handleClientData_def handleClientData_loop.simps)

lemma login_fields:
  assumes "acc_login = login acc" and "tcp_written acc_login = tcp_written acc @ [pkt]"
  shows "get_soup_LoginRequest pkt = \<lparr>lr_packetLength = be16toh 47, lr_packetType = ascii CHR ''L'',
      lr_username = toPaddedArray 6 (partition_username acc), lr_password = toPaddedArray 10 (partition_password acc),
      lr_sessionName = toPaddedArray 10 (bma_sessionName acc),
      lr_sequenceNumber = toPaddedArray 20 (to_string (unat (m_sequenceNumber acc + 1)))\<rparr>"
    and "length pkt = 49" and "be_val (take 2 pkt) = 47" and "pkt ! 2 = ascii CHR ''L''"
proof -
  let ?m = "\<lparr>lr_packetLength = be16toh 47, lr_packetType = ascii CHR ''L'',
      lr_username = toPaddedArray 6 (partition_username acc), lr_password = toPaddedArray 10 (partition_password acc),
      lr_sessionName = toPaddedArray 10 (bma_sessionName acc),
      lr_sequenceNumber = toPaddedArray 20 (to_string (unat (m_sequenceNumber acc + 1)))\<rparr>"
  have pkt: "pkt = put_soup_LoginRequest ?m"
    using assms by (simp add: login_def Let_def tcp_write_def layout)
  have v: "valid_soup_LoginRequest ?m" by (simp add: layout)
  show "get_soup_LoginRequest pkt = ?m" and "length pkt = 49"
    using soup_LoginRequest.get_put [OF v, of "[]"] soup_LoginRequest.put_length [OF v] pkt by simp_all
  show "be_val (take 2 pkt) = 47" "pkt ! 2 = ascii CHR ''L''"
    unfolding pkt by (simp_all add: put_soup_LoginRequest_def wire be_val_put16 put8_def nth_append)
qed

lemma handler_other:
  "fd' \<noteq> fd \<Longrightarrow> m_clients (handleSoupBinTcpMessage sv fd data) fd' = m_clients sv fd'"
  by (simp add: handleSoupBinTcpMessage_def Let_def sendToClient_def disconnectClient_def removeClient_other
      split: option.splits)

lemma handleClientData_other:
  assumes "\<And>sv bytes. m_clients (handler sv fd bytes) fd' = m_clients sv fd'" and "fd' \<noteq> fd"
  shows "handleClientData_loop handler sv fd rs = Inr sv' \<Longrightarrow> m_clients sv' fd' = m_clients sv fd'"
proof (induction rs arbitrary: sv)
  case (Cons r rs)
  show ?case
  proof (cases r)
    case (ReadBytes bytes)
    then show ?thesis
      using Cons.prems Cons.IH [of "handler sv fd bytes"] assms removeClient_other [OF assms(2)]
      by (subst (asm) handleClientData_loop.simps) (auto split: if_splits)
  qed (use Cons.prems removeClient_other [OF assms(2)] in \<open>subst (asm) handleClientData_loop.simps, auto split: if_splits\<close>)
qed (subst (asm) handleClientData_loop.simps, auto split: if_splits)

text \<open>
  What the server asks of a message handler, relative to a property of its table: the handler, the
  acceptance and the removal of a connection keep it.  Then the whole server loop does.
\<close>

locale server_handler =
  fixes handler :: "TcpServer \<Rightarrow> int \<Rightarrow> byte list \<Rightarrow> TcpServer" and keeps :: "TcpServer \<Rightarrow> bool"
  assumes keeps_handler: "keeps sv \<Longrightarrow> keeps (handler sv fd bytes)"
    and keeps_remove: "keeps sv \<Longrightarrow> keeps (removeClient sv fd)"
    and keeps_accept: "keeps sv \<Longrightarrow> keeps (handleNewConnection sv accepted)"
begin

lemma keeps_read_loop: "keeps sv \<Longrightarrow> handleClientData_loop handler sv fd rs = Inr sv' \<Longrightarrow> keeps sv'"
proof (induction rs arbitrary: sv)
  case (Cons r rs)
  show ?case
    using Cons.prems Cons.IH keeps_handler keeps_remove
    by (subst (asm) handleClientData_loop.simps) (auto split: if_splits read_result.splits)
qed (subst (asm) handleClientData_loop.simps, auto split: if_splits)

lemma keeps_event: "keeps sv \<Longrightarrow> server_event handler sv e = Inr sv' \<Longrightarrow> keeps sv'"
  using keeps_read_loop keeps_remove keeps_accept
  by (cases e) (auto simp: res_bind_Inr_iff handleClientData_def split: if_splits)

lemma keeps_events: "keeps sv \<Longrightarrow> res_fold (server_event handler) sv es = Inr sv' \<Longrightarrow> keeps sv'"
  using keeps_event by (induction es arbitrary: sv) (auto simp: res_bind_Inr_iff)

lemma keeps_loop: "keeps sv \<Longrightarrow> serverLoop handler sv rs = Inr sv' \<Longrightarrow> keeps sv'"
  using keeps_events
  by (induction rs arbitrary: sv) (auto simp: res_bind_Inr_iff split: if_splits epoll_result.splits)

end

text \<open>The last notification about a connection, and a table that agrees with the notifications.\<close>

definition announced :: "(int \<times> bool) list \<Rightarrow> int \<Rightarrow> bool" where
  "announced events fd = fold (\<lambda>(f, connected) c. if f = fd then connected else c) events False"

definition table_announced :: "TcpServer \<Rightarrow> bool" where
  "table_announced sv \<longleftrightarrow> (\<forall>fd. m_clients sv fd \<noteq> None \<longleftrightarrow> announced (connection_events sv) fd)"

lemma announced_snoc: "announced (es @ [(f, c)]) fd = (if f = fd then c else announced es fd)"
  by (simp add: announced_def)

lemma announced_remove: "table_announced sv \<Longrightarrow> table_announced (removeClient sv fd)"
  by (auto simp: table_announced_def removeClient_def announced_snoc split: option.splits)

lemma announced_accept: "table_announced sv \<Longrightarrow> table_announced (handleNewConnection sv accepted)"
proof (induction sv accepted rule: handleNewConnection.induct)
  case (2 sv fd nonblocking accepted)
  then show ?case by (auto simp: table_announced_def announced_snoc split: if_splits)
qed simp

lemma announced_handler: "table_announced sv \<Longrightarrow> table_announced (handleSoupBinTcpMessage sv fd bytes)"
proof -
  assume sv: "table_announced sv"
  then have "table_announced (sendToClient sv fd b)" for b
    by (auto simp: table_announced_def sendToClient_def split: option.splits)
  then show ?thesis
    using sv announced_remove [OF sv] by (simp add: handleSoupBinTcpMessage_def Let_def disconnectClient_def)
qed

interpretation emulator: server_handler handleSoupBinTcpMessage table_announced
  by unfold_locales (simp_all add: announced_handler announced_remove announced_accept)

text \<open>The reply to a login with the right credentials.\<close>

definition login_reply :: "int \<Rightarrow> byte list \<Rightarrow> soup_LoginAccepted" where
  "login_reply fd session =
     \<lparr>la_packetLength = be16toh 31, la_packetType = ascii CHR ''A'',
      la_session_name = toPaddedArray 10 (if session = [] then map ascii ''SES_'' @ to_string (nat fd) else session),
      la_sequenceNumber = toPaddedArray 20 (map ascii ''1'')\<rparr>"

lemma login_reply_valid: "packet_valid (SrvLoginAccepted (login_reply fd session))"
  by (simp add: login_reply_def layout)

lemma login_answered:
  assumes "tcp_written (login acc) = tcp_written acc @ [pkt]"
    and "partition_username acc = map ascii ''TEST''" and "partition_password acc = map ascii ''TEST_PWD''"
    and "length (bma_sessionName acc) \<le> 10" and "bma_sessionName acc = [] \<or> last (bma_sessionName acc) \<noteq> ascii CHR '' ''"
  shows "handleSoupBinTcpMessage sv fd (pkt @ rest) =
    sendToClient sv fd (put_soup_LoginAccepted (login_reply fd (bma_sessionName acc)))"
proof -
  note pkt = login_fields [OF refl assms(1)]
  have "get_soup_LoginRequest (pkt @ rest) = get_soup_LoginRequest pkt"
    by (rule soup_LoginRequest.get_append) (simp add: pkt(2))
  moreover have "unat (be16toh (get16 (pkt @ rest))) = 47"
    using network_order(1) [of "pkt @ rest"] pkt(2,3) by simp
  moreover have "(pkt @ rest) ! 2 = ascii CHR ''L''" using pkt(2,4) by (simp add: nth_append)
  moreover have "trimString (toPaddedArray 6 (map ascii ''TEST'')) = map ascii ''TEST''"
    "trimString (toPaddedArray 10 (map ascii ''TEST_PWD'')) = map ascii ''TEST_PWD''"
    by (rule trimString_padded; simp add: ascii_def)+
  moreover have "trimString (toPaddedArray 10 (bma_sessionName acc)) = bma_sessionName acc"
    using assms(4,5) by (rule trimString_padded)
  ultimately show ?thesis
    using pkt assms(2,3)
    by (simp add: handleSoupBinTcpMessage_def Let_def login_reply_def)
qed

lemma login_refused:
  assumes "tcp_written (login acc) = tcp_written acc @ [pkt]"
    and "length (partition_username acc) \<le> 6" and "length (partition_password acc) \<le> 10"
    and "partition_username acc \<noteq> []" and "last (partition_username acc) \<noteq> ascii CHR '' ''"
    and "partition_password acc \<noteq> []" and "last (partition_password acc) \<noteq> ascii CHR '' ''"
    and "partition_username acc \<noteq> map ascii ''TEST'' \<or> partition_password acc \<noteq> map ascii ''TEST_PWD''"
  shows "handleSoupBinTcpMessage sv fd pkt = removeClient sv fd"
proof -
  note pkt = login_fields [OF refl assms(1)]
  have "unat (be16toh (get16 pkt)) = 47"
    using network_order(1) [of pkt] pkt(2,3) by simp
  moreover have "trimString (toPaddedArray 6 (partition_username acc)) = partition_username acc"
    "trimString (toPaddedArray 10 (partition_password acc)) = partition_password acc"
    using assms by (auto intro: trimString_padded)
  ultimately show ?thesis
    using pkt assms(8) by (auto simp: handleSoupBinTcpMessage_def disconnectClient_def Let_def)
qed

section \<open>Properties\<close>

text \<open>A server with one connection, and sessions with given credentials.\<close>

definition sample_server :: TcpServer where
  "sample_server = handleNewConnection TcpServer_ctor [(5, True), (-1, False)]"

lemma sample_server_client: "m_clients sample_server 5 = Some []"
  by (simp add: sample_server_def TcpServer_ctor_def)

lemma sample_session:
  "\<exists>acc pkt. BistMarketAccessor_ctor user pwd False [] 0 = Inr acc \<and>
     tcp_written (login acc) = tcp_written acc @ [pkt] \<and> tcp_written acc = [] \<and>
     partition_username acc = user \<and> partition_password acc = pwd \<and> bma_sessionName acc = []"
  using BistMarketAccessor_ctor_ok [of "[]" 0 user pwd False] login_packet by auto

text \<open>
  A login with the emulator's credentials is answered with one login acceptance that names the
  requested session, or a session named after the connection when none was requested.
\<close>

theorem emulator_accepts_login:
  assumes "tcp_written (login acc) = tcp_written acc @ [pkt]"
    and "partition_username acc = map ascii ''TEST''" and "partition_password acc = map ascii ''TEST_PWD''"
    and "length (bma_sessionName acc) \<le> 10" and "bma_sessionName acc = [] \<or> last (bma_sessionName acc) \<noteq> ascii CHR '' ''"
    and "m_clients sv fd = Some written"
  shows "\<exists>sv'. handleClientData handleSoupBinTcpMessage sv fd [ReadBytes pkt] = Inr sv' \<and>
    m_clients sv' = (m_clients sv)(fd \<mapsto> written @ [put_soup_LoginAccepted (login_reply fd (bma_sessionName acc))])"
proof -
  have "pkt \<noteq> []" using login_fields(2) [OF refl assms(1)] by auto
  then show ?thesis
    using login_answered [OF assms(1-5), of sv fd "[]"] assms(6)
    by (simp add: handleClientData_def handleClientData_loop.simps sendToClient_def)
qed

theorem emulator_accepts_login_witness:
  "\<exists>acc pkt sv'. BistMarketAccessor_ctor (map ascii ''TEST'') (map ascii ''TEST_PWD'') False [] 0 = Inr acc \<and>
     tcp_written (login acc) = [pkt] \<and>
     handleClientData handleSoupBinTcpMessage sample_server 5 [ReadBytes pkt] = Inr sv' \<and>
     m_clients sv' 5 = Some [put_soup_LoginAccepted (login_reply 5 [])]"
proof -
  obtain acc pkt where acc: "BistMarketAccessor_ctor (map ascii ''TEST'') (map ascii ''TEST_PWD'') False [] 0 = Inr acc"
    "tcp_written (login acc) = tcp_written acc @ [pkt]" "tcp_written acc = []"
    "partition_username acc = map ascii ''TEST''" "partition_password acc = map ascii ''TEST_PWD''" "bma_sessionName acc = []"
    using sample_session by blast
  then show ?thesis
    using emulator_accepts_login [OF acc(2,4,5) _ _ sample_server_client] by auto
qed

text \<open>
  C38. A login with other credentials makes the server remove the client inside the read loop and go on
  reading through the removed entry.
\<close>

theorem refused_login_use_after_free:
  assumes "tcp_written (login acc) = tcp_written acc @ [pkt]"
    and "length (partition_username acc) \<le> 6" and "length (partition_password acc) \<le> 10"
    and "partition_username acc \<noteq> []" and "last (partition_username acc) \<noteq> ascii CHR '' ''"
    and "partition_password acc \<noteq> []" and "last (partition_password acc) \<noteq> ascii CHR '' ''"
    and "partition_username acc \<noteq> map ascii ''TEST'' \<or> partition_password acc \<noteq> map ascii ''TEST_PWD''"
    and "m_clients sv fd \<noteq> None"
  shows "handleClientData handleSoupBinTcpMessage sv fd (ReadBytes pkt # rs) = Inl UseAfterFree"
proof -
  have "pkt \<noteq> []" using login_fields(2) [OF refl assms(1)] by auto
  then show ?thesis
    using login_refused [OF assms(1-8), of sv fd] assms(9) by (intro handleClientData_removed) auto
qed

theorem refused_login_use_after_free_witness:
  "\<exists>acc pkt. BistMarketAccessor_ctor (map ascii ''TEST'') (map ascii ''OTHER'') False [] 0 = Inr acc \<and>
     tcp_written (login acc) = [pkt] \<and>
     handleClientData handleSoupBinTcpMessage sample_server 5 [ReadBytes pkt] = Inl UseAfterFree"
proof -
  obtain acc pkt where acc: "BistMarketAccessor_ctor (map ascii ''TEST'') (map ascii ''OTHER'') False [] 0 = Inr acc"
    "tcp_written (login acc) = tcp_written acc @ [pkt]" "tcp_written acc = []"
    "partition_username acc = map ascii ''TEST''" "partition_password acc = map ascii ''OTHER''" "bma_sessionName acc = []"
    using sample_session by blast
  then show ?thesis
    using refused_login_use_after_free [OF acc(2), of sample_server 5 "[]"]
    by (auto simp: sample_server_client ascii_def)
qed

text \<open>
  The server ignores the client's logout: the packet claims more bytes than it has and is taken for
  an incomplete one.
\<close>

theorem emulator_ignores_logout:
  assumes "tcp_written (logout acc) = tcp_written acc @ [pkt]"
  shows "handleSoupBinTcpMessage sv fd pkt = sv"
proof -
  have pkt: "pkt = put16 (be16toh 3) @ [ascii CHR ''O'']"
    using assms by (simp add: logout_def tcp_write_def put_soup_LogoutRequest_def put8_def)
  have "unat (be16toh (get16 pkt)) = 3"
    using network_order(1) [of pkt] by (simp add: pkt wire be_val_put16)
  then show ?thesis by (simp add: handleSoupBinTcpMessage_def pkt wire)
qed

theorem emulator_ignores_logout_witness:
  "\<exists>acc pkt. BistMarketAccessor_ctor [] [] False [] 0 = Inr acc \<and> tcp_written (logout acc) = [pkt] \<and>
     handleSoupBinTcpMessage sample_server 5 pkt = sample_server"
proof -
  obtain acc where acc: "BistMarketAccessor_ctor [] [] False [] 0 = Inr acc" "tcp_written acc = []"
    using sample_session by blast
  obtain pkt where "tcp_written (logout acc) = tcp_written acc @ [pkt]" by (auto simp: logout_def tcp_write_def)
  then show ?thesis using emulator_ignores_logout [of acc pkt sample_server 5] acc by auto
qed

text \<open>
  The server does not reassemble: of several packets that arrive in one read only the first is
  looked at.
\<close>

theorem emulator_drops_coalesced:
  assumes "well_framed m" and "3 \<le> length m" and "m ! 2 = PacketType_val PacketType_LoginRequest \<longrightarrow> 49 \<le> length m"
  shows "handleSoupBinTcpMessage sv fd (m @ rest) = handleSoupBinTcpMessage sv fd m"
proof -
  have len: "unat (be16toh (get16 (m @ rest))) = be_val (take 2 m)" "unat (be16toh (get16 m)) = be_val (take 2 m)"
    using network_order(1) [of "m @ rest"] network_order(1) [of m] assms(2) by simp_all
  have fit: "\<not> length m < 2 + be_val (take 2 m)" "\<not> length (m @ rest) < 2 + be_val (take 2 m)"
    using assms(1) by (simp_all add: well_framed_def)
  have short: "\<not> length m < 3" "\<not> length (m @ rest) < 3" using assms(2) by simp_all
  have get: "49 \<le> length m \<Longrightarrow> get_soup_LoginRequest (m @ rest) = get_soup_LoginRequest m"
    by (rule soup_LoginRequest.get_append)
  have third: "(m @ rest) ! 2 = m ! 2" using assms(2) by (simp add: nth_append)
  show ?thesis
  proof (cases "m ! 2 = PacketType_val PacketType_LoginRequest")
    case True
    then have "\<not> length m < 49" "\<not> length (m @ rest) < 49" using assms(3) by simp_all
    then show ?thesis
      unfolding handleSoupBinTcpMessage_def Let_def len third using get fit short True by (simp only: if_True if_False)
  next
    case False
    then show ?thesis
      unfolding handleSoupBinTcpMessage_def Let_def len third using fit short by (simp only: if_True if_False)
  qed
qed

theorem emulator_drops_coalesced_witness:
  "handleSoupBinTcpMessage sample_server 5 ([0, 1, 82] @ [0, 1, 79]) = handleSoupBinTcpMessage sample_server 5 [0, 1, 82]"
  by (rule emulator_drops_coalesced) (simp_all add: well_framed_def be_val_def ascii_def)

text \<open>
  Connections are isolated: whatever a client sends, when the server gets through it, the other
  connections are as before.
\<close>

theorem connections_isolated:
  assumes "handleClientData handleSoupBinTcpMessage sv fd rs = Inr sv'" and "fd' \<noteq> fd"
  shows "m_clients sv' fd' = m_clients sv fd'"
  using assms handleClientData_other [of handleSoupBinTcpMessage fd fd' sv rs sv'] handler_other
  by (auto simp: handleClientData_def split: if_splits)

theorem connections_isolated_witness:
  "\<exists>sv'. handleClientData handleSoupBinTcpMessage sample_server 5 [ReadBytes [0, 1, 82]] = Inr sv' \<and>
     m_clients sv' 6 = m_clients sample_server 6"
proof -
  have "handleSoupBinTcpMessage sample_server 5 [0, 1, 82] = sample_server"
    by (simp add: handleSoupBinTcpMessage_def ascii_def)
  then have "handleClientData handleSoupBinTcpMessage sample_server 5 [ReadBytes [0, 1, 82]] = Inr sample_server"
    by (simp add: handleClientData_def handleClientData_loop.simps sample_server_client)
  then show ?thesis using connections_isolated by blast
qed

text \<open>
  C28. Whatever happens on the sockets, as long as the server loop gets through it, the notifications the
  connection handler has received agree with the table: a client is connected exactly when the last
  notification about it said so.
\<close>

theorem notifications_match_table:
  assumes "exchange_emulator socket_ok epoll_ok rs = Inr sv"
  shows "m_clients sv fd \<noteq> None \<longleftrightarrow> announced (connection_events sv) fd"
proof -
  obtain sv0 where sv0: "TcpServer_start TcpServer_ctor socket_ok epoll_ok = Inr sv0"
    "serverLoop handleSoupBinTcpMessage sv0 rs = Inr sv"
    using assms by (auto simp: exchange_emulator_def res_bind_Inr_iff)
  then have "table_announced sv0"
    by (auto simp: TcpServer_start_def TcpServer_ctor_def table_announced_def announced_def split: if_splits)
  then show ?thesis using emulator.keeps_loop [OF _ sv0(2)] by (simp add: table_announced_def)
qed

theorem notifications_match_table_witness:
  "\<exists>sv. exchange_emulator True True
       [EpollEvents [ListenEvent [(5, True), (6, True)]], EpollInterrupted, EpollEvents [ClientEvent 5 True [ReadBytes []] True]]
       = Inr sv \<and>
     m_clients sv 5 = None \<and> m_clients sv 6 \<noteq> None \<and> \<not> announced (connection_events sv) 5 \<and>
     announced (connection_events sv) 6"
proof -
  define rs where "rs = [EpollEvents [ListenEvent [(5, True), (6, True)]], EpollInterrupted,
      EpollEvents [ClientEvent 5 True [ReadBytes []] True]]"
  obtain sv where sv: "exchange_emulator True True rs = Inr sv" "m_clients sv 5 = None" "m_clients sv 6 \<noteq> None"
    by (simp add: exchange_emulator_def TcpServer_start_def TcpServer_ctor_def rs_def handleClientData_def
        handleClientData_loop.simps removeClient_def)
  then show ?thesis
    using notifications_match_table [OF sv(1), of 5] notifications_match_table [OF sv(1), of 6]
    unfolding rs_def by blast
qed

end
