(* ===== verification/Session_System.thy ===== *)
theory Session_System
  imports Exchange_Emulator
begin

text \<open>
  The order entry client and the exchange emulator as one system: \<^verbatim>\<open>BistMarketAccessor\<close> with its \<^verbatim>\<open>TcpClient\<close> on one
  side, \<^verbatim>\<open>TcpServer\<close> with its message handler on the other, and a connection between them.  The application
  makes requests at any time; the server reads any number of whole packets at once; the client reads the
  replies in pieces of any size.  Each operation of the code is one step.
\<close>

section \<open>The system\<close>

text \<open>
  \<open>read_up\<close> counts the packets of the client that the server has read, \<open>read_down\<close> the bytes of the replies
  that the client has read.
\<close>

record session_system =
  sys_client :: "tcp_session TcpClient"
  sys_server :: TcpServer
  read_up :: nat
  read_down :: nat

abbreviation sys_session :: "session_system \<Rightarrow> tcp_session" where
  "sys_session s \<equiv> m_marketAccessor (sys_client s)"

abbreviation sys_accessor :: "session_system \<Rightarrow> BistMarketAccessor" where
  "sys_accessor s \<equiv> session_accessor (sys_session s)"

definition sys_init :: "BistMarketAccessor \<Rightarrow> TcpServer \<Rightarrow> session_system" where
  "sys_init acc sv =
     \<lparr>sys_client = TcpClient_ctor \<lparr>session_accessor = acc, session_overruns = []\<rparr>, sys_server = sv,
      read_up = 0, read_down = 0\<rparr>"

inductive sys_step :: "int \<Rightarrow> session_system \<Rightarrow> session_system \<Rightarrow> bool" for fd where
  app_request: "request_ok r \<Longrightarrow>
    sys_step fd s (s\<lparr>sys_client := (sys_client s)\<lparr>m_marketAccessor := on_accessor (\<lambda>acc. bma_step acc r) (sys_session s)\<rparr>\<rparr>)"
| server_reads: "read_up s + n \<le> length (tcp_written (sys_accessor s)) \<Longrightarrow>
    chunk = concat (take n (drop (read_up s) (tcp_written (sys_accessor s)))) \<Longrightarrow> chunk \<noteq> [] \<Longrightarrow>
    length chunk \<le> 4096 \<Longrightarrow>
    handleClientData handleSoupBinTcpMessage (sys_server s) fd [ReadBytes chunk] = Inr sv \<Longrightarrow>
    sys_step fd s (s\<lparr>sys_server := sv, read_up := read_up s + n\<rparr>)"
| client_reads: "m_clients (sys_server s) fd = Some ws \<Longrightarrow> chunk = take n (drop (read_down s) (concat ws)) \<Longrightarrow>
    chunk \<noteq> [] \<Longrightarrow> m_dataSize (sys_client s) + length chunk \<le> BUFFER_SIZE \<Longrightarrow>
    startRead handleMessage (sys_client s) [ReadBytes chunk] = Inr tc \<Longrightarrow>
    sys_step fd s (s\<lparr>sys_client := tc, read_down := read_down s + length chunk\<rparr>)"

inductive sys_reach :: "int \<Rightarrow> session_system \<Rightarrow> session_system \<Rightarrow> bool" for fd where
  reach_init: "sys_reach fd s s"
| reach_step: "sys_reach fd s s' \<Longrightarrow> sys_step fd s' s'' \<Longrightarrow> sys_reach fd s s''"

text \<open>A property of the initial state that every step keeps holds in every reachable state.\<close>

lemma sys_invariant:
  assumes "sys_reach fd s s'" and "I s" and "\<And>s s'. I s \<Longrightarrow> sys_step fd s s' \<Longrightarrow> I s'"
  shows "I s'"
  using assms(1,2) by (induction rule: sys_reach.induct) (auto intro: assms(3))

section \<open>What the client writes\<close>

definition client_packet :: "byte list \<Rightarrow> byte list \<Rightarrow> byte list \<Rightarrow> bool" where
  "client_packet user pwd p \<longleftrightarrow> 3 \<le> length p \<and>
     (p ! 2 = ascii CHR ''L'' \<longrightarrow> length p = 49 \<and>
        lr_username (get_soup_LoginRequest p) = toPaddedArray 6 user \<and>
        lr_password (get_soup_LoginRequest p) = toPaddedArray 10 pwd)"

definition session_ok :: "byte list \<Rightarrow> byte list \<Rightarrow> tcp_session \<Rightarrow> bool" where
  "session_ok user pwd ts \<longleftrightarrow>
     acc_ok (session_accessor ts) \<and> partition_username (session_accessor ts) = user \<and>
     partition_password (session_accessor ts) = pwd \<and> session_overruns ts = [] \<and>
     (\<forall>p \<in> set (tcp_written (session_accessor ts)). client_packet user pwd p)"

lemma unsequenced_client_packet: "client_packet user pwd (soup_hdr n @ body)"
  by (simp add: client_packet_def soup_hdr_eq wire nth_append ascii_def)

lemma login_client_packet:
  assumes "tcp_written (login acc) = tcp_written acc @ [p]"
  shows "client_packet (partition_username acc) (partition_password acc) p"
  using login_fields [OF refl assms] by (simp add: client_packet_def)

lemma request_keeps:
  "partition_username (bma_step acc r) = partition_username acc"
  "partition_password (bma_step acc r) = partition_password acc"
  "bma_state (bma_step acc r) = bma_state acc"
  by (cases r; simp add: login_def sendEnterOrder_def sendReplaceOrder_def sendCancelOrder_def tcp_write_def Let_def
      split: prod.splits)+

lemma request_written:
  assumes "acc_ok acc" and "request_ok r"
  shows "\<exists>p. tcp_written (bma_step acc r) = tcp_written acc @ [p] \<and>
    client_packet (partition_username acc) (partition_password acc) p"
proof (cases r)
  case ReqLogin
  then show ?thesis using login_packet login_client_packet by auto
qed (use assms sendEnterOrder_sends(2) sendReplaceOrder_sends(2) sendCancelOrder_sends(2) unsequenced_client_packet in auto)

lemma request_session_ok:
  assumes "session_ok user pwd ts" and "request_ok r"
  shows "session_ok user pwd (on_accessor (\<lambda>acc. bma_step acc r) ts)"
  using assms request_written [of "session_accessor ts" r] bma_step_framed [of "session_accessor ts" r] request_keeps
  by (auto simp: session_ok_def)

lemma login_accepted_session_ok:
  assumes "session_ok user pwd ts"
  shows "session_ok user pwd (packet_step ts (SrvLoginAccepted m))"
proof -
  let ?acc = "(session_accessor ts)\<lparr>bma_state := bma_Continuous, bma_sessionName := la_session_name m\<rparr>"
  have ts: "session_ok user pwd (ts\<lparr>session_accessor := ?acc\<rparr>)"
    using assms by (simp add: session_ok_def acc_ok_def)
  from request_session_ok [OF ts, of "ReqEnter 78436 (Side_val Side_Sell) 5000 770000"] show ?thesis
    using ts by (simp add: onLoginAccepted_def Let_def)
qed

section \<open>What the server answers\<close>

definition is_reply :: "int \<Rightarrow> byte list \<Rightarrow> bool" where
  "is_reply fd w \<longleftrightarrow> (\<exists>session. w = put_soup_LoginAccepted (login_reply fd session))"

definition accepted :: "byte list \<Rightarrow> byte list \<Rightarrow> bool" where
  "accepted user pwd \<longleftrightarrow> user = map ascii ''TEST'' \<and> pwd = map ascii ''TEST_PWD''"

text \<open>Credentials that the fields of a login can carry.\<close>

definition carried :: "byte list \<Rightarrow> byte list \<Rightarrow> bool" where
  "carried user pwd \<longleftrightarrow>
     length user \<le> 6 \<and> length pwd \<le> 10 \<and> (user = [] \<or> last user \<noteq> ascii CHR '' '') \<and>
     (pwd = [] \<or> last pwd \<noteq> ascii CHR '' '')"

lemma handler_outcomes:
  obtains (ignored) "handleSoupBinTcpMessage sv fd data = sv"
  | (dropped) "handleSoupBinTcpMessage sv fd data = removeClient sv fd"
  | (answered) session where "handleSoupBinTcpMessage sv fd data =
        sendToClient sv fd (put_soup_LoginAccepted (login_reply fd session))"
      "data ! 2 = ascii CHR ''L''" "trimString (lr_username (get_soup_LoginRequest data)) = map ascii ''TEST''"
      "trimString (lr_password (get_soup_LoginRequest data)) = map ascii ''TEST_PWD''"
proof -
  let ?login = "get_soup_LoginRequest data"
  let ?session = "trimString (lr_sessionName ?login)"
  let ?reply = "sendToClient sv fd (put_soup_LoginAccepted (login_reply fd ?session))"
  let ?ok = "trimString (lr_username ?login) = map ascii ''TEST'' \<and> trimString (lr_password ?login) = map ascii ''TEST_PWD''"
  have "handleSoupBinTcpMessage sv fd data \<in> {sv, removeClient sv fd} \<or>
      handleSoupBinTcpMessage sv fd data = ?reply \<and> data ! 2 = ascii CHR ''L'' \<and> ?ok"
    by (cases ?ok) (simp_all add: handleSoupBinTcpMessage_def Let_def disconnectClient_def login_reply_def)
  then consider "handleSoupBinTcpMessage sv fd data = sv" | "handleSoupBinTcpMessage sv fd data = removeClient sv fd"
    | "handleSoupBinTcpMessage sv fd data = ?reply" "data ! 2 = ascii CHR ''L''" ?ok
    by blast
  then show ?thesis using that by cases blast+
qed

lemma server_read:
  assumes "carried user pwd" and "client_packet user pwd p" and "m_clients sv fd = Some ws"
    and "handleClientData handleSoupBinTcpMessage sv fd [ReadBytes (p @ rest)] = Inr sv'"
  shows "m_clients sv' fd = Some ws \<or>
    (\<exists>w. m_clients sv' fd = Some (ws @ [w]) \<and> is_reply fd w \<and> accepted user pwd)"
proof -
  have p: "3 \<le> length p" using assms(2) by (simp add: client_packet_def)
  then have "p \<noteq> []" by auto
  then have run: "handleClientData_loop handleSoupBinTcpMessage (handleSoupBinTcpMessage sv fd (p @ rest)) fd [] = Inr sv'"
    using assms(3,4) by (simp add: handleClientData_def handleClientData_loop.simps [of _ sv])
  have third: "(p @ rest) ! 2 = p ! 2" using p by (simp add: nth_append)
  show ?thesis
  proof (cases rule: handler_outcomes [of sv fd "p @ rest"])
    case ignored
    then show ?thesis using run assms(3) by (simp add: handleClientData_loop.simps)
  next
    case dropped
    then show ?thesis using run by (simp add: handleClientData_loop.simps)
  next
    case (answered session)
    then have login: "length p = 49" "lr_username (get_soup_LoginRequest p) = toPaddedArray 6 user"
      "lr_password (get_soup_LoginRequest p) = toPaddedArray 10 pwd"
      using assms(2) third by (simp_all add: client_packet_def)
    have "get_soup_LoginRequest (p @ rest) = get_soup_LoginRequest p"
      by (rule soup_LoginRequest.get_append) (simp add: login)
    then have "accepted user pwd"
      using answered(3,4) login(2,3) assms(1) by (simp add: accepted_def carried_def trimString_padded)
    then show ?thesis
      using run assms(3) unfolding answered(1)
      by (auto simp: handleClientData_loop.simps sendToClient_def is_reply_def)
  qed
qed

section \<open>What the client reads\<close>

text \<open>The packets that do not carry a response are handled without looking behind them.\<close>

definition session_good :: "byte list \<Rightarrow> bool" where
  "session_good m \<longleftrightarrow> (\<exists>p. packet_valid p \<and> \<not> is_response p \<and> m = packet_bytes p)"

definition session_step :: "tcp_session \<Rightarrow> byte list \<Rightarrow> tcp_session result" where
  "session_step ts m = handleMessage ts m (length m)"

interpretation session: frame_handler handleMessage session_good 0 session_step
proof
  fix m ts and rest :: "byte list"
  assume "session_good m"
  then obtain p where p: "packet_valid p" "\<not> is_response p" "m = packet_bytes p" by (auto simp: session_good_def)
  then show "handleMessage ts (m @ rest) (length m) = session_step ts m"
    using handle_session_packet [OF p(1,2), of ts rest] handle_session_packet [OF p(1,2), of ts "[]"]
    by (simp add: session_step_def)
qed

lemma reply_packet:
  assumes "is_reply fd w"
  obtains m where "w = packet_bytes (SrvLoginAccepted m)" "packet_valid (SrvLoginAccepted m)"
  using assms login_reply_valid that by (auto simp: is_reply_def simp del: packet_valid.simps)

lemma reply_good: "is_reply fd w \<Longrightarrow> session_good w"
  by (erule reply_packet) (force simp: session_good_def simp del: packet_valid.simps packet_bytes.simps)

lemma reply_framed: "is_reply fd w \<Longrightarrow> well_framed w"
  by (erule reply_packet) (simp add: packet_bytes_framed del: packet_valid.simps packet_bytes.simps)

lemma reply_step:
  assumes "is_reply fd w" and "session_ok user pwd ts"
  shows "\<exists>ts'. session_step ts w = Inr ts' \<and> session_ok user pwd ts'"
proof -
  obtain m where w: "w = packet_bytes (SrvLoginAccepted m)" "packet_valid (SrvLoginAccepted m)"
    using assms(1) by (rule reply_packet)
  have "session_step ts w = Inr (packet_step ts (SrvLoginAccepted m))"
    using handle_session_packet [OF w(2), of ts "[]"] by (simp add: session_step_def w(1))
  then show ?thesis using login_accepted_session_ok [OF assms(2), of m] by simp
qed

lemma replies_steps:
  assumes "\<forall>w \<in> set ws. is_reply fd w" and "session_ok user pwd ts"
  shows "\<exists>ts'. res_fold session_step ts ws = Inr ts' \<and> session_ok user pwd ts'"
  using assms
proof (induction ws arbitrary: ts)
  case (Cons w ws)
  obtain ts' where ts': "session_step ts w = Inr ts'" "session_ok user pwd ts'"
    using reply_step [of fd w user pwd ts] Cons.prems by auto
  then show ?case using Cons.IH [OF _ ts'(2)] Cons.prems by simp
qed simp

text \<open>The complete packets of a prefix of a stream of packets are among them.\<close>

lemma split_frames_concat: "\<forall>w \<in> set ws. well_framed w \<Longrightarrow> split_frames (concat ws) = (ws, [])"
  by (induction ws) (simp_all add: split_frames_cons)

lemma prefix_frames:
  assumes "\<forall>w \<in> set ws. well_framed w" and "concat ws = a @ b"
  shows "set (fst (split_frames a)) \<subseteq> set ws"
  using split_frames_concat [OF assms(1)] split_frames_append [of a b] assms(2) by auto

lemma client_read:
  assumes "tc_ok tc" and "session_ok user pwd (m_marketAccessor tc)" and "\<forall>w \<in> set ws. is_reply fd w"
    and "concat ws = a @ chunk @ b" and "tc_data tc = snd (split_frames a)"
    and "chunk \<noteq> []" and "m_dataSize tc + length chunk \<le> BUFFER_SIZE"
  shows "\<exists>tc'. startRead handleMessage tc [ReadBytes chunk] = Inr tc' \<and> tc_ok tc' \<and>
    session_ok user pwd (m_marketAccessor tc') \<and> tc_data tc' = snd (split_frames (a @ chunk)) \<and>
    (ws = [] \<longrightarrow> m_marketAccessor tc' = m_marketAccessor tc)"
proof -
  have framed: "\<forall>w \<in> set ws. well_framed w" using assms(3) reply_framed by blast
  let ?fs = "fst (split_frames (tc_data tc @ chunk))"
  have frames: "split_frames (a @ chunk) = (fst (split_frames a) @ ?fs, snd (split_frames (tc_data tc @ chunk)))"
    using split_frames_append [of a chunk] assms(5) by simp
  have sub: "set ?fs \<subseteq> set ws"
    using prefix_frames [OF framed, of "a @ chunk" b] assms(4) frames by simp
  have reply: "\<forall>w \<in> set ?fs. is_reply fd w" using sub assms(3) by blast
  have fit: "chunks_fit 0 (tc_data tc) [chunk]" using assms(1,6,7) by (simp add: tc_data_def tc_ok_def)
  have none: "fst (split_frames (tc_data tc)) = []" using split_frames_rest assms(5) by simp
  obtain ts' where ts': "res_fold session_step (m_marketAccessor tc) ?fs = Inr ts'" "session_ok user pwd ts'"
    using replies_steps [OF reply assms(2)] by blast
  have "\<exists>tc'. startRead handleMessage tc [ReadBytes chunk] = Inr tc' \<and> m_marketAccessor tc' = ts' \<and>
      tc_data tc' = snd (split_frames (tc_data tc @ chunk)) \<and> tc_ok tc'"
    using session.startRead_frames [OF assms(1) none fit] reply reply_good ts'(1) by auto
  moreover have "ws = [] \<longrightarrow> ts' = m_marketAccessor tc" using ts'(1) sub by auto
  ultimately show ?thesis using ts'(2) frames by auto
qed

section \<open>The invariant\<close>

definition sys_inv :: "int \<Rightarrow> byte list \<Rightarrow> byte list \<Rightarrow> session_system \<Rightarrow> bool" where
  "sys_inv fd user pwd s \<longleftrightarrow>
     tc_ok (sys_client s) \<and> session_ok user pwd (sys_session s) \<and>
     (bma_state (sys_accessor s) = bma_Continuous \<longrightarrow> accepted user pwd) \<and>
     (\<forall>ws. m_clients (sys_server s) fd = Some ws \<longrightarrow>
        (\<forall>w \<in> set ws. is_reply fd w) \<and> (ws \<noteq> [] \<longrightarrow> accepted user pwd) \<and> read_down s \<le> length (concat ws) \<and>
        tc_data (sys_client s) = snd (split_frames (take (read_down s) (concat ws))))"

lemma sys_inv_request:
  assumes "sys_inv fd user pwd s" and "request_ok r"
  shows "sys_inv fd user pwd (s\<lparr>sys_client := (sys_client s)
      \<lparr>m_marketAccessor := on_accessor (\<lambda>acc. bma_step acc r) (sys_session s)\<rparr>\<rparr>)"
  using assms request_session_ok [of user pwd "sys_session s" r] request_keeps(3)
  by (simp add: sys_inv_def tc_ok_def tc_data_def)

lemma sys_inv_server:
  assumes inv: "sys_inv fd user pwd s" and "carried user pwd"
    and chunk: "chunk = concat (take n (drop (read_up s) (tcp_written (sys_accessor s))))" "chunk \<noteq> []"
    and run: "handleClientData handleSoupBinTcpMessage (sys_server s) fd [ReadBytes chunk] = Inr sv"
  shows "sys_inv fd user pwd (s\<lparr>sys_server := sv, read_up := read_up s + n\<rparr>)"
proof (cases "m_clients (sys_server s) fd")
  case None
  then have "sv = sys_server s" using run by (simp add: handleClientData_def)
  then show ?thesis using inv by (simp add: sys_inv_def)
next
  case (Some ws)
  obtain p ps where ps: "take n (drop (read_up s) (tcp_written (sys_accessor s))) = p # ps"
    using chunk by (cases "take n (drop (read_up s) (tcp_written (sys_accessor s)))") auto
  then have "p \<in> set (tcp_written (sys_accessor s))"
    by (metis in_set_dropD in_set_takeD list.set_intros(1))
  then have "client_packet user pwd p" using inv by (simp add: sys_inv_def session_ok_def)
  moreover have "chunk = p @ concat ps" using chunk(1) ps by simp
  ultimately have "m_clients sv fd = Some ws \<or>
      (\<exists>w. m_clients sv fd = Some (ws @ [w]) \<and> is_reply fd w \<and> accepted user pwd)"
    using server_read [OF assms(2) _ Some] run by auto
  then show ?thesis using inv Some by (auto simp: sys_inv_def)
qed

lemma take_take_drop: "take a xs @ take n (drop a xs) = take (a + length (take n (drop a xs))) xs"
  by (metis append_take_drop_id append_eq_conv_conj length_append length_take length_drop take_add take_take)

lemma sys_inv_client:
  assumes inv: "sys_inv fd user pwd s" and ws: "m_clients (sys_server s) fd = Some ws"
    and chunk: "chunk = take n (drop (read_down s) (concat ws))" "chunk \<noteq> []"
    and room: "m_dataSize (sys_client s) + length chunk \<le> BUFFER_SIZE"
  shows "\<exists>tc. startRead handleMessage (sys_client s) [ReadBytes chunk] = Inr tc \<and>
    sys_inv fd user pwd (s\<lparr>sys_client := tc, read_down := read_down s + length chunk\<rparr>)"
proof -
  let ?a = "take (read_down s) (concat ws)"
  have I: "tc_ok (sys_client s)" "session_ok user pwd (sys_session s)" "\<forall>w \<in> set ws. is_reply fd w"
    "tc_data (sys_client s) = snd (split_frames ?a)" "ws \<noteq> [] \<longrightarrow> accepted user pwd"
    "bma_state (sys_accessor s) = bma_Continuous \<longrightarrow> accepted user pwd"
    using inv ws by (simp_all add: sys_inv_def)
  have next_a: "?a @ chunk = take (read_down s + length chunk) (concat ws)"
    unfolding chunk(1) by (rule take_take_drop)
  then have split: "concat ws = ?a @ chunk @ drop (read_down s + length chunk) (concat ws)"
    by (metis append.assoc append_take_drop_id)
  obtain tc where tc: "startRead handleMessage (sys_client s) [ReadBytes chunk] = Inr tc" "tc_ok tc"
    "session_ok user pwd (m_marketAccessor tc)" "tc_data tc = snd (split_frames (?a @ chunk))"
    "ws = [] \<longrightarrow> m_marketAccessor tc = sys_session s"
    using client_read [OF I(1-3) split I(4) chunk(2) room] by blast
  have bound: "read_down s + length chunk \<le> length (concat ws)"
    using chunk by (cases "read_down s \<le> length (concat ws)") auto
  have "sys_inv fd user pwd (s\<lparr>sys_client := tc, read_down := read_down s + length chunk\<rparr>)"
    using tc I ws bound next_a by (auto simp: sys_inv_def)
  then show ?thesis using tc(1) by blast
qed

lemma sys_inv_step:
  assumes "sys_inv fd user pwd s" and "carried user pwd" and "sys_step fd s s'"
  shows "sys_inv fd user pwd s'"
  using assms(3)
proof (cases rule: sys_step.cases)
  case (app_request r)
  then show ?thesis using sys_inv_request [OF assms(1)] by simp
next
  case (server_reads n chunk sv)
  then show ?thesis using sys_inv_server [OF assms(1,2)] by simp
next
  case (client_reads ws chunk n tc)
  then show ?thesis using sys_inv_client [OF assms(1), of ws chunk n] by auto
qed

lemma sys_inv_init:
  assumes "BistMarketAccessor_ctor user pwd equity exch n = Inr acc" and "length exch \<le> 32" and "0 \<le> n" and "n + 1 < 2 ^ 31"
    and "m_clients sv fd = Some []"
  shows "sys_inv fd user pwd (sys_init acc sv)"
proof -
  obtain acc' where "BistMarketAccessor_ctor user pwd equity exch n = Inr acc'" "acc_ok acc'"
    "partition_username acc' = user" "partition_password acc' = pwd" "tcp_written acc' = []"
    using BistMarketAccessor_ctor_ok [OF assms(2-4), of user pwd equity] by auto
  moreover have "bma_state acc = bma_Disconnected"
    using assms(1) by (auto simp: BistMarketAccessor_ctor_def prepareEnterOrderBuffer_def prepareReplaceOrderBuffer_def
        prepareCancelOrderBuffer_def Let_def res_bind_Inr_iff split: if_splits)
  ultimately show ?thesis
    using assms(1,5)
    by (simp add: sys_inv_def sys_init_def session_ok_def TcpClient_ctor_def tc_ok_def tc_data_def)
qed

lemma sys_inv_reach:
  assumes "BistMarketAccessor_ctor user pwd equity exch n = Inr acc" and "length exch \<le> 32" and "0 \<le> n" and "n + 1 < 2 ^ 31"
    and "m_clients sv fd = Some []" and "carried user pwd" and "sys_reach fd (sys_init acc sv) s"
  shows "sys_inv fd user pwd s"
  using sys_invariant [of fd "sys_init acc sv" s "sys_inv fd user pwd"] sys_inv_init [OF assms(1-5)]
    sys_inv_step [OF _ assms(6)] assms(7) by blast

text \<open>A run: the client logs in, the server reads the packet, the client reads the whole reply.\<close>

lemma sample_reply_run:
  assumes "partition_username acc = map ascii ''TEST''" and "partition_password acc = map ascii ''TEST_PWD''"
    and "bma_sessionName acc = []" and "tcp_written acc = []"
  shows "\<exists>s. sys_reach 5 (sys_init acc sample_server) s \<and> read_down s = 0 \<and> read_up s = 1 \<and>
    sys_client s = TcpClient_ctor \<lparr>session_accessor = login acc, session_overruns = []\<rparr> \<and>
    m_clients (sys_server s) 5 = Some [put_soup_LoginAccepted (login_reply 5 [])]"
proof -
  let ?s0 = "sys_init acc sample_server" and ?reply = "put_soup_LoginAccepted (login_reply 5 [])"
  let ?s1 = "?s0\<lparr>sys_client := TcpClient_ctor \<lparr>session_accessor = login acc, session_overruns = []\<rparr>\<rparr>"
  let ?sv = "sendToClient sample_server 5 ?reply"
  obtain pkt where pkt: "tcp_written (login acc) = tcp_written acc @ [pkt]" using login_packet by blast
  have "sys_step 5 ?s0 ?s1"
    using sys_step.app_request [of ReqLogin 5 ?s0] by (simp add: sys_init_def TcpClient_ctor_def)
  then have reach: "sys_reach 5 ?s0 ?s1" by (rule reach_step [OF reach_init])
  have written: "tcp_written (login acc) = [pkt]" using pkt assms(4) by simp
  have len: "length pkt = 49" using login_fields(2) [OF refl pkt] .
  then have ne: "pkt \<noteq> []" by auto
  then have "handleClientData handleSoupBinTcpMessage sample_server 5 [ReadBytes pkt] = Inr ?sv"
    using login_answered [OF pkt assms(1,2), of sample_server 5 "[]"] assms(3) sample_server_client
    by (simp add: handleClientData_def handleClientData_loop.simps sendToClient_def)
  then have "sys_step 5 ?s1 (?s1\<lparr>sys_server := ?sv, read_up := read_up ?s1 + 1\<rparr>)"
    using written len ne by (intro sys_step.server_reads [of _ _ pkt]) (simp_all add: sys_init_def TcpClient_ctor_def)
  from reach_step [OF reach this] show ?thesis
    using sample_server_client by (intro exI) (auto simp: sys_init_def sendToClient_def)
qed

lemma login_reply_length: "length (put_soup_LoginAccepted (login_reply fd session)) = 33"
  using login_reply_valid [of fd session] soup_LoginAccepted.put_length [of "login_reply fd session"] by simp

lemma sample_login_run:
  assumes "partition_username acc = map ascii ''TEST''" and "partition_password acc = map ascii ''TEST_PWD''"
    and "bma_sessionName acc = []" and "tcp_written acc = []"
  shows "\<exists>s. sys_reach 5 (sys_init acc sample_server) s \<and> bma_state (sys_accessor s) = bma_Continuous \<and>
    read_up s = 1 \<and> read_down s = 33 \<and> m_clients (sys_server s) 5 = Some [put_soup_LoginAccepted (login_reply 5 [])] \<and>
    sys_session s = packet_step \<lparr>session_accessor = login acc, session_overruns = []\<rparr> (SrvLoginAccepted (login_reply 5 []))"
proof -
  let ?ts = "\<lparr>session_accessor = login acc, session_overruns = []\<rparr>" and ?m = "login_reply 5 []"
  let ?reply = "put_soup_LoginAccepted ?m"
  obtain s where s: "sys_reach 5 (sys_init acc sample_server) s" "read_down s = 0" "sys_client s = TcpClient_ctor ?ts"
    "m_clients (sys_server s) 5 = Some [?reply]" "read_up s = 1"
    using sample_reply_run [OF assms] by blast
  have ne: "?reply \<noteq> []" using login_reply_length [of 5 "[]"] by auto
  then obtain tc where tc: "startRead handleMessage (TcpClient_ctor ?ts) [ReadBytes ?reply] = Inr tc"
    "m_marketAccessor tc = packet_step ?ts (SrvLoginAccepted ?m)"
    using client_stream [of "[SrvLoginAccepted ?m]" "[?reply]" ?ts] login_reply_valid [of 5 "[]"] login_reply_length [of 5 "[]"]
    by (auto simp: BUFFER_SIZE_def simp del: startRead.simps)
  have "sys_step 5 s (s\<lparr>sys_client := tc, read_down := read_down s + length ?reply\<rparr>)"
    using sys_step.client_reads [OF s(4), of ?reply 33 tc] s(2,3) tc(1) ne login_reply_length [of 5 "[]"]
    by (simp add: TcpClient_ctor_def BUFFER_SIZE_def del: startRead.simps)
  from reach_step [OF s(1) this] show ?thesis
    using tc(2) s(2,4,5) login_reply_length [of 5 "[]"] request_keeps(3) [of _ "ReqEnter 78436 (Side_val Side_Sell) 5000 770000"]
    by (intro exI) (auto simp: onLoginAccepted_def Let_def)
qed

text \<open>A session with the credentials of the emulator.\<close>

lemma sample_accessor:
  "\<exists>acc. BistMarketAccessor_ctor (map ascii ''TEST'') (map ascii ''TEST_PWD'') True [] 0 = Inr acc \<and>
     partition_username acc = map ascii ''TEST'' \<and> partition_password acc = map ascii ''TEST_PWD'' \<and>
     bma_sessionName acc = [] \<and> tcp_written acc = []"
  using BistMarketAccessor_ctor_ok [of "[]" 0 "map ascii ''TEST''" "map ascii ''TEST_PWD''" True] by auto

lemma sample_carried: "carried (map ascii ''TEST'') (map ascii ''TEST_PWD'')"
  by (simp add: carried_def ascii_def)

section \<open>Properties\<close>



text \<open>
  C16. The client never gets stuck on what the emulator sends: in every reachable state it handles the next
  piece of the replies without a fault, without a copy past the end of a structure, and keeps its buffers
  and its order manager well formed.
\<close>

theorem client_reads_every_reply:
  assumes "BistMarketAccessor_ctor user pwd equity exch n = Inr acc" and "length exch \<le> 32" and "0 \<le> n" and "n + 1 < 2 ^ 31"
    and "m_clients sv fd = Some []" and "carried user pwd" and "sys_reach fd (sys_init acc sv) s"
    and "m_clients (sys_server s) fd = Some ws" and "chunk = take k (drop (read_down s) (concat ws))" and "chunk \<noteq> []"
    and "m_dataSize (sys_client s) + length chunk \<le> BUFFER_SIZE"
  shows "\<exists>tc. startRead handleMessage (sys_client s) [ReadBytes chunk] = Inr tc \<and>
    session_overruns (m_marketAccessor tc) = [] \<and> acc_ok (session_accessor (m_marketAccessor tc))"
  using sys_inv_client [OF sys_inv_reach [OF assms(1-7)] assms(8-11)] by (auto simp: sys_inv_def session_ok_def)

theorem client_reads_every_reply_witness:
  "\<exists>acc s tc. BistMarketAccessor_ctor (map ascii ''TEST'') (map ascii ''TEST_PWD'') True [] 0 = Inr acc \<and>
     sys_reach 5 (sys_init acc sample_server) s \<and>
     startRead handleMessage (sys_client s) [ReadBytes (take 20 (put_soup_LoginAccepted (login_reply 5 [])))] = Inr tc \<and>
     session_overruns (m_marketAccessor tc) = []"
proof -
  obtain acc where acc: "BistMarketAccessor_ctor (map ascii ''TEST'') (map ascii ''TEST_PWD'') True [] 0 = Inr acc"
    "partition_username acc = map ascii ''TEST''" "partition_password acc = map ascii ''TEST_PWD''"
    "bma_sessionName acc = []" "tcp_written acc = []"
    using sample_accessor by blast
  obtain s where s: "sys_reach 5 (sys_init acc sample_server) s" "read_down s = 0"
    "sys_client s = TcpClient_ctor \<lparr>session_accessor = login acc, session_overruns = []\<rparr>"
    "m_clients (sys_server s) 5 = Some [put_soup_LoginAccepted (login_reply 5 [])]"
    using sample_reply_run [OF acc(2-5)] by blast
  have "\<exists>tc. startRead handleMessage (sys_client s) [ReadBytes (take 20 (put_soup_LoginAccepted (login_reply 5 [])))] = Inr tc \<and>
      session_overruns (m_marketAccessor tc) = [] \<and> acc_ok (session_accessor (m_marketAccessor tc))"
    using s(2,3) login_reply_length [of 5 "[]"]
    by (intro client_reads_every_reply [OF acc(1) _ _ _ sample_server_client sample_carried s(1,4), of _ 20])
      (auto simp: TcpClient_ctor_def BUFFER_SIZE_def simp del: startRead.simps)
  then show ?thesis using acc(1) s(1) by blast
qed

end
