(* ===== verification/Shutdown.thy ===== *)
theory Shutdown
  imports Session_System
begin

text \<open>
  The end of a session: \<^verbatim>\<open>~BistMarketAccessor\<close> writes the logout and then joins the reading thread, which runs
  \<^verbatim>\<open>TcpClient::startRead\<close>.  The destructor is followed against the server loop of the emulator, with the reading
  thread still at work.
\<close>

section \<open>The destructor and the reading thread\<close>

text \<open>
  The destructor has not begun, waits in \<^verbatim>\<open>join\<close> or has returned.  \<open>reader_done\<close> says that \<^verbatim>\<open>startRead\<close> has returned,
  \<open>stop_flag\<close> is the atomic flag \<^verbatim>\<open>stopRequested\<close>, which the loop tests before each read.
\<close>

datatype dtor_phase = Alive | Joining | Destroyed

record shutdown_system =
  live :: session_system
  phase :: dtor_phase
  reader_done :: bool
  stop_flag :: bool

definition shut_init :: "session_system \<Rightarrow> shutdown_system" where
  "shut_init s = \<lparr>live = s, phase = Alive, reader_done = False, stop_flag = False\<rparr>"

definition dtor_logout :: "session_system \<Rightarrow> session_system" where
  "dtor_logout s = s\<lparr>sys_client := (sys_client s)\<lparr>m_marketAccessor := on_accessor logout (sys_session s)\<rparr>\<rparr>"

text \<open>
  A fault of the server inside a read comes from a connection that its handler has removed and closed: what
  the client sees of it is the end of the connection.  The read of the client fails on a closed
  connection and asks for no bytes when the buffer is full; both end the loop.
\<close>

inductive shut_step :: "int \<Rightarrow> shutdown_system \<Rightarrow> shutdown_system \<Rightarrow> bool" for fd where
  application: "phase s = Alive \<Longrightarrow> request_ok r \<Longrightarrow> l = live s \<Longrightarrow>
    shut_step fd s (s\<lparr>live := l\<lparr>sys_client := (sys_client l)
      \<lparr>m_marketAccessor := on_accessor (\<lambda>acc. bma_step acc r) (sys_session l)\<rparr>\<rparr>\<rparr>)"
| server: "l = live s \<Longrightarrow> read_up l + n \<le> length (tcp_written (sys_accessor l)) \<Longrightarrow>
    chunk = concat (take n (drop (read_up l) (tcp_written (sys_accessor l)))) \<Longrightarrow> chunk \<noteq> [] \<Longrightarrow>
    length chunk \<le> 4096 \<Longrightarrow>
    sv = (case handleClientData handleSoupBinTcpMessage (sys_server l) fd [ReadBytes chunk] of
            Inr sv \<Rightarrow> sv | Inl e \<Rightarrow> removeClient (sys_server l) fd) \<Longrightarrow>
    shut_step fd s (s\<lparr>live := l\<lparr>sys_server := sv, read_up := read_up l + n\<rparr>\<rparr>)"
| reader: "\<not> reader_done s \<Longrightarrow> l = live s \<Longrightarrow> m_clients (sys_server l) fd = Some ws \<Longrightarrow>
    chunk = take n (drop (read_down l) (concat ws)) \<Longrightarrow> chunk \<noteq> [] \<Longrightarrow>
    m_dataSize (sys_client l) + length chunk \<le> BUFFER_SIZE \<Longrightarrow>
    startRead handleMessage (sys_client l) [ReadBytes chunk] = Inr tc \<Longrightarrow>
    shut_step fd s (s\<lparr>live := l\<lparr>sys_client := tc, read_down := read_down l + length chunk\<rparr>, reader_done := stop_flag s\<rparr>)"
| reader_closed: "\<not> reader_done s \<Longrightarrow> m_clients (sys_server (live s)) fd = None \<Longrightarrow> shut_step fd s (s\<lparr>reader_done := True\<rparr>)"
| reader_full: "\<not> reader_done s \<Longrightarrow> m_dataSize (sys_client (live s)) = BUFFER_SIZE \<Longrightarrow>
    shut_step fd s (s\<lparr>reader_done := True\<rparr>)"
| stop: "shut_step fd s (s\<lparr>stop_flag := True\<rparr>)"
| begins: "phase s = Alive \<Longrightarrow> shut_step fd s (s\<lparr>live := dtor_logout (live s), phase := Joining\<rparr>)"
| joins: "phase s = Joining \<Longrightarrow> reader_done s \<Longrightarrow> shut_step fd s (s\<lparr>phase := Destroyed\<rparr>)"

inductive shut_reach :: "int \<Rightarrow> shutdown_system \<Rightarrow> shutdown_system \<Rightarrow> bool" for fd where
  shut_here: "shut_reach fd s s"
| shut_more: "shut_reach fd s s' \<Longrightarrow> shut_step fd s' s'' \<Longrightarrow> shut_reach fd s s''"

lemma shut_invariant:
  assumes "shut_reach fd s s'" and "I s" and "\<And>s s'. I s \<Longrightarrow> shut_step fd s s' \<Longrightarrow> I s'"
  shows "I s'"
  using assms(1,2) by (induction rule: shut_reach.induct) (auto intro: assms(3))

text \<open>Every run of the session system is a run in which the destructor has not begun.\<close>

lemma sys_step_shut:
  assumes "sys_step fd s s'"
  shows "shut_step fd (shut_init s) (shut_init s')"
  using assms
proof (cases rule: sys_step.cases)
  case (app_request r)
  then show ?thesis using shut_step.application [of "shut_init s" r s fd] by (simp add: shut_init_def)
next
  case (server_reads n chunk sv)
  then show ?thesis using shut_step.server [of s "shut_init s" n chunk sv fd] by (simp add: shut_init_def)
next
  case (client_reads ws chunk n tc)
  then show ?thesis using shut_step.reader [of "shut_init s" s fd ws chunk n tc] by (simp add: shut_init_def)
qed

lemma sys_reach_shut: "sys_reach fd s s' \<Longrightarrow> shut_reach fd (shut_init s) (shut_init s')"
  by (induction rule: sys_reach.induct) (auto intro: shut_reach.intros sys_step_shut)

section \<open>An idle session\<close>

text \<open>
  The destructor finds the session idle: the reading thread has read every reply and waits for more, and
  what the server has still to read are order requests.
\<close>

definition idle :: "int \<Rightarrow> shutdown_system \<Rightarrow> bool" where
  "idle fd s \<longleftrightarrow> phase s = Alive \<and> \<not> reader_done s \<and>
     (\<exists>ws. m_clients (sys_server (live s)) fd = Some ws \<and> read_down (live s) = length (concat ws)) \<and>
     read_up (live s) \<le> length (tcp_written (sys_accessor (live s))) \<and>
     (\<forall>p \<in> set (drop (read_up (live s)) (tcp_written (sys_accessor (live s)))). p ! 2 = ascii CHR ''U'')"

text \<open>The logout packet, and how the handler of the emulator takes it alone and behind an order request.\<close>

definition logout_bytes :: "byte list" where
  "logout_bytes = [0, 3, ascii CHR ''O'']"

lemma logout_put: "put16 (be16toh 3) = [0, 3]"
  by code_simp

lemma logout_written: "tcp_written (logout acc) = tcp_written acc @ [logout_bytes]"
  by (simp add: logout_def tcp_write_def put_soup_LogoutRequest_def put8_def logout_bytes_def logout_put ascii_def)

lemma logout_alone_ignored: "handleSoupBinTcpMessage sv fd logout_bytes = sv"
proof -
  have "unat (be16toh (get16 logout_bytes)) = 3"
    using network_order(1) [of logout_bytes] by (simp add: logout_bytes_def be_val_def)
  then show ?thesis by (simp add: handleSoupBinTcpMessage_def logout_bytes_def)
qed

lemma request_ignored: "data ! 2 = ascii CHR ''U'' \<Longrightarrow> handleSoupBinTcpMessage sv fd data = sv"
  by (simp add: handleSoupBinTcpMessage_def Let_def ascii_def)

text \<open>What the server can read of order requests with the logout behind them changes nothing.\<close>

lemma unread_ignored:
  assumes "\<forall>p \<in> set ps. 3 \<le> length p \<and> p ! 2 = ascii CHR ''U''" and "m_clients sv fd = Some ws"
    and "chunk = concat (take n (drop k (ps @ [logout_bytes])))" and "chunk \<noteq> []"
  shows "handleClientData handleSoupBinTcpMessage sv fd [ReadBytes chunk] = Inr sv"
proof -
  have "handleSoupBinTcpMessage sv fd chunk = sv"
  proof (cases "k < length ps \<and> 0 < n")
    case True
    then obtain p rest where "drop k ps = p # rest" "p \<in> set ps"
      by (metis Cons_nth_drop_Suc nth_mem)
    moreover from this have "chunk = p @ concat (take (n - 1) (rest @ [logout_bytes]))"
      using True assms(3) by (simp add: take_Cons')
    ultimately show ?thesis using assms(1) by (intro request_ignored) (auto simp: nth_append)
  next
    case False
    then have "chunk = logout_bytes" using assms(3,4) by (cases "k - length ps"; cases n) auto
    then show ?thesis by (simp add: logout_alone_ignored)
  qed
  then show ?thesis using assms(2,4) by (simp add: handleClientData_def handleClientData_loop.simps)
qed

section \<open>The wait\<close>

text \<open>The destructor waits: the client and the server are as the logout has left them.\<close>

definition waits :: "int \<Rightarrow> session_system \<Rightarrow> shutdown_system \<Rightarrow> bool" where
  "waits fd l s \<longleftrightarrow> phase s = Joining \<and> \<not> reader_done s \<and> sys_client (live s) = sys_client l \<and>
     sys_server (live s) = sys_server l \<and> read_down (live s) = read_down l \<and> read_up l \<le> read_up (live s)"

lemma waits_step:
  assumes w: "waits fd l s" and ws: "m_clients (sys_server l) fd = Some ws" "read_down l = length (concat ws)"
    and room: "m_dataSize (sys_client l) < BUFFER_SIZE"
    and unread: "drop (read_up l) (tcp_written (sys_accessor l)) = ps @ [logout_bytes]"
      "\<forall>p \<in> set ps. 3 \<le> length p \<and> p ! 2 = ascii CHR ''U''"
    and step: "shut_step fd s s'"
  shows "waits fd l s'"
  using step
proof (cases rule: shut_step.cases)
  case (server l' n chunk sv)
  obtain k where k: "read_up (live s) = k + read_up l" using w by (auto simp: waits_def le_iff_add add.commute)
  then have "drop (read_up l') (tcp_written (sys_accessor l')) = drop k (ps @ [logout_bytes])"
    using w server(2) unread(1) by (simp add: waits_def flip: drop_drop)
  then have "handleClientData handleSoupBinTcpMessage (sys_server l') fd [ReadBytes chunk] = Inr (sys_server l')"
    using unread_ignored [OF unread(2) ws(1)] server(2-5) w by (auto simp: waits_def)
  then show ?thesis using w server by (auto simp: waits_def)
qed (use w ws room in \<open>auto simp: waits_def\<close>)

text \<open>A logout that carried the length of what follows would end the connection.\<close>

lemma framed_logout_disconnects:
  "handleSoupBinTcpMessage sv fd ([0, 1, ascii CHR ''O''] @ rest) = disconnectClient sv fd"
proof -
  have "unat (be16toh (get16 ([0, 1, ascii CHR ''O''] @ rest))) = 1"
    using network_order(1) [of "[0, 1, ascii CHR ''O''] @ rest"] by (simp add: be_val_def)
  then show ?thesis by (simp add: handleSoupBinTcpMessage_def ascii_def)
qed

text \<open>The invariant of the session system holds up to the destructor and beyond its logout.\<close>

lemma sys_inv_logout: "sys_inv fd user pwd l \<Longrightarrow> sys_inv fd user pwd (dtor_logout l)"
  by (auto simp: sys_inv_def dtor_logout_def session_ok_def acc_ok_def logout_written client_packet_def
      logout_bytes_def ascii_def tc_ok_def tc_data_def) (auto simp: logout_def tcp_write_def)

lemma shut_inv_step:
  assumes inv: "sys_inv fd user pwd (live s)" and "carried user pwd" and "shut_step fd s s'"
  shows "sys_inv fd user pwd (live s')"
  using assms(3)
proof (cases rule: shut_step.cases)
  case (application r l)
  then show ?thesis using sys_inv_request [OF inv] by simp
next
  case (server l n chunk sv)
  show ?thesis
  proof (cases "handleClientData handleSoupBinTcpMessage (sys_server l) fd [ReadBytes chunk]")
    case (Inl e)
    then show ?thesis using inv server by (simp add: sys_inv_def)
  next
    case (Inr sv')
    then show ?thesis using sys_inv_server [OF inv assms(2)] server by simp
  qed
next
  case (reader l ws chunk n tc)
  then show ?thesis using sys_inv_client [OF inv, of ws chunk n] by auto
qed (use inv sys_inv_logout in auto)

lemma shut_inv_reach:
  assumes "sys_inv fd user pwd l" and "carried user pwd" and "shut_reach fd (shut_init l) s"
  shows "sys_inv fd user pwd (live s)"
  using shut_invariant [OF assms(3), of "\<lambda>s. sys_inv fd user pwd (live s)"] shut_inv_step [OF _ assms(2)] assms(1)
  by (auto simp: shut_init_def)

lemma idle_waits:
  assumes inv: "sys_inv fd user pwd (live s)" and idle: "idle fd s"
    and reach: "shut_reach fd (s\<lparr>live := dtor_logout (live s), phase := Joining\<rparr>) s'"
  shows "waits fd (dtor_logout (live s)) s'"
proof -
  let ?l = "dtor_logout (live s)"
  obtain ws where ws: "m_clients (sys_server ?l) fd = Some ws" "read_down ?l = length (concat ws)"
    using idle by (auto simp: idle_def dtor_logout_def)
  have "\<forall>w \<in> set ws. well_framed w" "tc_data (sys_client (live s)) = snd (split_frames (take (length (concat ws)) (concat ws)))"
    "tc_ok (sys_client (live s))"
    using inv ws reply_framed by (auto simp: sys_inv_def dtor_logout_def)
  then have "m_dataSize (sys_client (live s)) = 0"
    using split_frames_concat [of ws] by (auto simp: tc_data_def tc_ok_def BUFFER_SIZE_def)
  then have room: "m_dataSize (sys_client ?l) < BUFFER_SIZE" by (simp add: dtor_logout_def BUFFER_SIZE_def)
  obtain ps where ps: "ps = drop (read_up (live s)) (tcp_written (sys_accessor (live s)))" by blast
  have bound: "read_up (live s) \<le> length (tcp_written (sys_accessor (live s)))"
    using idle by (simp add: idle_def)
  have unread: "drop (read_up ?l) (tcp_written (sys_accessor ?l)) = ps @ [logout_bytes]"
    using bound ps by (simp add: dtor_logout_def logout_written)
  have requests: "\<forall>p \<in> set ps. 3 \<le> length p \<and> p ! 2 = ascii CHR ''U''"
    using idle inv ps by (auto simp: idle_def sys_inv_def session_ok_def client_packet_def dest: in_set_dropD)
  have "waits fd ?l (s\<lparr>live := ?l, phase := Joining\<rparr>)" using idle by (simp add: waits_def idle_def)
  then show ?thesis by (rule shut_invariant [OF reach]) (rule waits_step [OF _ ws room unread requests])
qed

text \<open>
  The flag \<^verbatim>\<open>stopRequested\<close> ends the wait only if a reply is still to be read when it is set: then the loop tests the
  flag once more.
\<close>

lemma shutdown_returns_after_reply:
  assumes "sys_inv fd user pwd (live s)" and "phase s = Joining" and "\<not> reader_done s" and "stop_flag s"
    and "m_clients (sys_server (live s)) fd = Some ws" and "read_down (live s) < length (concat ws)"
    and "m_dataSize (sys_client (live s)) < BUFFER_SIZE"
  shows "\<exists>s'. shut_reach fd s s' \<and> phase s' = Destroyed"
proof -
  let ?chunk = "take 1 (drop (read_down (live s)) (concat ws))"
  have "length ?chunk = 1" using assms(6) by (simp del: take_Suc_conv_app_nth)
  then have chunk: "?chunk \<noteq> []" "m_dataSize (sys_client (live s)) + length ?chunk \<le> BUFFER_SIZE"
    using assms(7) by (auto simp del: length_take length_drop)
  obtain tc where "startRead handleMessage (sys_client (live s)) [ReadBytes ?chunk] = Inr tc"
    using sys_inv_client [OF assms(1,5) refl chunk] by blast
  from shut_step.reader [OF assms(3) refl assms(5) refl chunk this] obtain s1 where
    s1: "shut_step fd s s1" "phase s1 = Joining" "reader_done s1"
    using assms(2,4) by fastforce
  have "shut_reach fd s s1" using s1(1) by (rule shut_more [OF shut_here])
  from shut_more [OF this shut_step.joins [OF s1(2,3)]] show ?thesis by fastforce
qed

section \<open>Properties\<close>

text \<open>The session of the trading client after its login is idle.\<close>

lemma sample_idle:
  assumes "acc_ok acc" and equity: "partition_isEquity (login acc)"
    and "sys_session s = packet_step \<lparr>session_accessor = login acc, session_overruns = []\<rparr> (SrvLoginAccepted m)"
    and "tcp_written acc = []" and "read_up s = 1" and "read_down s = 33"
    and "m_clients (sys_server s) 5 = Some [put_soup_LoginAccepted (login_reply 5 [])]"
  shows "idle 5 (shut_init s)"
proof -
  let ?acc = "(login acc)\<lparr>bma_state := bma_Continuous, bma_sessionName := la_session_name m\<rparr>"
  obtain pkt where pkt: "tcp_written (login acc) = [pkt]" using login_packet [of acc] assms(4) by auto
  have ok: "acc_ok ?acc" using bma_step_framed [of acc ReqLogin] assms(1) by (simp add: acc_ok_def)
  have "\<exists>body. tcp_written (sys_accessor s) = [pkt, soup_hdr 114 @ body]"
    using assms(3) equity sendEnterOrder_sends(2) [OF ok, of 78436 "Side_val Side_Sell" 5000 770000] pkt
    by (simp add: onLoginAccepted_def Let_def)
  moreover have "(soup_hdr 114 @ body) ! 2 = ascii CHR ''U''" for body
    by (simp add: soup_hdr_eq wire nth_append ascii_def)
  ultimately show ?thesis
    using assms(5-7) login_reply_length [of 5 "[]"] by (auto simp: idle_def shut_init_def)
qed

text \<open>
  C34. The destructor of an idle session never returns.  Whatever the server reads of the remaining packets and
  of the logout, and even if \<^verbatim>\<open>stopRequested\<close> is set, the connection stays open and the reading thread waits in its
  read, so the destructor waits in \<^verbatim>\<open>join\<close>: the logout says that three bytes follow where one does, and the server
  takes it for an incomplete packet.
\<close>

theorem shutdown_never_returns:
  assumes "BistMarketAccessor_ctor user pwd equity exch n = Inr acc" and "length exch \<le> 32" and "0 \<le> n" and "n + 1 < 2 ^ 31"
    and "m_clients sv fd = Some []" and "carried user pwd" and "shut_reach fd (shut_init (sys_init acc sv)) s"
    and "idle fd s" and "shut_reach fd (s\<lparr>live := dtor_logout (live s), phase := Joining\<rparr>) s'"
  shows "phase s' = Joining \<and> \<not> reader_done s' \<and> sys_server (live s') = sys_server (live s)"
  using idle_waits [OF shut_inv_reach [OF sys_inv_init [OF assms(1-5)] assms(6,7)] assms(8,9)]
  by (simp add: waits_def dtor_logout_def)

theorem shutdown_never_returns_witness:
  "\<exists>acc s. BistMarketAccessor_ctor (map ascii ''TEST'') (map ascii ''TEST_PWD'') True [] 0 = Inr acc \<and>
     sys_reach 5 (sys_init acc sample_server) s \<and> bma_state (sys_accessor s) = bma_Continuous \<and>
     (\<forall>s'. shut_reach 5 ((shut_init s)\<lparr>live := dtor_logout s, phase := Joining\<rparr>) s' \<longrightarrow> phase s' \<noteq> Destroyed)"
proof -
  obtain acc where acc: "BistMarketAccessor_ctor (map ascii ''TEST'') (map ascii ''TEST_PWD'') True [] 0 = Inr acc"
    "partition_username acc = map ascii ''TEST''" "partition_password acc = map ascii ''TEST_PWD''"
    "bma_sessionName acc = []" "tcp_written acc = []" "acc_ok acc" "partition_isEquity acc"
    using BistMarketAccessor_ctor_ok [of "[]" 0 "map ascii ''TEST''" "map ascii ''TEST_PWD''" True] by auto
  obtain s where s: "sys_reach 5 (sys_init acc sample_server) s" "bma_state (sys_accessor s) = bma_Continuous"
    "read_up s = 1" "read_down s = 33" "m_clients (sys_server s) 5 = Some [put_soup_LoginAccepted (login_reply 5 [])]"
    "sys_session s = packet_step \<lparr>session_accessor = login acc, session_overruns = []\<rparr> (SrvLoginAccepted (login_reply 5 []))"
    using sample_login_run [OF acc(2-5)] by blast
  have "partition_isEquity (login acc)" using acc(7) by (simp add: login_def tcp_write_def Let_def)
  then have "idle 5 (shut_init s)" using sample_idle [OF acc(6) _ s(6) acc(5) s(3-5)] by simp
  then have "shut_reach 5 ((shut_init s)\<lparr>live := dtor_logout s, phase := Joining\<rparr>) s' \<Longrightarrow> phase s' \<noteq> Destroyed" for s'
    using shutdown_never_returns [OF acc(1) _ _ _ sample_server_client sample_carried sys_reach_shut [OF s(1)], of s']
    by (simp add: shut_init_def)
  then show ?thesis using acc(1) s(1,2) by blast
qed

end
