(* ===== verification/Order_Responses.thy ===== *)
theory Order_Responses
  imports Tcp_Client
begin

text \<open>
  From the bytes of the TCP connection to the stored orders: what a stream of packets of the exchange does
  to the orders of \<^verbatim>\<open>OrderManager\<close> when \<^verbatim>\<open>TcpClient\<close> reads it in pieces.  The client reacts to responses with
  requests of its own; these take tokens and record pending replacements, and leave the orders alone.
\<close>

section \<open>Responses as events\<close>

text \<open>The event of the order store that a packet stands for.\<close>

fun response_event :: "server_packet \<Rightarrow> om_event option" where
  "response_event (SrvAccepted m) =
     Some (Accepted (oa_order_token m) (be64toh (oa_quantity m)) (oa_orderbook_id m) (sint (be32toh (oa_price m))) (oa_side m))"
| "response_event (SrvExecuted m) = Some (Executed (oex_order_token m) (be64toh (oex_traded_quantity m)))"
| "response_event (SrvRejected m) = Some (Deleted (orj_order_token m))"
| "response_event _ = None"

abbreviation response_events :: "server_packet list \<Rightarrow> om_event list" where
  "response_events ps \<equiv> List.map_filter response_event ps"

abbreviation session_orders :: "tcp_session \<Rightarrow> Order list" where
  "session_orders ts \<equiv> m_orders (m_orderManager (session_accessor ts))"

lemma requests_keep_orders [simp]:
  "m_orders (m_orderManager (sendEnterOrder acc ob side qty price)) = m_orders (m_orderManager acc)"
  "m_orders (m_orderManager (sendReplaceOrder acc orig price)) = m_orders (m_orderManager acc)"
  "m_orders (m_orderManager (sendCancelOrder acc orig)) = m_orders (m_orderManager acc)"
  "m_orders (m_orderManager (tcp_write acc buf)) = m_orders (m_orderManager acc)"
  by (auto simp: sendEnterOrder_def sendReplaceOrder_def sendCancelOrder_def tcp_write_def nextToken_def
      pendingReplace_def Let_def)

lemma login_keeps_orders [simp]: "m_orders (m_orderManager (onLoginAccepted acc m)) = m_orders (m_orderManager acc)"
  by (simp add: onLoginAccepted_def Let_def)

text \<open>The orders after a change depend on the orders before it only.\<close>

lemma modify_order_orders:
  "m_orders om = m_orders om' \<Longrightarrow> m_orders (modify_order t f om) = m_orders (modify_order t f om')"
  by (auto simp: modify_order_def getOrder_ptr_def withinRange_def set_order_def Let_def)

lemma om_run_orders:
  "m_orders om = m_orders om' \<Longrightarrow>
   m_orders (fold (\<lambda>e om. om_step om e) es om) = m_orders (fold (\<lambda>e om. om_step om e) es om')"
proof (induction es arbitrary: om om')
  case (Cons e es)
  have "m_orders (om_step om e) = m_orders (om_step om' e)"
    unfolding om_step_modify by (rule modify_order_orders) (rule Cons.prems)
  from Cons.IH [OF this] show ?case by simp
qed simp

lemma order_of_orders: "m_orders om = m_orders om' \<Longrightarrow> order_of om t = order_of om' t"
  by (simp add: order_of_def getOrder_ptr_def withinRange_def)

lemma packet_step_orders:
  "session_orders (packet_step ts p) =
   m_orders (case response_event p of
       None \<Rightarrow> m_orderManager (session_accessor ts) | Some e \<Rightarrow> om_step (m_orderManager (session_accessor ts)) e)"
  by (cases p) (simp_all add: note_overrun_def)

lemma packet_run_orders:
  "session_orders (fold (\<lambda>p ts. packet_step ts p) ps ts) =
   m_orders (fold (\<lambda>e om. om_step om e) (response_events ps) (m_orderManager (session_accessor ts)))"
proof (induction ps arbitrary: ts)
  case (Cons p ps)
  let ?om = "m_orderManager (session_accessor ts)"
  have "session_orders (fold (\<lambda>p ts. packet_step ts p) (p # ps) ts) =
      m_orders (fold (\<lambda>e om. om_step om e) (response_events ps) (m_orderManager (session_accessor (packet_step ts p))))"
    using Cons [of "packet_step ts p"] by simp
  also have "\<dots> = m_orders (fold (\<lambda>e om. om_step om e) (response_events ps)
      (case response_event p of None \<Rightarrow> ?om | Some e \<Rightarrow> om_step ?om e))"
    by (rule om_run_orders) (rule packet_step_orders)
  finally show ?case by (simp add: List.map_filter_simps split: option.splits)
qed (simp add: List.map_filter_simps)

section \<open>Properties\<close>


text \<open>A rejection of order 7 and a heartbeat, in one read: the order ends, whatever its state was.\<close>

definition reject7 :: server_packet where
  "reject7 = SrvRejected (sample_rejected\<lparr>orj_order_token := tok ''00000000000007''\<rparr>)"

lemma reject7_event: "response_event reject7 = Some (Deleted (tok ''00000000000007''))"
  by (simp add: reject7_def)

lemma reject7_valid: "packet_valid reject7"
  by (simp add: reject7_def sample_rejected_def layout tok_def)


text \<open>
  The response to a replacement changes no stored order, whatever its token and its price: the order keeps the price it
  was accepted with.
\<close>

theorem replaced_keeps_orders:
  assumes "packet_valid (SrvReplaced m)"
  shows "\<exists>ts'. handleMessage ts (packet_bytes (SrvReplaced m) @ [0, 0]) (length (packet_bytes (SrvReplaced m))) = Inr ts' \<and>
    session_orders ts' = session_orders ts"
  using handleMessage_packet [OF assms, of "[0, 0]" ts] packet_step_orders [of ts "SrvReplaced m"]
  by (simp del: packet_bytes.simps packet_step.simps)

definition sample_replaced :: ouch_OrderReplaced where
  "sample_replaced = get_ouch_OrderReplaced (ascii CHR ''U'' # replicate 144 0)"

theorem replaced_keeps_orders_witness:
  "\<forall>ts. \<exists>ts'. handleMessage ts (packet_bytes (SrvReplaced sample_replaced) @ [0, 0])
       (length (packet_bytes (SrvReplaced sample_replaced))) = Inr ts' \<and> session_orders ts' = session_orders ts"
proof
  fix ts
  have "packet_valid (SrvReplaced sample_replaced)" by (simp add: sample_replaced_def layout get8_def)
  from replaced_keeps_orders [OF this, of ts] show "\<exists>ts'. handleMessage ts (packet_bytes (SrvReplaced sample_replaced) @ [0, 0])
       (length (packet_bytes (SrvReplaced sample_replaced))) = Inr ts' \<and> session_orders ts' = session_orders ts" .
qed

end
