(* ===== verification/Session_Tokens.thy ===== *)
theory Session_Tokens
  imports Order_Responses
begin

text \<open>
  The order tokens of a whole session.  The application makes requests and the exchange sends packets, in any
  order; the client reacts to packets with requests of its own.  Whatever happens, the tokens that appear on the
  wire are the tokens of the generator, one after the other.
\<close>

section \<open>Sessions\<close>

datatype session_event = AppRequest bma_request | Incoming server_packet

text \<open>A packet goes through \<open>handleMessage\<close>, which reads up to two bytes behind it.\<close>

fun session_event_step :: "tcp_session \<Rightarrow> session_event \<Rightarrow> tcp_session result" where
  "session_event_step ts (AppRequest r) = Inr (on_accessor (\<lambda>acc. bma_step acc r) ts)"
| "session_event_step ts (Incoming p) = handleMessage ts (packet_bytes p @ [0, 0]) (length (packet_bytes p))"

fun session_event_ok :: "session_event \<Rightarrow> bool" where
  "session_event_ok (AppRequest r) = request_ok r"
| "session_event_ok (Incoming p) = packet_valid p"

fun session_run :: "session_event list \<Rightarrow> tcp_session \<Rightarrow> tcp_session result" where
  "session_run [] ts = Inr ts"
| "session_run (e # es) ts = res_bind (session_event_step ts e) (session_run es)"

text \<open>The token of the order that a packet enters, or of the order that replaces another one.\<close>

definition sent_token :: "byte list \<Rightarrow> order_token option" where
  "sent_token pkt =
     (if length pkt = 117 \<and> pkt ! 3 = ouch_MessageType_val ouch_MessageType_EnterOrder
      then Some (eo_order_token (get_ouch_EnterOrder (drop 3 pkt)))
      else if length pkt = 125 \<and> pkt ! 3 = ouch_MessageType_val ouch_MessageType_ReplaceOrder
      then Some (ro_replacement_order_token (get_ouch_ReplaceOrder (drop 3 pkt)))
      else None)"

definition sent_tokens :: "tcp_session \<Rightarrow> order_token list" where
  "sent_tokens ts = List.map_filter sent_token (tcp_written (session_accessor ts))"

section \<open>The tokens of one packet\<close>

lemma map_filter_snoc:
  "List.map_filter f (xs @ [x]) = List.map_filter f xs @ (case f x of None \<Rightarrow> [] | Some y \<Rightarrow> [y])"
  by (simp add: List.map_filter_def split: option.split)

lemma sent_token_enter:
  assumes "length exch \<le> 32" and "length t = 14"
  shows "sent_token (soup_hdr 114 @ put_ouch_EnterOrder (enter_message exch t ob sd q p)) = Some t"
proof -
  let ?m = "enter_message exch t ob sd q p"
  have v: "valid_ouch_EnterOrder ?m" using assms by (rule valid_messages)
  have "(soup_hdr 114 @ put_ouch_EnterOrder ?m) ! 3 = ascii CHR ''O''"
    by (simp add: nth_append length_soup_hdr put_ouch_EnterOrder_def enter_message_def put8_def)
  then show ?thesis
    using ouch_EnterOrder.get_put [OF v, of "[]"] ouch_EnterOrder.put_length [OF v]
    by (simp add: sent_token_def length_soup_hdr) (simp add: enter_message_def)
qed

lemma sent_token_replace:
  assumes "length t = 14" and "length u = 14"
  shows "sent_token (soup_hdr 122 @ put_ouch_ReplaceOrder (replace_message t u p)) = Some u"
proof -
  let ?m = "replace_message t u p"
  have v: "valid_ouch_ReplaceOrder ?m" using assms by (rule valid_messages)
  have "(soup_hdr 122 @ put_ouch_ReplaceOrder ?m) ! 3 = ascii CHR ''U''"
    by (simp add: nth_append length_soup_hdr put_ouch_ReplaceOrder_def replace_message_def put8_def)
  then show ?thesis
    using ouch_ReplaceOrder.get_put [OF v, of "[]"] ouch_ReplaceOrder.put_length [OF v]
    by (simp add: sent_token_def length_soup_hdr) (simp add: replace_message_def)
qed

lemma sent_token_short: "length pkt < 117 \<Longrightarrow> sent_token pkt = None"
  by (simp add: sent_token_def)

lemma sent_token_cancel: "length t = 14 \<Longrightarrow> sent_token (soup_hdr 15 @ put_ouch_CancelOrder (cancel_message t)) = None"
  by (rule sent_token_short) (simp add: valid_messages length_soup_hdr ouch_CancelOrder.put_length)

section \<open>The generator follows the wire\<close>

text \<open>After \<open>n\<close> tokens: the generator stands at the \<open>n\<close>-th successor of where it started, and these successors are on the wire.\<close>

definition drawn :: "OrderManager \<Rightarrow> nat \<Rightarrow> tcp_session \<Rightarrow> bool" where
  "drawn om n ts \<longleftrightarrow> acc_ok (session_accessor ts) \<and>
     m_token (m_orderManager (session_accessor ts)) = token_after n om \<and>
     sent_tokens ts = map (\<lambda>k. token_after (Suc k) om) [0..<n]"

lemma drawn_same:
  assumes "drawn om n ts" and "acc_ok (session_accessor ts')"
    and "m_token (m_orderManager (session_accessor ts')) = m_token (m_orderManager (session_accessor ts))"
    and "tcp_written (session_accessor ts') = tcp_written (session_accessor ts) \<or>
      (\<exists>pkt. tcp_written (session_accessor ts') = tcp_written (session_accessor ts) @ [pkt] \<and> sent_token pkt = None)"
  shows "drawn om n ts'"
  using assms by (auto simp: drawn_def sent_tokens_def map_filter_snoc)

lemma drawn_next:
  assumes "drawn om n ts" and "acc_ok (session_accessor ts')"
    and "m_token (m_orderManager (session_accessor ts')) = snd (nextToken (m_orderManager (session_accessor ts)))"
    and "tcp_written (session_accessor ts') = tcp_written (session_accessor ts) @ [pkt]"
    and "sent_token pkt = Some (snd (nextToken (m_orderManager (session_accessor ts))))"
  shows "drawn om (Suc n) ts'"
proof -
  have "snd (nextToken (m_orderManager (session_accessor ts))) = token_after (Suc n) om"
    using assms(1) by (simp add: drawn_def nextToken_def token_after_simps Let_def)
  then show ?thesis using assms by (simp add: drawn_def sent_tokens_def map_filter_snoc)
qed

lemma enter_token: "m_token (m_orderManager (sendEnterOrder acc ob side qty price)) = snd (nextToken (m_orderManager acc))"
  by (simp add: sendEnterOrder_def nextToken_def tcp_write_def Let_def)

lemma drawn_enter:
  assumes "drawn om n ts"
  shows "drawn om (Suc n) (on_accessor (\<lambda>acc. sendEnterOrder acc ob side qty price) ts)"
proof -
  have ok: "acc_ok (session_accessor ts)" using assms by (simp add: drawn_def)
  then have "length (m_exchangeInfo (session_accessor ts)) \<le> 32"
    "length (snd (nextToken (m_orderManager (session_accessor ts)))) = 14"
    using length_nextToken by (auto simp: acc_ok_def)
  then show ?thesis
    using drawn_next [OF assms] sendEnterOrder_sends [OF ok] sent_token_enter enter_token by simp
qed

lemma drawn_replace:
  assumes "drawn om n ts" and "length orig = 14"
  shows "drawn om (Suc n) (on_accessor (\<lambda>acc. sendReplaceOrder acc orig price) ts)"
proof -
  have ok: "acc_ok (session_accessor ts)" using assms by (simp add: drawn_def)
  then have "length (snd (nextToken (m_orderManager (session_accessor ts)))) = 14"
    using length_nextToken by (auto simp: acc_ok_def)
  moreover have "m_token (m_orderManager (sendReplaceOrder (session_accessor ts) orig price)) =
      snd (nextToken (m_orderManager (session_accessor ts)))"
    by (simp add: sendReplaceOrder_sends(3) [OF ok assms(2)] pendingReplace_def nextToken_def Let_def)
  ultimately show ?thesis
    using drawn_next [OF assms(1)] sendReplaceOrder_sends(1,2) [OF ok assms(2)] sent_token_replace [OF assms(2)] by simp
qed

lemma drawn_cancel:
  assumes "drawn om n ts" and "length orig = 14"
  shows "drawn om n (on_accessor (\<lambda>acc. sendCancelOrder acc orig) ts)"
proof -
  have ok: "acc_ok (session_accessor ts)" using assms by (simp add: drawn_def)
  have "m_orderManager (sendCancelOrder (session_accessor ts) orig) = m_orderManager (session_accessor ts)"
    by (simp add: sendCancelOrder_def tcp_write_def Let_def)
  then show ?thesis
    using sendCancelOrder_sends [OF ok assms(2)] sent_token_cancel [OF assms(2)] by (intro drawn_same [OF assms(1)]) simp_all
qed

lemma drawn_orders:
  assumes "drawn om n ts"
  shows "drawn om n (on_orders (\<lambda>om. modify_order t f om) (note_overrun k ts))"
proof -
  have "om_ok (m_orderManager (session_accessor ts))" using assms by (simp add: drawn_def acc_ok_def)
  then have "om_ok (modify_order t f (m_orderManager (session_accessor ts)))" by (rule orders.inv_modify)
  moreover have "m_token (modify_order t f om') = m_token om'" for om'
    by (simp add: modify_order_def set_order_def split: option.splits)
  ultimately show ?thesis
    using assms by (intro drawn_same [OF assms]) (simp_all add: drawn_def acc_ok_def note_overrun_def)
qed

lemma drawn_overrun [simp]: "drawn om n (note_overrun k ts) = drawn om n ts"
  by (simp add: drawn_def sent_tokens_def note_overrun_def)

lemma drawn_login:
  assumes "drawn om n ts"
  shows "drawn om n (on_accessor login ts)"
proof (rule drawn_same [OF assms])
  show "acc_ok (session_accessor (on_accessor login ts))" using assms by (simp add: drawn_def)
  show "m_token (m_orderManager (session_accessor (on_accessor login ts))) = m_token (m_orderManager (session_accessor ts))"
    by (simp add: login_def tcp_write_def Let_def)
qed (simp add: login_packet sent_token_short wire)

lemma drawn_heartbeat:
  "drawn om n ts \<Longrightarrow> length pkt < 117 \<Longrightarrow> drawn om n (on_accessor (\<lambda>acc. tcp_write acc pkt) ts)"
  by (rule drawn_same, assumption) (auto simp: drawn_def sent_token_short tcp_write_def acc_ok_def)

lemma drawn_accepted:
  assumes "drawn om n ts"
  shows "\<exists>m. drawn om m (on_accessor (\<lambda>acc. onLoginAccepted acc la) ts) \<and> m \<le> Suc n"
proof -
  let ?ts = "on_accessor (\<lambda>acc. acc\<lparr>bma_state := bma_Continuous, bma_sessionName := la_session_name la\<rparr>) ts"
  have "drawn om n ?ts" using assms by (intro drawn_same [OF assms]) (auto simp: drawn_def acc_ok_def)
  then show ?thesis
    using drawn_enter [of om n ?ts 78436 "Side_val Side_Sell" 5000 770000]
    by (cases "partition_isEquity (session_accessor ts)") (auto simp: onLoginAccepted_def)
qed

lemma drawn_packet:
  assumes "drawn om n ts" and "packet_valid p"
  shows "\<exists>m. drawn om m (packet_step ts p) \<and> m \<le> Suc n"
proof (cases p)
  case (SrvAccepted m)
  then have "length (oa_order_token m) = 14" using assms(2) by (simp add: layout)
  then have "drawn om (Suc n) (packet_step ts (SrvAccepted m))"
    unfolding packet_step.simps handlers_modify by (intro drawn_replace drawn_orders assms(1))
  then show ?thesis using SrvAccepted by auto
next
  case (SrvReplaced m)
  then have "length (ord_replacement_order_token m) = 14" using assms(2) by (simp add: layout)
  from drawn_cancel [OF _ this] assms(1) SrvReplaced show ?thesis
    by (metis drawn_overrun packet_step.simps(3) le_SucI order_refl)
next
  case (SrvLoginAccepted m)
  then show ?thesis using drawn_accepted [OF assms(1)] by simp
next
  case SrvHeartbeat
  have "drawn om n (packet_step ts SrvHeartbeat)"
    unfolding packet_step.simps by (rule drawn_heartbeat [OF assms(1)]) (simp add: put_soup_ClientHeartbeat_def wire)
  then show ?thesis using SrvHeartbeat by auto
next
  case (SrvExecuted m)
  have "drawn om n (packet_step ts (SrvExecuted m))"
    unfolding packet_step.simps handlers_modify by (rule drawn_orders [OF assms(1)])
  then show ?thesis using SrvExecuted le_SucI by blast
next
  case (SrvRejected m)
  have "drawn om n (packet_step ts (SrvRejected m))"
    unfolding packet_step.simps handlers_modify by (rule drawn_orders [OF assms(1)])
  then show ?thesis using SrvRejected le_SucI by blast
qed (use assms(1) in \<open>auto intro: le_SucI\<close>)

lemma drawn_event:
  assumes "drawn om n ts" and "session_event_ok e"
  shows "\<exists>ts' m. session_event_step ts e = Inr ts' \<and> drawn om m ts' \<and> m \<le> Suc n"
proof (cases e)
  case (AppRequest r)
  then have "request_ok r" using assms(2) by simp
  then show ?thesis
    using AppRequest drawn_login [OF assms(1)] drawn_enter [OF assms(1)] drawn_replace [OF assms(1)] drawn_cancel [OF assms(1)]
    by (cases r) force+
next
  case (Incoming p)
  then show ?thesis
    using drawn_packet [OF assms(1)] assms(2) handleMessage_packet [of p "[0, 0]" ts] by simp
qed

lemma drawn_run:
  assumes "drawn om n ts" and "\<forall>e \<in> set es. session_event_ok e"
  shows "\<exists>ts' m. session_run es ts = Inr ts' \<and> drawn om m ts' \<and> m \<le> n + length es"
  using assms
proof (induction es arbitrary: n ts)
  case (Cons e es)
  then obtain ts' m where step: "session_event_step ts e = Inr ts'" "drawn om m ts'" "m \<le> Suc n"
    using drawn_event by (metis list.set_intros(1))
  then show ?case using Cons.IH [OF step(2)] Cons.prems(2) by fastforce
qed auto

section \<open>Properties\<close>


text \<open>A login, a heartbeat and two orders.\<close>

definition sample_session :: "session_event list" where
  "sample_session = [AppRequest ReqLogin, Incoming SrvHeartbeat, AppRequest (ReqEnter 78436 83 10 5),
     AppRequest (ReqEnter 78436 66 10 4)]"

lemma first_tokens:
  "token_after 0 (OrderManager_ctor 0) = tok ''00000000000001''"
  "token_after (Suc 0) (OrderManager_ctor 0) = tok ''00000000000002''"
  "token_after (Suc (Suc 0)) (OrderManager_ctor 0) = tok ''00000000000003''"
  "token_after (Suc (Suc (Suc 0))) (OrderManager_ctor 0) = tok ''00000000000004''"
proof -
  have "m_token (OrderManager_ctor 0) = tok ''00000000000001''"
    using ctor_token [of 0] digit_tok [of "''00000000000001''"]
      dec_val_inject [of "m_token (OrderManager_ctor 0)" "tok ''00000000000001''"]
    by (simp add: dec_val_def tok_def ascii_def)
  then show "token_after 0 (OrderManager_ctor 0) = tok ''00000000000001''" by (simp add: token_after_simps)
  moreover have "nextToken_loop 14 1 (tok ''00000000000001'') = tok ''00000000000002''" by code_simp
  ultimately show "token_after (Suc 0) (OrderManager_ctor 0) = tok ''00000000000002''" by (simp add: token_after_simps)
  moreover have "nextToken_loop 14 1 (tok ''00000000000002'') = tok ''00000000000003''" by code_simp
  ultimately show "token_after (Suc (Suc 0)) (OrderManager_ctor 0) = tok ''00000000000003''" by (simp add: token_after_simps)
  moreover have "nextToken_loop 14 1 (tok ''00000000000003'') = tok ''00000000000004''" by code_simp
  ultimately show "token_after (Suc (Suc (Suc 0))) (OrderManager_ctor 0) = tok ''00000000000004''"
    by (simp add: token_after_simps)
qed


end
