(* ===== verification/Reactions.thy ===== *)
theory Reactions
  imports Session_Tokens
begin

text \<open>
  What the client sends on its own account.  While it reads the packets of the exchange it answers heartbeats, enters
  an order after a login, replaces every accepted order and cancels every replaced one.  The bytes it writes are decoded and
  compared with a small machine that knows only the packets and the order of the tokens.
\<close>

section \<open>Requests on the wire\<close>

datatype wire_request =
    WireEnter order_token u32 byte u64 int
  | WireReplace order_token order_token int
  | WireCancel order_token
  | WireHeartbeat

definition decode_enter :: "ouch_EnterOrder \<Rightarrow> wire_request" where
  "decode_enter m = WireEnter (eo_order_token m) (be32toh (eo_orderbook_id m)) (eo_side m) (be64toh (eo_quantity m))
     (sint (be32toh (eo_price m)))"

definition decode_replace :: "ouch_ReplaceOrder \<Rightarrow> wire_request" where
  "decode_replace m = WireReplace (ro_existing_order_token m) (ro_replacement_order_token m) (sint (be32toh (ro_price m)))"

text \<open>How an exchange reads a packet of the client: only framed packets count.\<close>

definition wire_decode :: "byte list \<Rightarrow> wire_request option" where
  "wire_decode pkt =
     (if \<not> well_framed pkt \<or> length pkt < 3 then None
      else if pkt ! 2 = PacketType_val PacketType_ClientHeartbeat then Some WireHeartbeat
      else if pkt ! 2 \<noteq> PacketType_val PacketType_UnsequencedData then None
      else if length pkt = 117 \<and> pkt ! 3 = ouch_MessageType_val ouch_MessageType_EnterOrder
      then Some (decode_enter (get_ouch_EnterOrder (drop 3 pkt)))
      else if length pkt = 125 \<and> pkt ! 3 = ouch_MessageType_val ouch_MessageType_ReplaceOrder
      then Some (decode_replace (get_ouch_ReplaceOrder (drop 3 pkt)))
      else if length pkt = 18 \<and> pkt ! 3 = ouch_MessageType_val ouch_MessageType_CancelOrder
      then Some (WireCancel (co_order_token (get_ouch_CancelOrder (drop 3 pkt))))
      else None)"

section \<open>The machine\<close>

text \<open>
  The reaction to one packet, from the kind of the partition, the generator the session started with and the number of tokens
  drawn so far, with the number of tokens drawn afterwards.
\<close>

fun reaction :: "bool \<Rightarrow> OrderManager \<Rightarrow> nat \<Rightarrow> server_packet \<Rightarrow> wire_request list \<times> nat" where
  "reaction equity om n (SrvAccepted m) = ([WireReplace (oa_order_token m) (token_after (Suc n) om) 775000], Suc n)"
| "reaction equity om n (SrvReplaced m) = ([WireCancel (ord_replacement_order_token m)], n)"
| "reaction equity om n (SrvLoginAccepted m) =
     (if equity then ([WireEnter (token_after (Suc n) om) 78436 (ascii CHR ''S'') 5000 770000], Suc n) else ([], n))"
| "reaction equity om n SrvHeartbeat = ([WireHeartbeat], n)"
| "reaction equity om n _ = ([], n)"

fun reactions :: "bool \<Rightarrow> OrderManager \<Rightarrow> nat \<Rightarrow> server_packet list \<Rightarrow> wire_request list" where
  "reactions equity om n [] = []"
| "reactions equity om n (p # ps) =
     (case reaction equity om n p of (rs, n') \<Rightarrow> rs @ reactions equity om n' ps)"

section \<open>The packets decode\<close>

lemma soup_hdr_type: "(soup_hdr n @ body) ! 2 = ascii CHR ''U''"
  by (simp add: soup_hdr_eq wire nth_append ascii_def)

lemma soup_hdr_not_heartbeat: "ascii CHR ''U'' \<noteq> ascii CHR ''R''"
  by (simp add: ascii_def)

lemma wire_decode_enter:
  assumes "length exch \<le> 32" and "length t = 14" and "- (2 ^ 31) \<le> price" and "price < 2 ^ 31"
  shows "wire_decode (soup_hdr 114 @ put_ouch_EnterOrder
      (enter_message exch t (be32toh ob) side (be64toh qty) (be32toh (of_int price)))) = Some (WireEnter t ob side qty price)"
proof -
  let ?m = "enter_message exch t (be32toh ob) side (be64toh qty) (be32toh (of_int price))"
  have v: "valid_ouch_EnterOrder ?m" using assms(1,2) by (rule valid_messages)
  have "(soup_hdr 114 @ put_ouch_EnterOrder ?m) ! 3 = ascii CHR ''O''"
    by (simp add: nth_append length_soup_hdr put_ouch_EnterOrder_def enter_message_def put8_def)
  moreover have "decode_enter ?m = WireEnter t ob side qty price"
    by (simp add: decode_enter_def enter_message_def sint_of_int_price [OF assms(3,4)])
  ultimately show ?thesis
    using ouch_EnterOrder.get_put [OF v, of "[]"] ouch_EnterOrder.put_length [OF v] packets_framed(1) [OF assms(1,2)]
    by (simp add: wire_decode_def length_soup_hdr soup_hdr_type soup_hdr_not_heartbeat)
qed

lemma wire_decode_replace:
  assumes "length t = 14" and "length u = 14" and "- (2 ^ 31) \<le> price" and "price < 2 ^ 31"
  shows "wire_decode (soup_hdr 122 @ put_ouch_ReplaceOrder (replace_message t u (be32toh (of_int price)))) =
    Some (WireReplace t u price)"
proof -
  let ?m = "replace_message t u (be32toh (of_int price))"
  have v: "valid_ouch_ReplaceOrder ?m" using assms(1,2) by (rule valid_messages)
  have "(soup_hdr 122 @ put_ouch_ReplaceOrder ?m) ! 3 = ascii CHR ''U''"
    by (simp add: nth_append length_soup_hdr put_ouch_ReplaceOrder_def replace_message_def put8_def)
  moreover have "decode_replace ?m = WireReplace t u price"
    by (simp add: decode_replace_def replace_message_def sint_of_int_price [OF assms(3,4)])
  ultimately show ?thesis
    using ouch_ReplaceOrder.get_put [OF v, of "[]"] ouch_ReplaceOrder.put_length [OF v] packets_framed(2) [OF assms(1,2)]
    by (simp add: wire_decode_def length_soup_hdr soup_hdr_type soup_hdr_not_heartbeat)
qed

lemma wire_decode_cancel:
  assumes "length t = 14"
  shows "wire_decode (soup_hdr 15 @ put_ouch_CancelOrder (cancel_message t)) = Some (WireCancel t)"
proof -
  have v: "valid_ouch_CancelOrder (cancel_message t)" using assms by (rule valid_messages)
  have "(soup_hdr 15 @ put_ouch_CancelOrder (cancel_message t)) ! 3 = ascii CHR ''X''"
    by (simp add: nth_append length_soup_hdr put_ouch_CancelOrder_def cancel_message_def put8_def)
  then show ?thesis
    using ouch_CancelOrder.get_put [OF v, of "[]"] ouch_CancelOrder.put_length [OF v] packets_framed(3) [OF assms]
    by (simp add: wire_decode_def length_soup_hdr soup_hdr_type soup_hdr_not_heartbeat) (simp add: cancel_message_def)
qed

lemma wire_decode_heartbeat:
  "wire_decode (put_soup_ClientHeartbeat
     \<lparr>ch_packetLength = be16toh 1, ch_packetType = PacketType_val PacketType_ClientHeartbeat\<rparr>) = Some WireHeartbeat"
  by code_simp

section \<open>The client follows the machine\<close>

definition at_token :: "OrderManager \<Rightarrow> nat \<Rightarrow> BistMarketAccessor \<Rightarrow> bool" where
  "at_token om n acc \<longleftrightarrow> acc_ok acc \<and> m_token (m_orderManager acc) = token_after n om"

lemma next_is: "at_token om n acc \<Longrightarrow> snd (nextToken (m_orderManager acc)) = token_after (Suc n) om"
  by (simp add: at_token_def nextToken_def token_after_simps Let_def)

lemma length_next: "at_token om n acc \<Longrightarrow> length (token_after (Suc n) om) = 14"
  using length_nextToken [of "m_orderManager acc"] next_is [of om n acc] by (simp add: at_token_def acc_ok_def)

text \<open>What a change of the session adds to the wire, and where it leaves the generator.\<close>

definition sends :: "OrderManager \<Rightarrow> nat \<Rightarrow> wire_request list \<Rightarrow> BistMarketAccessor \<Rightarrow> BistMarketAccessor \<Rightarrow> bool" where
  "sends om n rs acc acc' \<longleftrightarrow> at_token om n acc' \<and> partition_isEquity acc' = partition_isEquity acc \<and>
     (\<exists>new. tcp_written acc' = tcp_written acc @ new \<and> map wire_decode new = map Some rs)"

lemma sends_trans: "sends om n rs acc acc' \<Longrightarrow> sends om m rs' acc' acc'' \<Longrightarrow> sends om m (rs @ rs') acc acc''"
  by (fastforce simp: sends_def)

lemma sends_nothing: "at_token om n acc \<Longrightarrow> sends om n [] acc acc"
  by (simp add: sends_def)

lemma requests_keep_equity [simp]:
  "partition_isEquity (sendEnterOrder acc ob side qty price) = partition_isEquity acc"
  "partition_isEquity (sendReplaceOrder acc orig price) = partition_isEquity acc"
  "partition_isEquity (sendCancelOrder acc orig) = partition_isEquity acc"
  by (simp_all add: sendEnterOrder_def sendReplaceOrder_def sendCancelOrder_def tcp_write_def Let_def split: prod.splits)

lemma sends_enter:
  assumes "at_token om n acc" and "- (2 ^ 31) \<le> price" and "price < 2 ^ 31"
  shows "sends om (Suc n) [WireEnter (token_after (Suc n) om) ob side (ucast qty) price] acc (sendEnterOrder acc ob side qty price)"
proof -
  have ok: "acc_ok acc" "length (m_exchangeInfo acc) \<le> 32" "length (token_after (Suc n) om) = 14"
    using assms(1) length_next [OF assms(1)] by (simp_all add: at_token_def acc_ok_def)
  show ?thesis
    using sendEnterOrder_sends [OF ok(1), of ob side qty price] next_is [OF assms(1)] enter_token [of acc ob side qty price]
      wire_decode_enter [OF ok(2,3) assms(2,3), of ob side "ucast qty"]
    by (simp add: sends_def at_token_def)
qed

lemma sends_replace:
  assumes "at_token om n acc" and "length orig = 14" and "- (2 ^ 31) \<le> price" and "price < 2 ^ 31"
  shows "sends om (Suc n) [WireReplace orig (token_after (Suc n) om) price] acc (sendReplaceOrder acc orig price)"
proof -
  have ok: "acc_ok acc" "length (token_after (Suc n) om) = 14"
    using assms(1) length_next [OF assms(1)] by (simp_all add: at_token_def acc_ok_def)
  have "m_token (m_orderManager (sendReplaceOrder acc orig price)) = snd (nextToken (m_orderManager acc))"
    by (simp add: sendReplaceOrder_sends(3) [OF ok(1) assms(2)] pendingReplace_def nextToken_def Let_def)
  then show ?thesis
    using sendReplaceOrder_sends(1,2) [OF ok(1) assms(2), of price] next_is [OF assms(1)]
      wire_decode_replace [OF assms(2) ok(2) assms(3,4)]
    by (simp add: sends_def at_token_def)
qed

lemma sends_cancel:
  assumes "at_token om n acc" and "length orig = 14"
  shows "sends om n [WireCancel orig] acc (sendCancelOrder acc orig)"
proof -
  have ok: "acc_ok acc" using assms(1) by (simp add: at_token_def)
  have "m_orderManager (sendCancelOrder acc orig) = m_orderManager acc"
    by (simp add: sendCancelOrder_def tcp_write_def Let_def)
  then show ?thesis
    using assms sendCancelOrder_sends [OF ok assms(2)] wire_decode_cancel [OF assms(2)] by (simp add: sends_def at_token_def)
qed

lemma sends_modify:
  assumes "at_token om n acc"
  shows "sends om n [] acc (acc\<lparr>m_orderManager := modify_order t f (m_orderManager acc)\<rparr>)"
proof -
  have "om_ok (m_orderManager acc)" using assms by (simp add: at_token_def acc_ok_def)
  then have "om_ok (modify_order t f (m_orderManager acc))" by (rule orders.inv_modify)
  moreover have "m_token (modify_order t f om') = m_token om'" for om'
    by (simp add: modify_order_def set_order_def split: option.splits)
  ultimately show ?thesis using assms by (simp add: sends_def at_token_def acc_ok_def)
qed

lemma sends_heartbeat:
  "at_token om n acc \<Longrightarrow> wire_decode pkt = Some r \<Longrightarrow> sends om n [r] acc (tcp_write acc pkt)"
  by (simp add: sends_def at_token_def tcp_write_def acc_ok_def)

lemma sends_login_accepted:
  assumes "at_token om n acc" and "reaction (partition_isEquity acc) om n (SrvLoginAccepted m) = (rs, n')"
  shows "sends om n' rs acc (onLoginAccepted acc m)"
proof -
  let ?acc = "acc\<lparr>bma_state := bma_Continuous, bma_sessionName := la_session_name m\<rparr>"
  have acc: "at_token om n ?acc" using assms(1) by (simp add: at_token_def acc_ok_def)
  then have "sends om n [] acc ?acc" by (simp add: sends_def)
  from sends_trans [OF this sends_enter [OF acc, of 770000 78436 "Side_val Side_Sell" 5000]] this assms(2) show ?thesis
    by (auto simp: onLoginAccepted_def Let_def split: if_splits)
qed

lemma packet_reaction:
  assumes at: "at_token om n (session_accessor ts)" and "packet_valid p"
    and "reaction (partition_isEquity (session_accessor ts)) om n p = (rs, n')"
  shows "sends om n' rs (session_accessor ts) (session_accessor (packet_step ts p))"
proof (cases p)
  case (SrvAccepted m)
  let ?acc = "session_accessor (on_orders (\<lambda>om. orderAccepted om (oa_order_token m) (be64toh (oa_quantity m)) (oa_orderbook_id m)
    (sint (be32toh (oa_price m))) (oa_side m)) (note_overrun 2 ts))"
  have "length (oa_order_token m) = 14" using SrvAccepted assms(2) by (simp add: layout)
  moreover have "sends om n [] (session_accessor ts) ?acc"
    unfolding handlers_modify using sends_modify [OF at] by (simp add: note_overrun_def)
  ultimately have "sends om (Suc n) [WireReplace (oa_order_token m) (token_after (Suc n) om) 775000] (session_accessor ts)
      (sendReplaceOrder ?acc (oa_order_token m) 775000)"
    using sends_trans sends_replace [of om n ?acc "oa_order_token m" 775000] by (fastforce simp: sends_def [of om n "[]"])
  then show ?thesis using SrvAccepted assms(3) by auto
next
  case (SrvReplaced m)
  then have "length (ord_replacement_order_token m) = 14" using assms(2) by (simp add: layout)
  then show ?thesis using sends_cancel [OF at] SrvReplaced assms(3) by (auto simp: note_overrun_def)
next
  case (SrvLoginAccepted m)
  then show ?thesis using sends_login_accepted [OF at] assms(3) by simp
next
  case SrvHeartbeat
  then show ?thesis using sends_heartbeat [OF at wire_decode_heartbeat] assms(3) by auto
next
  case (SrvExecuted m)
  then show ?thesis using sends_modify [OF at] assms(3) by (auto simp: handlers_modify note_overrun_def)
next
  case (SrvRejected m)
  then show ?thesis using sends_modify [OF at] assms(3) by (auto simp: handlers_modify note_overrun_def)
qed (use sends_nothing [OF at] assms(3) in \<open>auto simp: note_overrun_def\<close>)

lemma packets_reactions:
  assumes "at_token om n (session_accessor ts)" and "\<forall>p \<in> set ps. packet_valid p"
    and "equity = partition_isEquity (session_accessor ts)"
  shows "\<exists>n'. sends om n' (reactions equity om n ps) (session_accessor ts)
    (session_accessor (fold (\<lambda>p ts. packet_step ts p) ps ts))"
  using assms
proof (induction ps arbitrary: n ts)
  case Nil
  then show ?case using sends_nothing by auto
next
  case (Cons p ps)
  obtain rs n1 where r: "reaction equity om n p = (rs, n1)" by fastforce
  then have step: "sends om n1 rs (session_accessor ts) (session_accessor (packet_step ts p))"
    using packet_reaction [OF Cons.prems(1), of p] Cons.prems(2,3) by simp
  then obtain n' where "sends om n' (reactions equity om n1 ps) (session_accessor (packet_step ts p))
      (session_accessor (fold (\<lambda>p ts. packet_step ts p) ps (packet_step ts p)))"
    using Cons.IH [of n1 "packet_step ts p"] Cons.prems(2,3) by (auto simp: sends_def [of om n1])
  from sends_trans [OF step this] show ?case using r by auto
qed

section \<open>Properties\<close>


text \<open>A heartbeat and the answer to a login, in one read.\<close>

definition sample_login :: server_packet where
  "sample_login = SrvLoginAccepted
     \<lparr>la_packetLength = be16toh 31, la_packetType = ascii CHR ''A'', la_session_name = replicate 10 (ascii CHR '' ''),
      la_sequenceNumber = replicate 20 (ascii CHR ''1'')\<rparr>"

lemma sample_login_valid: "packet_valid sample_login" "length (packet_bytes sample_login) = 33"
  "length (packet_bytes SrvHeartbeat) = 3"
  by (simp_all add: sample_login_def layout put_soup_LoginAccepted_def put_soup_ServerHeartbeat_def wire put8_def)


end
