(* ===== verification/Order_Dialogue.thy ===== *)
theory Order_Dialogue
  imports Reactions
begin

text \<open>
  The dialogue of the client with an exchange: the client logs in, the exchange answers each packet it receives, the
  client reacts to the answers with new packets, and so on.  The exchange and the way the network cuts its
  answers are arguments.  Of the exchange it is assumed that it follows the protocol on the requests the client makes.
\<close>

section \<open>The dialogue\<close>

text \<open>
  \<open>answers\<close> gives the packets with which the exchange answers one packet of the client: a login is accepted,
  an order is accepted under its token, a replacement is confirmed with its new token and a cancellation with its token.
\<close>

definition follows_protocol :: "(byte list \<Rightarrow> server_packet list) \<Rightarrow> bool" where
  "follows_protocol answers \<longleftrightarrow> (\<forall>pkt.
     (3 \<le> length pkt \<and> pkt ! 2 = PacketType_val PacketType_LoginRequest \<longrightarrow>
        (\<exists>m. answers pkt = [SrvLoginAccepted m] \<and> packet_valid (SrvLoginAccepted m))) \<and>
     (\<forall>t ob side qty price. wire_decode pkt = Some (WireEnter t ob side qty price) \<longrightarrow>
        (\<exists>m. answers pkt = [SrvAccepted m] \<and> packet_valid (SrvAccepted m) \<and> oa_order_token m = t)) \<and>
     (\<forall>t u price. wire_decode pkt = Some (WireReplace t u price) \<longrightarrow>
        (\<exists>m. answers pkt = [SrvReplaced m] \<and> packet_valid (SrvReplaced m) \<and> ord_replacement_order_token m = u)) \<and>
     (\<forall>t. wire_decode pkt = Some (WireCancel t) \<longrightarrow>
        (\<exists>m. answers pkt = [SrvCanceled m] \<and> packet_valid (SrvCanceled m) \<and> ocn_order_token m = t)))"

definition cuts :: "(byte list \<Rightarrow> byte list list) \<Rightarrow> bool" where
  "cuts pieces \<longleftrightarrow> (\<forall>bs. concat (pieces bs) = bs \<and> [] \<notin> set (pieces bs))"

text \<open>
  A round: the exchange answers the packets it has not answered yet, \<open>seen\<close> counts the others, and the client reads the
  answers.  The dialogue is over when there is nothing to answer.
\<close>

abbreviation client_written :: "tcp_session TcpClient \<Rightarrow> byte list list" where
  "client_written tc \<equiv> tcp_written (session_accessor (m_marketAccessor tc))"

fun dialogue :: "(byte list \<Rightarrow> byte list list) \<Rightarrow> (byte list \<Rightarrow> server_packet list) \<Rightarrow> nat \<Rightarrow> nat \<Rightarrow>
    tcp_session TcpClient \<Rightarrow> (tcp_session TcpClient \<times> nat) result" where
  "dialogue pieces answers 0 seen tc = Inr (tc, seen)"
| "dialogue pieces answers (Suc n) seen tc =
     (case concat (map answers (drop seen (client_written tc))) of
        [] \<Rightarrow> Inr (tc, length (client_written tc))
      | ps \<Rightarrow> res_bind (startRead handleMessage tc (map ReadBytes (pieces (concat (map packet_bytes ps)))))
                (dialogue pieces answers n (length (client_written tc))))"

section \<open>One round\<close>

lemma packet_bytes_length: "packet_valid p \<Longrightarrow> length (packet_bytes p) \<le> 148"
  by (cases p) (simp_all add: length_sequenced response_codecs wire put8_def layout)

definition reading :: "OrderManager \<Rightarrow> nat \<Rightarrow> tcp_session TcpClient \<Rightarrow> bool" where
  "reading om n tc \<longleftrightarrow> tc_ok tc \<and> tc_data tc = [] \<and> at_token om n (session_accessor (m_marketAccessor tc)) \<and>
     partition_isEquity (session_accessor (m_marketAccessor tc))"

lemma dialogue_round:
  assumes tc: "reading om n tc" and "cuts pieces" and "drop seen (client_written tc) = [q]" and "answers q = [p]"
    and "packet_valid p" and "reaction True om n p = (rs, n')"
  shows "\<exists>tc' new. (\<forall>k. dialogue pieces answers (Suc k) seen tc = dialogue pieces answers k (length (client_written tc)) tc') \<and>
    reading om n' tc' \<and> client_written tc' = client_written tc @ new \<and> map wire_decode new = map Some rs"
proof -
  let ?cs = "pieces (packet_bytes p)" and ?ts = "m_marketAccessor tc"
  have cs: "concat ?cs = packet_bytes p" "[] \<notin> set ?cs" using assms(2) by (simp_all add: cuts_def)
  then have fit: "chunks_fit 2 [] ?cs"
    using packet_bytes_length [OF assms(5)] by (intro small_chunks_fit) (simp_all add: BUFFER_SIZE_def)
  have frames: "split_frames (concat ?cs) = ([packet_bytes p], [])"
    using split_frames_packets [of "[p]" "[]"] assms(5) cs(1) by simp
  have "client_good (packet_bytes p)" using assms(5) by (auto simp: client_good_def)
  then obtain tc' where tc': "startRead handleMessage tc (map ReadBytes ?cs) = Inr tc'" "tc_data tc' = []" "tc_ok tc'"
    "m_marketAccessor tc' = packet_step ?ts p"
    using client.startRead_frames [of tc ?cs] tc fit frames client_step_packet [OF assms(5), of ?ts]
    by (auto simp: reading_def simp del: startRead.simps packet_step.simps)
  have "\<forall>k. dialogue pieces answers (Suc k) seen tc = dialogue pieces answers k (length (client_written tc)) tc'"
    using assms(3,4) tc'(1) by (simp del: startRead.simps)
  moreover have "sends om n' rs (session_accessor ?ts) (session_accessor (m_marketAccessor tc'))"
    unfolding tc'(4) using packet_reaction [OF _ assms(5), of om n ?ts rs n'] tc assms(6) by (simp add: reading_def)
  ultimately show ?thesis using tc' tc by (fastforce simp: sends_def reading_def)
qed

text \<open>A round that the client ends with one request.\<close>

lemma dialogue_request:
  assumes "reading om n tc" and "cuts pieces" and "client_written tc = ws @ [q]" and "answers q = [p]"
    and "packet_valid p" and "reaction True om n p = ([r], n')"
  obtains tc' pkt where "\<And>k. dialogue pieces answers (Suc k) (length ws) tc = dialogue pieces answers k (Suc (length ws)) tc'"
    "reading om n' tc'" "client_written tc' = ws @ [q, pkt]" "wire_decode pkt = Some r"
proof -
  have "drop (length ws) (client_written tc) = [q]" using assms(3) by simp
  from dialogue_round [where answers = answers, OF assms(1,2) this assms(4-6)] show ?thesis using assms(3) that by (fastforce simp: map_eq_Cons_conv)
qed

lemma dialogue_over: "length (client_written tc) = seen \<Longrightarrow> dialogue pieces answers k seen tc = Inr (tc, seen)"
  by (cases k) auto

section \<open>Properties\<close>


text \<open>An exchange that answers every packet as the protocol says, and a network that delivers one byte at a time.\<close>

definition answer_request :: "wire_request \<Rightarrow> server_packet list" where
  "answer_request r = (case r of
     WireEnter t ob side qty price \<Rightarrow>
       [SrvAccepted ((get_ouch_OrderAccepted (ascii CHR ''A'' # replicate 134 0))\<lparr>oa_order_token := t\<rparr>)]
   | WireReplace t u price \<Rightarrow>
       [SrvReplaced ((get_ouch_OrderReplaced (ascii CHR ''U'' # replicate 144 0))\<lparr>ord_replacement_order_token := u\<rparr>)]
   | WireCancel t \<Rightarrow> [SrvCanceled (sample_canceled\<lparr>ocn_order_token := t\<rparr>)]
   | WireHeartbeat \<Rightarrow> [])"

definition sample_exchange :: "byte list \<Rightarrow> server_packet list" where
  "sample_exchange pkt = (case wire_decode pkt of Some r \<Rightarrow> answer_request r | None \<Rightarrow> [sample_login])"

definition single_bytes :: "byte list \<Rightarrow> byte list list" where
  "single_bytes bs = map (\<lambda>b. [b]) bs"

lemma single_bytes_cuts: "cuts single_bytes"
  by (auto simp: cuts_def single_bytes_def)

lemma login_not_decoded: "pkt ! 2 = PacketType_val PacketType_LoginRequest \<Longrightarrow> wire_decode pkt = None"
  by (simp add: wire_decode_def ascii_def)

text \<open>The tokens of a decoded packet have fourteen characters.\<close>

lemma decoded_tokens:
  "wire_decode pkt = Some (WireEnter t ob side qty price) \<Longrightarrow> length t = 14"
  "wire_decode pkt = Some (WireReplace t u price) \<Longrightarrow> length u = 14"
  "wire_decode pkt = Some (WireCancel t) \<Longrightarrow> length t = 14"
  by (auto simp: wire_decode_def decode_enter_def decode_replace_def layout split: if_splits)

lemma sample_exchange_protocol: "follows_protocol sample_exchange"
  using decoded_tokens login_not_decoded sample_login_valid(1)
  by (auto simp: follows_protocol_def sample_exchange_def answer_request_def sample_login_def sample_canceled_def layout get8_def
      simp del: packet_bytes.simps)


end
