(* ===== verification/Send_Race.thy ===== *)
theory Send_Race
  imports Session_Tokens
begin

text \<open>
  Requests of two threads on one session object.  The application calls \<^verbatim>\<open>sendEnterOrder\<close>, \<^verbatim>\<open>sendReplaceOrder\<close> and
  \<^verbatim>\<open>sendCancelOrder\<close> of \<^verbatim>\<open>src/lib/client/order_entry_client.cpp\<close> while the thread that runs \<^verbatim>\<open>TcpClient::startRead\<close>
  calls them too, in reaction to responses.  Neither the token generator nor the prepared packets are protected.
  The statements of the three functions and the loop of \<^verbatim>\<open>OrderManager::nextToken\<close> are the steps of the two threads;
  the lemmas show which pairs of requests still behave as one after the other, and what the other pairs can do.
\<close>

section \<open>Statements\<close>

datatype send_stmt =
    InitCarry
  | NextDigit nat
  | TakeToken
  | EnterToken
  | EnterOrderbook u32
  | EnterSide byte
  | EnterQuantity u32
  | EnterPrice i32
  | WriteEnter
  | PendingReplace order_token
  | ReplaceExisting order_token
  | ReplaceToken
  | ReplacePrice i32
  | WriteReplace
  | CancelToken order_token
  | WriteCancel
  | SendLogin

text \<open>The local variables of a call: the carry of the digit loop and the token it returned.\<close>

record send_locals =
  local_carry :: int
  local_token :: order_token

definition enter_refill :: "(ouch_EnterOrder \<Rightarrow> ouch_EnterOrder) \<Rightarrow> byte list \<Rightarrow> byte list" where
  "enter_refill f buf = copy_to buf 3 (put_ouch_EnterOrder (f (get_ouch_EnterOrder (drop 3 buf))))"

definition replace_refill :: "(ouch_ReplaceOrder \<Rightarrow> ouch_ReplaceOrder) \<Rightarrow> byte list \<Rightarrow> byte list" where
  "replace_refill f buf = copy_to buf 3 (put_ouch_ReplaceOrder (f (get_ouch_ReplaceOrder (drop 3 buf))))"

definition cancel_refill :: "(ouch_CancelOrder \<Rightarrow> ouch_CancelOrder) \<Rightarrow> byte list \<Rightarrow> byte list" where
  "cancel_refill f buf = copy_to buf 3 (put_ouch_CancelOrder (f (get_ouch_CancelOrder (drop 3 buf))))"

abbreviation on_enter_buffer :: "(ouch_EnterOrder \<Rightarrow> ouch_EnterOrder) \<Rightarrow> BistMarketAccessor \<Rightarrow> BistMarketAccessor" where
  "on_enter_buffer f acc \<equiv> acc\<lparr>m_enterOrderByteArray := enter_refill f (m_enterOrderByteArray acc)\<rparr>"

abbreviation on_replace_buffer :: "(ouch_ReplaceOrder \<Rightarrow> ouch_ReplaceOrder) \<Rightarrow> BistMarketAccessor \<Rightarrow> BistMarketAccessor" where
  "on_replace_buffer f acc \<equiv> acc\<lparr>m_replaceOrderByteArray := replace_refill f (m_replaceOrderByteArray acc)\<rparr>"

abbreviation on_cancel_buffer :: "(ouch_CancelOrder \<Rightarrow> ouch_CancelOrder) \<Rightarrow> BistMarketAccessor \<Rightarrow> BistMarketAccessor" where
  "on_cancel_buffer f acc \<equiv> acc\<lparr>m_cancelOrderByteArray := cancel_refill f (m_cancelOrderByteArray acc)\<rparr>"

abbreviation on_manager :: "(OrderManager \<Rightarrow> OrderManager) \<Rightarrow> BistMarketAccessor \<Rightarrow> BistMarketAccessor" where
  "on_manager f acc \<equiv> acc\<lparr>m_orderManager := f (m_orderManager acc)\<rparr>"

text \<open>One pass of the digit loop.\<close>

definition next_digit_step :: "nat \<Rightarrow> int \<Rightarrow> order_token \<Rightarrow> order_token \<times> int" where
  "next_digit_step i carry tk =
     (tk[i := of_int (48 + (sint (tk ! i) - 48 + carry) smod 10)], if tk ! i = ascii CHR ''9'' then 1 else 0)"

fun send_step :: "send_stmt \<Rightarrow> BistMarketAccessor \<times> send_locals \<Rightarrow> BistMarketAccessor \<times> send_locals" where
  "send_step InitCarry (acc, l) = (acc, l\<lparr>local_carry := 1\<rparr>)"
| "send_step (NextDigit i) (acc, l) =
     (let (tk, carry) = next_digit_step i (local_carry l) (m_token (m_orderManager acc))
      in (on_manager (\<lambda>om. om\<lparr>m_token := tk\<rparr>) acc, l\<lparr>local_carry := carry\<rparr>))"
| "send_step TakeToken (acc, l) = (acc, l\<lparr>local_token := m_token (m_orderManager acc)\<rparr>)"
| "send_step EnterToken (acc, l) = (on_enter_buffer (\<lambda>m. m\<lparr>eo_order_token := local_token l\<rparr>) acc, l)"
| "send_step (EnterOrderbook ob) (acc, l) = (on_enter_buffer (\<lambda>m. m\<lparr>eo_orderbook_id := be32toh ob\<rparr>) acc, l)"
| "send_step (EnterSide side) (acc, l) = (on_enter_buffer (\<lambda>m. m\<lparr>eo_side := side\<rparr>) acc, l)"
| "send_step (EnterQuantity qty) (acc, l) = (on_enter_buffer (\<lambda>m. m\<lparr>eo_quantity := be64toh (ucast qty)\<rparr>) acc, l)"
| "send_step (EnterPrice price) (acc, l) = (on_enter_buffer (\<lambda>m. m\<lparr>eo_price := be32toh (of_int price)\<rparr>) acc, l)"
| "send_step WriteEnter (acc, l) = (tcp_write acc (m_enterOrderByteArray acc), l)"
| "send_step (PendingReplace orig) (acc, l) = (on_manager (\<lambda>om. pendingReplace om orig (local_token l)) acc, l)"
| "send_step (ReplaceExisting orig) (acc, l) = (on_replace_buffer (\<lambda>m. m\<lparr>ro_existing_order_token := orig\<rparr>) acc, l)"
| "send_step ReplaceToken (acc, l) = (on_replace_buffer (\<lambda>m. m\<lparr>ro_replacement_order_token := local_token l\<rparr>) acc, l)"
| "send_step (ReplacePrice price) (acc, l) = (on_replace_buffer (\<lambda>m. m\<lparr>ro_price := be32toh (of_int price)\<rparr>) acc, l)"
| "send_step WriteReplace (acc, l) = (tcp_write acc (m_replaceOrderByteArray acc), l)"
| "send_step (CancelToken orig) (acc, l) = (on_cancel_buffer (\<lambda>m. m\<lparr>co_order_token := orig\<rparr>) acc, l)"
| "send_step WriteCancel (acc, l) = (tcp_write acc (m_cancelOrderByteArray acc), l)"
| "send_step SendLogin (acc, l) = (login acc, l)"

text \<open>The calls as sequences of statements; the last one writes the packet.\<close>

definition draw_stmts :: "send_stmt list" where
  "draw_stmts = InitCarry # map NextDigit (rev [0..<14])"

fun fill_stmts :: "bma_request \<Rightarrow> send_stmt list" where
  "fill_stmts ReqLogin = []"
| "fill_stmts (ReqEnter ob side qty price) =
     [EnterToken, EnterOrderbook ob, EnterSide side, EnterQuantity qty, EnterPrice price]"
| "fill_stmts (ReqReplace orig price) = [PendingReplace orig, ReplaceExisting orig, ReplaceToken, ReplacePrice price]"
| "fill_stmts (ReqCancel orig) = [CancelToken orig]"

fun write_stmt :: "bma_request \<Rightarrow> send_stmt" where
  "write_stmt ReqLogin = SendLogin"
| "write_stmt (ReqEnter ob side qty price) = WriteEnter"
| "write_stmt (ReqReplace orig price) = WriteReplace"
| "write_stmt (ReqCancel orig) = WriteCancel"

fun draws_token :: "bma_request \<Rightarrow> bool" where
  "draws_token (ReqEnter ob side qty price) = True"
| "draws_token (ReqReplace orig price) = True"
| "draws_token _ = False"

definition send_body :: "bma_request \<Rightarrow> send_stmt list" where
  "send_body r = (if draws_token r then draw_stmts @ [TakeToken] else []) @ fill_stmts r"

definition send_stmts :: "bma_request \<Rightarrow> send_stmt list" where
  "send_stmts r = send_body r @ [write_stmt r]"

section \<open>Two threads\<close>

datatype sender = Application | Reader

type_synonym send_state = "BistMarketAccessor \<times> (sender \<Rightarrow> send_locals)"

fun sender_step :: "sender \<times> send_stmt \<Rightarrow> send_state \<Rightarrow> send_state" where
  "sender_step (t, m) (acc, ls) = (case send_step m (acc, ls t) of (acc', l) \<Rightarrow> (acc', ls(t := l)))"

abbreviation by_thread :: "sender \<Rightarrow> send_stmt list \<Rightarrow> (sender \<times> send_stmt) list" where
  "by_thread t \<equiv> map (Pair t)"

abbreviation send_run :: "(sender \<times> send_stmt) list \<Rightarrow> send_state \<Rightarrow> send_state" where
  "send_run \<equiv> fold sender_step"

text \<open>The executions of two requests, one of each thread: their statements interleaved.\<close>

definition interleavings :: "bma_request \<Rightarrow> bma_request \<Rightarrow> (sender \<times> send_stmt) list set" where
  "interleavings r1 r2 = shuffles (by_thread Application (send_stmts r1)) (by_thread Reader (send_stmts r2))"

section \<open>Interleavings of independent steps\<close>

lemma Cons_in_shufflesE:
  assumes "z # zs \<in> shuffles xs ys"
  obtains (left) us where "xs = z # us" "zs \<in> shuffles us ys" | (right) us where "ys = z # us" "zs \<in> shuffles xs us"
  using assms by (cases xs; cases ys) (auto simp: Cons_in_shuffles_iff)

lemma shuffles_last:
  assumes "zs \<in> shuffles (xs @ [x]) (ys @ [y])"
  shows "(\<exists>zs' \<in> shuffles (xs @ [x]) ys. zs = zs' @ [y]) \<or> (\<exists>zs' \<in> shuffles xs (ys @ [y]). zs = zs' @ [x])"
  using assms
proof (induction zs arbitrary: xs ys)
  case (Cons z zs)
  from Cons.prems show ?case
  proof (cases rule: Cons_in_shufflesE)
    case left
    show ?thesis
    proof (cases xs)
      case Nil
      with left show ?thesis by (auto intro!: bexI [of _ "z # ys"] Cons_in_shuffles_leftI)
    next
      case (Cons x' xs')
      with left Cons.IH [of xs' ys] show ?thesis by (fastforce simp: Cons_in_shuffles_iff)
    qed
  next
    case right
    show ?thesis
    proof (cases ys)
      case Nil
      with right show ?thesis by (auto intro!: bexI [of _ "z # xs @ []"] Cons_in_shuffles_rightI)
    next
      case (Cons y' ys')
      with right Cons.IH [of xs ys'] show ?thesis by (fastforce simp: Cons_in_shuffles_iff)
    qed
  qed
qed auto

lemma append_in_shuffles:
  "zs \<in> shuffles xs ys \<Longrightarrow> zs' \<in> shuffles xs' ys' \<Longrightarrow> zs @ zs' \<in> shuffles (xs @ xs') (ys @ ys')"
proof (induction zs arbitrary: xs ys)
  case (Cons z zs)
  from Cons.prems(1) show ?case
    by (cases rule: Cons_in_shufflesE)
      (use Cons.IH Cons.prems(2) in \<open>auto intro: Cons_in_shuffles_leftI Cons_in_shuffles_rightI\<close>)
qed auto

text \<open>
  Steps that commute may be reordered.  When everything in two programs commutes except their last steps, each
  interleaving is one program after the other.
\<close>

locale commuting_steps =
  fixes step :: "'a \<Rightarrow> 's \<Rightarrow> 's" and indep :: "'a \<Rightarrow> 'a \<Rightarrow> bool"
  assumes commute: "indep a b \<Longrightarrow> step a (step b s) = step b (step a s)"
begin

lemma move_back:
  "\<forall>x \<in> set xs. indep y x \<Longrightarrow> fold step xs (step y s) = step y (fold step xs s)"
proof (induction xs arbitrary: s)
  case (Cons x xs)
  then have "step x (step y s) = step y (step x s)" using commute [of y x s] by simp
  then show ?case using Cons by simp
qed simp

lemma shuffle_independent:
  "zs \<in> shuffles xs ys \<Longrightarrow> \<forall>x \<in> set xs. \<forall>y \<in> set ys. indep y x \<Longrightarrow>
   fold step zs s = fold step ys (fold step xs s)"
proof (induction zs arbitrary: xs ys s)
  case (Cons z zs)
  from Cons.prems(1) show ?case
  proof (cases rule: Cons_in_shufflesE)
    case left
    with Cons.IH [OF left(2), of "step z s"] Cons.prems(2) show ?thesis by simp
  next
    case right
    with Cons.IH [OF right(2), of "step z s"] Cons.prems(2) move_back [of xs z s] show ?thesis by simp
  qed
qed simp

lemma shuffle_serial:
  assumes "zs \<in> shuffles (xs @ [x]) (ys @ [y])"
    and "\<forall>a \<in> set (xs @ [x]). \<forall>b \<in> set ys. indep b a" and "\<forall>a \<in> set xs. \<forall>b \<in> set (ys @ [y]). indep a b"
  shows "fold step zs s = fold step ((xs @ [x]) @ (ys @ [y])) s \<or> fold step zs s = fold step ((ys @ [y]) @ (xs @ [x])) s"
  using shuffles_last [OF assms(1)]
proof (elim disjE bexE)
  fix zs' assume "zs' \<in> shuffles (xs @ [x]) ys" "zs = zs' @ [y]"
  then show ?thesis using shuffle_independent [of zs' "xs @ [x]" ys s] assms(2) by simp
next
  fix zs' assume "zs' \<in> shuffles xs (ys @ [y])" "zs = zs' @ [x]"
  then show ?thesis using shuffle_independent [of zs' "ys @ [y]" xs s] assms(3) by (simp add: shuffles_commutes)
qed

end

section \<open>What the statements touch\<close>

datatype send_cell = TokenCell | PendingCell | EnterCell | ReplaceCell | CancelCell | WireCell

fun cells :: "send_stmt \<Rightarrow> send_cell set" where
  "cells InitCarry = {}"
| "cells (NextDigit i) = {TokenCell}"
| "cells TakeToken = {TokenCell}"
| "cells WriteEnter = {EnterCell, WireCell}"
| "cells (PendingReplace orig) = {PendingCell}"
| "cells (ReplaceExisting orig) = {ReplaceCell}"
| "cells ReplaceToken = {ReplaceCell}"
| "cells (ReplacePrice price) = {ReplaceCell}"
| "cells WriteReplace = {ReplaceCell, WireCell}"
| "cells (CancelToken orig) = {CancelCell}"
| "cells WriteCancel = {CancelCell, WireCell}"
| "cells SendLogin = {WireCell}"
| "cells _ = {EnterCell}"

fun independent_stmts :: "sender \<times> send_stmt \<Rightarrow> sender \<times> send_stmt \<Rightarrow> bool" where
  "independent_stmts (t, m) (u, m') \<longleftrightarrow> t \<noteq> u \<and> cells m \<inter> cells m' = {}"

lemma login_touch:
  "\<exists>f. \<forall>acc. login acc = acc\<lparr>tcp_written := tcp_written acc @ [f (partition_username acc) (partition_password acc)
     (bma_sessionName acc) (m_sequenceNumber acc)]\<rparr>"
  unfolding login_def tcp_write_def Let_def
  by (rule exI [of _ "\<lambda>u p s n. put_soup_LoginRequest \<lparr>lr_packetLength = be16toh (of_nat LOGIN_REQUEST_PACKET_LENGTH),
      lr_packetType = PacketType_val PacketType_LoginRequest, lr_username = toPaddedArray USERNAME_LENGTH u,
      lr_password = toPaddedArray PASSWORD_LENGTH p, lr_sessionName = toPaddedArray SESSION_NAME_LENGTH s,
      lr_sequenceNumber = toPaddedArray REQUESTED_SEQUENCE_NUMBER_LENGTH (to_string (unat (n + 1)))\<rparr>"]) simp

lemma stmts_commute:
  assumes "cells m \<inter> cells m' = {}" and "t \<noteq> u"
  shows "sender_step (t, m) (sender_step (u, m') (acc, ls)) = sender_step (u, m') (sender_step (t, m) (acc, ls))"
proof -
  obtain f where f: "login = (\<lambda>acc. acc\<lparr>tcp_written := tcp_written acc @ [f (partition_username acc) (partition_password acc)
     (bma_sessionName acc) (m_sequenceNumber acc)]\<rparr>)"
    using login_touch by blast
  have ls: "(ls(t := x))(u := y) = (ls(u := y))(t := x)" "(ls(u := y))(t := ls t) = ls(u := y)" for x y
    using assms(2) by (auto simp: fun_eq_iff)
  show ?thesis
    using assms(1)
    by (induct m; induct m') (simp_all add: assms(2) assms(2) [symmetric] ls f tcp_write_def pendingReplace_def Let_def case_prod_beta)
qed

lemma independent_commute:
  "independent_stmts a b \<Longrightarrow> sender_step a (sender_step b s) = sender_step b (sender_step a s)"
  by (cases a; cases b; cases s) (auto intro!: stmts_commute simp del: sender_step.simps)

interpretation senders: commuting_steps sender_step independent_stmts
  by unfold_locales (rule independent_commute)

section \<open>A thread alone\<close>

lemma run_thread:
  "send_run (by_thread t ms) (acc, ls) = (case fold send_step ms (acc, ls t) of (acc', l) \<Rightarrow> (acc', ls(t := l)))"
proof (induction ms arbitrary: acc ls)
  case (Cons m ms)
  obtain acc' l where "send_step m (acc, ls t) = (acc', l)" by fastforce
  then show ?case using Cons.IH [of acc' "ls(t := l)"] by (simp add: case_prod_beta fun_upd_same del: fun_upd_apply)
qed (simp del: fun_upd_apply)

lemma digits_run:
  "\<exists>c. fold send_step (map NextDigit (rev [0..<n])) (acc, l) =
     (on_manager (\<lambda>om. om\<lparr>m_token := nextToken_loop n (local_carry l) (m_token om)\<rparr>) acc, l\<lparr>local_carry := c\<rparr>)"
proof (induction n arbitrary: acc l)
  case 0
  show ?case by (rule exI [of _ "local_carry l"]) simp
next
  case (Suc n)
  obtain tk c where d: "next_digit_step n (local_carry l) (m_token (m_orderManager acc)) = (tk, c)" by fastforce
  from Suc [of "on_manager (\<lambda>om. om\<lparr>m_token := tk\<rparr>) acc" "l\<lparr>local_carry := c\<rparr>"] show ?case
    using d by (auto simp: next_digit_step_def Let_def)
qed

lemma draw_run:
  "\<exists>c. fold send_step draw_stmts (acc, l) = (on_manager (\<lambda>om. fst (nextToken om)) acc, l\<lparr>local_carry := c\<rparr>)"
  using digits_run [of 14 acc "l\<lparr>local_carry := 1\<rparr>"] by (auto simp: draw_stmts_def nextToken_def Let_def)

lemma enter_refill_message:
  assumes "valid_ouch_EnterOrder m" and "valid_ouch_EnterOrder (f m)"
  shows "enter_refill f (soup_hdr 114 @ put_ouch_EnterOrder m) = soup_hdr 114 @ put_ouch_EnterOrder (f m)"
  unfolding enter_refill_def using assms by (rule enter_buffer.refill)

lemma replace_refill_message:
  assumes "valid_ouch_ReplaceOrder m" and "valid_ouch_ReplaceOrder (f m)"
  shows "replace_refill f (soup_hdr 122 @ put_ouch_ReplaceOrder m) = soup_hdr 122 @ put_ouch_ReplaceOrder (f m)"
  unfolding replace_refill_def using assms by (rule replace_buffer.refill)

lemmas array_lengths = ORDER_TOKEN_LENGTH_def CLIENT_ACCOUNT_LENGTH_def CUSTOMER_INFO_LENGTH_def EXCHANGE_INFO_LENGTH_def

text \<open>Filling in the fields one after the other is filling them in at once.\<close>

lemma enter_refill_chain:
  assumes "enter_ready exch buf" and "length exch \<le> 32" and "length tk = 14"
  shows "enter_refill (\<lambda>m. m\<lparr>eo_price := p\<rparr>) (enter_refill (\<lambda>m. m\<lparr>eo_quantity := q\<rparr>)
      (enter_refill (\<lambda>m. m\<lparr>eo_side := sd\<rparr>) (enter_refill (\<lambda>m. m\<lparr>eo_orderbook_id := ob\<rparr>)
        (enter_refill (\<lambda>m. m\<lparr>eo_order_token := tk\<rparr>) buf)))) =
    enter_refill (\<lambda>m. m\<lparr>eo_order_token := tk, eo_orderbook_id := ob, eo_side := sd, eo_quantity := q, eo_price := p\<rparr>) buf"
proof -
  from assms(1) obtain t ob' sd' q' p' where "length t = 14"
    "buf = soup_hdr 114 @ put_ouch_EnterOrder (enter_message exch t ob' sd' q' p')"
    by (auto simp: enter_ready_def)
  then show ?thesis using assms(2,3) by (simp add: enter_refill_message enter_message_def valid_ouch_EnterOrder_def array_lengths)
qed

lemma replace_refill_chain:
  assumes "replace_ready buf" and "length orig = 14" and "length tk = 14"
  shows "replace_refill (\<lambda>m. m\<lparr>ro_price := p\<rparr>) (replace_refill (\<lambda>m. m\<lparr>ro_replacement_order_token := tk\<rparr>)
      (replace_refill (\<lambda>m. m\<lparr>ro_existing_order_token := orig\<rparr>) buf)) =
    replace_refill (\<lambda>m. m\<lparr>ro_existing_order_token := orig, ro_replacement_order_token := tk, ro_price := p\<rparr>) buf"
proof -
  from assms(1) obtain t u p' where "length t = 14" "length u = 14"
    "buf = soup_hdr 122 @ put_ouch_ReplaceOrder (replace_message t u p')"
    by (auto simp: replace_ready_def)
  then show ?thesis using assms(2,3) by (simp add: replace_refill_message replace_message_def valid_ouch_ReplaceOrder_def array_lengths)
qed

lemma send_refill:
  "sendEnterOrder acc ob sd q p = (let acc' = on_enter_buffer (\<lambda>m. m\<lparr>eo_order_token := snd (nextToken (m_orderManager acc)),
       eo_orderbook_id := be32toh ob, eo_side := sd, eo_quantity := be64toh (ucast q), eo_price := be32toh (of_int p)\<rparr>)
         (on_manager (\<lambda>om. fst (nextToken om)) acc)
     in tcp_write acc' (m_enterOrderByteArray acc'))"
  "sendReplaceOrder acc orig p = (let acc' = on_replace_buffer (\<lambda>m. m\<lparr>ro_existing_order_token := orig,
       ro_replacement_order_token := snd (nextToken (m_orderManager acc)), ro_price := be32toh (of_int p)\<rparr>)
         (on_manager (\<lambda>om. pendingReplace (fst (nextToken om)) orig (snd (nextToken om))) acc)
     in tcp_write acc' (m_replaceOrderByteArray acc'))"
  "sendCancelOrder acc orig = (let acc' = on_cancel_buffer (\<lambda>m. m\<lparr>co_order_token := orig\<rparr>) acc
     in tcp_write acc' (m_cancelOrderByteArray acc'))"
  by (simp_all add: sendEnterOrder_def sendReplaceOrder_def sendCancelOrder_def enter_refill_def replace_refill_def
      cancel_refill_def Let_def split: prod.split)

lemma stmts_run:
  assumes "acc_ok acc" and "request_ok r"
  shows "fst (fold send_step (send_stmts r) (acc, l)) = bma_step acc r"
proof -
  let ?om = "m_orderManager acc"
  obtain c where draw: "fold send_step draw_stmts (acc, l) = (on_manager (\<lambda>om. fst (nextToken om)) acc, l\<lparr>local_carry := c\<rparr>)"
    using draw_run by blast
  have tk: "m_token (fst (nextToken ?om)) = snd (nextToken ?om)" by (simp add: nextToken_def Let_def)
  have ok: "length (snd (nextToken ?om)) = 14" "length (m_exchangeInfo acc) \<le> 32"
    "enter_ready (m_exchangeInfo acc) (m_enterOrderByteArray acc)" "replace_ready (m_replaceOrderByteArray acc)"
    using assms(1) length_nextToken by (auto simp: acc_ok_def)
  show ?thesis
  proof (cases r)
    case (ReqEnter ob sd q p)
    then show ?thesis
      using ok by (simp add: send_stmts_def send_body_def draw tk send_refill(1) enter_refill_chain Let_def)
  next
    case (ReqReplace orig p)
    then show ?thesis
      using ok assms(2) by (simp add: send_stmts_def send_body_def draw tk send_refill(2) replace_refill_chain Let_def)
  qed (simp_all add: send_stmts_def send_body_def send_refill(3) Let_def)
qed

lemma thread_run:
  "acc_ok acc \<Longrightarrow> request_ok r \<Longrightarrow> fst (send_run (by_thread t (send_stmts r)) (acc, ls)) = bma_step acc r"
  using stmts_run [of acc r "ls t"] by (simp add: run_thread case_prod_beta)

section \<open>Conflicts\<close>

text \<open>Two requests conflict when both take a token, or both fill in the cancel packet.\<close>

fun conflicting :: "bma_request \<Rightarrow> bma_request \<Rightarrow> bool" where
  "conflicting (ReqCancel t) (ReqCancel u) = True"
| "conflicting r1 r2 = (draws_token r1 \<and> draws_token r2)"

definition body_cells :: "bma_request \<Rightarrow> send_cell set" where
  "body_cells r = (\<Union>m \<in> set (send_body r). cells m)"

lemma body_cells:
  "body_cells ReqLogin = {}" "body_cells (ReqEnter ob sd q p) = {TokenCell, EnterCell}"
  "body_cells (ReqReplace orig p) = {TokenCell, PendingCell, ReplaceCell}" "body_cells (ReqCancel orig) = {CancelCell}"
  by (auto simp: body_cells_def send_body_def draw_stmts_def)

lemma body_cells_disjoint:
  assumes "\<not> conflicting r1 r2"
  shows "body_cells r1 \<inter> (body_cells r2 \<union> cells (write_stmt r2)) = {}"
    and "body_cells r2 \<inter> (body_cells r1 \<union> cells (write_stmt r1)) = {}"
  using assms by (cases r1; cases r2; auto simp: body_cells)+

lemma body_independent:
  "body_cells r1 \<inter> (body_cells r2 \<union> cells (write_stmt r2)) = {} \<Longrightarrow> t \<noteq> u \<Longrightarrow>
   \<forall>a \<in> set (by_thread t (send_body r1)). \<forall>b \<in> set (by_thread u (send_stmts r2)). independent_stmts a b"
  by (fastforce simp: body_cells_def send_stmts_def)

lemma independent_serialize:
  assumes "\<not> conflicting r1 r2" and "zs \<in> interleavings r1 r2"
  shows "send_run zs s = send_run (by_thread Reader (send_stmts r2)) (send_run (by_thread Application (send_stmts r1)) s) \<or>
    send_run zs s = send_run (by_thread Application (send_stmts r1)) (send_run (by_thread Reader (send_stmts r2)) s)"
proof -
  let ?a = "by_thread Application" and ?b = "by_thread Reader"
  have prog: "?a (send_stmts r1) = ?a (send_body r1) @ [(Application, write_stmt r1)]"
    "?b (send_stmts r2) = ?b (send_body r2) @ [(Reader, write_stmt r2)]"
    by (simp_all add: send_stmts_def)
  have "\<forall>a \<in> set (?a (send_body r1)). \<forall>b \<in> set (?b (send_stmts r2)). independent_stmts a b"
    "\<forall>b \<in> set (?b (send_body r2)). \<forall>a \<in> set (?a (send_stmts r1)). independent_stmts b a"
    by (rule body_independent, rule body_cells_disjoint [OF assms(1)], simp)+
  then show ?thesis
    using senders.shuffle_serial [of zs "?a (send_body r1)" "(Application, write_stmt r1)" "?b (send_body r2)"
        "(Reader, write_stmt r2)" s] assms(2)
    unfolding interleavings_def prog by (simp only: fold_append comp_apply) blast
qed

text \<open>What a call does once it holds its token.\<close>

lemma fill_run:
  assumes "acc_ok acc" and "request_ok r" and "draws_token r" and "length (local_token l) = 14"
  shows "\<exists>acc' pkt. fold send_step (fill_stmts r @ [write_stmt r]) (acc, l) = (acc', l) \<and> acc_ok acc' \<and>
    tcp_written acc' = tcp_written acc @ [pkt] \<and> sent_token pkt = Some (local_token l)"
proof -
  let ?exch = "m_exchangeInfo acc" and ?tk = "local_token l"
  have exch: "length ?exch \<le> 32" "enter_ready ?exch (m_enterOrderByteArray acc)" "replace_ready (m_replaceOrderByteArray acc)"
    using assms(1) by (auto simp: acc_ok_def)
  from assms(3) show ?thesis
  proof (cases r rule: draws_token.cases)
    case (1 ob sd q p)
    let ?pkt = "soup_hdr 114 @ put_ouch_EnterOrder
      (enter_message ?exch ?tk (be32toh ob) sd (be64toh (ucast q)) (be32toh (of_int p)))"
    have "enter_refill (\<lambda>m. m\<lparr>eo_order_token := ?tk, eo_orderbook_id := be32toh ob, eo_side := sd,
        eo_quantity := be64toh (ucast q), eo_price := be32toh (of_int p)\<rparr>) (m_enterOrderByteArray acc) = ?pkt"
      using exch(1,2) assms(4) by (auto simp: enter_ready_def enter_refill_message enter_message_def valid_ouch_EnterOrder_def array_lengths)
    then have "fold send_step (fill_stmts r @ [write_stmt r]) (acc, l) =
        (tcp_write (acc\<lparr>m_enterOrderByteArray := ?pkt\<rparr>) ?pkt, l)"
      using enter_refill_chain [OF exch(2,1) assms(4)] 1 by simp
    then show ?thesis
      using assms(1,4) sent_token_enter [OF exch(1) assms(4)] by (auto simp: acc_ok_def tcp_write_def)
  next
    case (2 orig p)
    let ?pkt = "soup_hdr 122 @ put_ouch_ReplaceOrder (replace_message orig ?tk (be32toh (of_int p)))"
    have orig: "length orig = 14" using 2 assms(2) by simp
    have "replace_refill (\<lambda>m. m\<lparr>ro_existing_order_token := orig, ro_replacement_order_token := ?tk,
        ro_price := be32toh (of_int p)\<rparr>) (m_replaceOrderByteArray acc) = ?pkt"
      using exch(3) orig assms(4)
      by (auto simp: replace_ready_def replace_refill_message replace_message_def valid_ouch_ReplaceOrder_def array_lengths)
    then have "fold send_step (fill_stmts r @ [write_stmt r]) (acc, l) =
        (tcp_write (on_manager (\<lambda>om. pendingReplace om orig ?tk) acc\<lparr>m_replaceOrderByteArray := ?pkt\<rparr>) ?pkt, l)"
      using replace_refill_chain [OF exch(3) orig assms(4)] 2 by simp
    then show ?thesis
      using assms(1,4) orig sent_token_replace [OF orig assms(4)] by (auto simp: acc_ok_def tcp_write_def)
  qed simp_all
qed

lemma acc_ok_draw: "acc_ok acc \<Longrightarrow> acc_ok (on_manager (\<lambda>om. fst (nextToken om)) acc)"
  using length_nextToken by (auto simp: acc_ok_def)

text \<open>Both threads run the generator, then both copy its token.\<close>

definition token_race :: "bma_request \<Rightarrow> bma_request \<Rightarrow> (sender \<times> send_stmt) list" where
  "token_race r1 r2 = by_thread Application draw_stmts @ by_thread Reader draw_stmts @
     [(Application, TakeToken), (Reader, TakeToken)] @
     by_thread Application (fill_stmts r1 @ [write_stmt r1]) @ by_thread Reader (fill_stmts r2 @ [write_stmt r2])"

lemma append_self_shuffles: "xs @ ys \<in> shuffles xs ys"
  using append_in_shuffles [of xs xs "[]" ys "[]" ys] by simp

lemma token_race_interleaving:
  assumes "draws_token r1" and "draws_token r2"
  shows "token_race r1 r2 \<in> interleavings r1 r2"
proof -
  let ?a = "by_thread Application" and ?b = "by_thread Reader"
  have "(?a draw_stmts @ ?b draw_stmts) @ ([(Application, TakeToken)] @ [(Reader, TakeToken)]) @
      (?a (fill_stmts r1 @ [write_stmt r1]) @ ?b (fill_stmts r2 @ [write_stmt r2])) \<in>
    shuffles (?a draw_stmts @ [(Application, TakeToken)] @ ?a (fill_stmts r1 @ [write_stmt r1]))
      (?b draw_stmts @ [(Reader, TakeToken)] @ ?b (fill_stmts r2 @ [write_stmt r2]))"
    by (intro append_in_shuffles append_self_shuffles)
  then show ?thesis using assms by (simp add: token_race_def interleavings_def send_stmts_def send_body_def)
qed

lemma token_race_run:
  assumes "acc_ok acc" and "request_ok r1" and "request_ok r2" and "draws_token r1" and "draws_token r2"
  shows "\<exists>p1 p2 t. tcp_written (fst (send_run (token_race r1 r2) (acc, ls))) = tcp_written acc @ [p1, p2] \<and>
    t = token_after 2 (m_orderManager acc) \<and> sent_token p1 = Some t \<and> sent_token p2 = Some t"
proof -
  let ?d = "\<lambda>acc. on_manager (\<lambda>om. fst (nextToken om)) acc" and ?t = "token_after 2 (m_orderManager acc)"
  obtain c1 c2 where draw: "fold send_step draw_stmts (acc, ls Application) = (?d acc, (ls Application)\<lparr>local_carry := c1\<rparr>)"
    "fold send_step draw_stmts (?d acc, ls Reader) = (?d (?d acc), (ls Reader)\<lparr>local_carry := c2\<rparr>)"
    using draw_run by meson
  let ?l1 = "\<lparr>local_carry = c1, local_token = ?t\<rparr>" and ?l2 = "\<lparr>local_carry = c2, local_token = ?t\<rparr>"
  have t: "m_token (fst (nextToken (fst (nextToken (m_orderManager acc))))) = ?t"
    by (simp add: token_after_def numeral_2_eq_2)
  have len: "length ?t = 14" using token_after_digits assms(1) by (auto simp: acc_ok_def digit_token_def)
  have ok: "acc_ok (?d (?d acc))" by (intro acc_ok_draw assms(1))
  obtain a1 p1 where f1: "fold send_step (fill_stmts r1 @ [write_stmt r1]) (?d (?d acc), ?l1) = (a1, ?l1)" "acc_ok a1"
    "tcp_written a1 = tcp_written acc @ [p1]" "sent_token p1 = Some ?t"
    using fill_run [OF ok assms(2,4), of ?l1] len by auto
  obtain a2 p2 where f2: "fold send_step (fill_stmts r2 @ [write_stmt r2]) (a1, ?l2) = (a2, ?l2)"
    "tcp_written a2 = tcp_written a1 @ [p2]" "sent_token p2 = Some ?t"
    using fill_run [OF f1(2) assms(3,5), of ?l2] len by auto
  define w where "w r = fill_stmts r @ [write_stmt r]" for r
  have "fst (send_run (token_race r1 r2) (acc, ls)) = a2"
    using draw f1(1) f2(1) t unfolding token_race_def w_def [symmetric]
    by (cases "ls Application"; cases "ls Reader") (simp add: run_thread)
  then show ?thesis using f1 f2 by auto
qed

lemma fresh_accessor: "\<exists>acc. BistMarketAccessor_ctor [] [] False [] 0 = Inr acc \<and> acc_ok acc \<and> tcp_written acc = []"
  using BistMarketAccessor_ctor_ok [of "[]" 0 "[]" "[]" False] by auto

section \<open>Properties\<close>



text \<open>
  C35. Two requests that take an order token from different threads can be put on the wire under the same token:
  both threads advance the generator before either copies its result.
\<close>

theorem concurrent_requests_share_token:
  assumes "acc_ok acc" and "request_ok r1" and "request_ok r2" and "draws_token r1" and "draws_token r2"
  shows "\<exists>zs \<in> interleavings r1 r2. \<exists>p1 p2 t.
    tcp_written (fst (send_run zs (acc, ls))) = tcp_written acc @ [p1, p2] \<and>
    t = token_after 2 (m_orderManager acc) \<and> sent_token p1 = Some t \<and> sent_token p2 = Some t"
  using token_race_interleaving [OF assms(4,5)] token_race_run [OF assms] by blast

text \<open>The order of the application and the replacement of an accepted order.\<close>

theorem concurrent_requests_share_token_witness:
  "\<exists>acc. BistMarketAccessor_ctor [] [] False [] 0 = Inr acc \<and>
     (\<exists>zs \<in> interleavings (ReqEnter 78436 83 10 5) (ReqReplace (replicate 14 48) 775000). \<exists>p1 p2 t.
       tcp_written (fst (send_run zs (acc, \<lambda>_. \<lparr>local_carry = 0, local_token = []\<rparr>))) = [p1, p2] \<and>
       sent_token p1 = Some t \<and> sent_token p2 = Some t)"
proof -
  obtain acc where acc: "BistMarketAccessor_ctor [] [] False [] 0 = Inr acc" "acc_ok acc" "tcp_written acc = []"
    using fresh_accessor by blast
  then show ?thesis
    using concurrent_requests_share_token [OF acc(2), of "ReqEnter 78436 83 10 5" "ReqReplace (replicate 14 48) 775000"]
    by fastforce
qed

text \<open>Of two cancel requests the first can be lost, and the order of the second cancelled twice.\<close>

theorem concurrent_cancels_collide:
  assumes "acc_ok acc" and "length t = 14" and "length u = 14"
  shows "\<exists>zs \<in> interleavings (ReqCancel t) (ReqCancel u).
    tcp_written (fst (send_run zs (acc, ls))) = tcp_written acc @ replicate 2 (soup_hdr 15 @ put_ouch_CancelOrder (cancel_message u))"
proof -
  let ?zs = "[(Application, CancelToken t), (Reader, CancelToken u), (Application, WriteCancel), (Reader, WriteCancel)]"
  obtain v where "length v = 14" "m_cancelOrderByteArray acc = soup_hdr 15 @ put_ouch_CancelOrder (cancel_message v)"
    using assms(1) by (auto simp: acc_ok_def cancel_ready_def)
  moreover have "cancel_refill (\<lambda>m. m\<lparr>co_order_token := b\<rparr>) (soup_hdr 15 @ put_ouch_CancelOrder (cancel_message a)) =
      soup_hdr 15 @ put_ouch_CancelOrder (cancel_message b)" if "length a = 14" "length b = 14" for a b
    using cancel_buffer.refill [of "cancel_message a" "\<lambda>m. m\<lparr>co_order_token := b\<rparr>"] that
    by (simp add: cancel_refill_def cancel_message_def valid_ouch_CancelOrder_def array_lengths)
  moreover have "?zs \<in> interleavings (ReqCancel t) (ReqCancel u)"
    by (simp add: interleavings_def send_stmts_def send_body_def Cons_in_shuffles_iff)
  ultimately show ?thesis using assms(2,3) by (intro bexI [of _ ?zs]) (simp_all add: tcp_write_def numeral_2_eq_2)
qed

end
