(* ===== verification/Socket_Reads.thy ===== *)
theory Socket_Reads
  imports Tcp_Client
begin

text \<open>
  \<^verbatim>\<open>TcpSocket::read\<close> and \<^verbatim>\<open>TcpClientConnection::read\<close>: what one call of \<^verbatim>\<open>::read\<close> asks of the kernel and what becomes of
  the buffer.  With them the reading thread of the client is run against the stream of bytes the exchange has
  sent on a connection that stays open, to see when it stops on its own.
\<close>

section \<open>One read\<close>

text \<open>The kernel is an argument: what it delivers when it is asked for a number of bytes.\<close>

definition TcpSocket_read :: "(nat \<Rightarrow> read_result) \<Rightarrow> byte list \<Rightarrow> nat \<Rightarrow> int \<times> byte list \<times> nat" where
  "TcpSocket_read sys_read buffer offset =
     (case sys_read (length buffer - offset) of
        ReadError \<Rightarrow> (-1, buffer, offset)
      | ReadBytes bytes \<Rightarrow> (int (length bytes), copy_to buffer offset bytes, offset + length bytes))"

definition TcpClientConnection_read :: "(nat \<Rightarrow> read_result) \<Rightarrow> byte list \<Rightarrow> nat \<Rightarrow> int \<times> byte list \<times> nat" where
  "TcpClientConnection_read sys_read buffer offset =
     (case sys_read (length buffer - offset) of
        ReadError \<Rightarrow> (-1, buffer, offset)
      | ReadBytes bytes \<Rightarrow>
          if length bytes = 0 then (0, buffer, offset)
          else (int (length bytes), copy_to buffer offset bytes, offset + length bytes))"

lemma copy_nothing [simp]: "copy_to buf off [] = buf"
  by (simp add: copy_to_def)

text \<open>Both classes read alike, and \<open>readFromSocket\<close> is one read into the buffer of the client.\<close>

lemma reads_agree: "TcpClientConnection_read sys_read buffer offset = TcpSocket_read sys_read buffer offset"
  by (simp add: TcpClientConnection_read_def TcpSocket_read_def split: read_result.split)

lemma readFromSocket_read:
  "sys_read (length (m_buffer tc) - m_dataSize tc) = ReadBytes bytes \<Longrightarrow>
   TcpSocket_read sys_read (m_buffer tc) (m_dataSize tc) =
     (int (length bytes), m_buffer (readFromSocket tc bytes), m_dataSize (readFromSocket tc bytes))"
  by (simp add: TcpSocket_read_def readFromSocket_def)

section \<open>Reading a stream\<close>

text \<open>
  \<open>pending\<close> are the bytes that were sent and not yet read; of these \<open>arrived\<close> have arrived when \<^verbatim>\<open>::read\<close> is called,
  which delivers no more than it is asked for.
\<close>

definition stream_read :: "byte list \<Rightarrow> nat \<Rightarrow> nat \<Rightarrow> read_result" where
  "stream_read pending arrived count = ReadBytes (take (min arrived count) pending)"

text \<open>
  \<^verbatim>\<open>startRead\<close> on such a stream.  While nothing is pending the call of \<^verbatim>\<open>::read\<close> blocks; the result says what is
  left of the stream and whether the loop has ended.
\<close>

fun startRead_stream ::
  "('s \<Rightarrow> byte list \<Rightarrow> nat \<Rightarrow> 's result) \<Rightarrow> 's TcpClient \<Rightarrow> byte list \<Rightarrow> nat list \<Rightarrow> ('s TcpClient \<times> byte list \<times> bool) result" where
  "startRead_stream handle tc pending [] = Inr (tc, pending, False)"
| "startRead_stream handle tc pending (arrived # ns) =
     (if pending = [] then Inr (tc, pending, False)
      else case TcpSocket_read (stream_read pending arrived) (m_buffer tc) (m_dataSize tc) of
        (bytesRead, buf, dsize) \<Rightarrow>
          let tc' = tc\<lparr>m_buffer := buf, m_dataSize := dsize\<rparr>; pending' = drop (nat bytesRead) pending in
          if bytesRead \<le> 0 then Inr (tc', pending', True)
          else res_bind (processBuffer handle tc') (\<lambda>tc''. startRead_stream handle tc'' pending' ns))"

lemma read_nothing [simp]: "readFromSocket tc [] = tc"
  by (simp add: readFromSocket_def)

lemma stream_step:
  assumes "pending \<noteq> []" and "k = min arrived (length (m_buffer tc) - m_dataSize tc)"
  shows "k = 0 \<Longrightarrow> startRead_stream handle tc pending (arrived # ns) = Inr (tc, pending, True)"
    and "0 < k \<Longrightarrow> startRead_stream handle tc pending (arrived # ns) =
      res_bind (processBuffer handle (readFromSocket tc (take k pending)))
        (\<lambda>tc'. startRead_stream handle tc' (drop k pending) ns)"
proof -
  have "TcpSocket_read (stream_read pending arrived) (m_buffer tc) (m_dataSize tc) =
      (int (length (take k pending)), m_buffer (readFromSocket tc (take k pending)), m_dataSize (readFromSocket tc (take k pending)))"
    using assms(2) by (intro readFromSocket_read) (simp add: stream_read_def)
  moreover have "drop (length (take k pending)) pending = drop k pending" by (simp add: min_def)
  moreover have "tc\<lparr>m_buffer := m_buffer (readFromSocket tc b), m_dataSize := m_dataSize (readFromSocket tc b)\<rparr> =
      readFromSocket tc b" for b
    by (simp add: readFromSocket_def)
  ultimately show "k = 0 \<Longrightarrow> startRead_stream handle tc pending (arrived # ns) = Inr (tc, pending, True)"
    and "0 < k \<Longrightarrow> startRead_stream handle tc pending (arrived # ns) =
      res_bind (processBuffer handle (readFromSocket tc (take k pending)))
        (\<lambda>tc'. startRead_stream handle tc' (drop k pending) ns)"
    using assms(1) by (auto simp: Let_def)
qed

text \<open>The loop on the stream is the loop of the client on the reads that the stream gives.\<close>

lemma stream_is_startRead:
  "\<exists>rs. startRead handle tc rs = res_bind (startRead_stream handle tc pending ns) (\<lambda>r. Inr (fst r))"
proof (induction ns arbitrary: tc pending)
  case (Cons n ns)
  let ?k = "min n (length (m_buffer tc) - m_dataSize tc)"
  consider (blocked) "pending = []" | (stops) "pending \<noteq> []" "?k = 0" | (reads) "pending \<noteq> []" "0 < ?k" by blast
  then show ?case
  proof cases
    case blocked
    then show ?thesis by (auto intro: exI [of _ "[]"])
  next
    case stops
    show ?thesis by (rule exI [of _ "[ReadBytes []]"]) (simp only: stream_step(1) [OF stops(1) refl stops(2)], simp)
  next
    case reads
    let ?b = "take ?k pending"
    have b: "?b \<noteq> []" using reads by (simp only: take_eq_Nil) simp
    show ?thesis
    proof (cases "processBuffer handle (readFromSocket tc ?b)")
      case (Inl e)
      show ?thesis
        by (rule exI [of _ "[ReadBytes ?b]"]) (simp only: stream_step(2) [OF reads(1) refl reads(2)], simp add: Inl b del: take_eq_Nil)
    next
      case (Inr tc')
      obtain rs where "startRead handle tc' rs = res_bind (startRead_stream handle tc' (drop ?k pending) ns) (\<lambda>r. Inr (fst r))"
        using Cons.IH by blast
      then show ?thesis
        by (intro exI [of _ "ReadBytes ?b # rs"]) (simp only: stream_step(2) [OF reads(1) refl reads(2)], simp add: Inr b del: take_eq_Nil)
    qed
  qed
qed (auto intro: exI [of _ "[]"])

section \<open>When the loop ends\<close>

text \<open>The buffer holds no complete packet.\<close>

definition incomplete :: "'s TcpClient \<Rightarrow> bool" where
  "incomplete tc \<longleftrightarrow> m_dataSize tc < 2 \<or> m_dataSize tc < 2 + be_val (take 2 (m_buffer tc))"

lemma length_copy_to: "off + length src \<le> length buf \<Longrightarrow> length (copy_to buf off src) = length buf"
  by (simp add: copy_to_def)

lemma loop_stops:
  "processBuffer_loop handle buf dataSize off s = Inr (s', off') \<Longrightarrow> off \<le> dataSize \<Longrightarrow> dataSize \<le> length buf \<Longrightarrow>
   off \<le> off' \<and> off' \<le> dataSize \<and> (dataSize - off' < 2 \<or> dataSize - off' < 2 + be_val (take 2 (drop off' buf)))"
proof (induction handle buf dataSize off s rule: processBuffer_loop.induct)
  case (1 handle buf dataSize off s)
  let ?len = "unat (be16toh (get16 (drop off buf)))"
  have len: "?len = be_val (take 2 (drop off buf))" if "2 \<le> dataSize - off"
    using that "1.prems"(3) by (intro network_order(1)) simp
  show ?case
  proof (cases "2 \<le> dataSize - off \<and> 2 + ?len \<le> dataSize - off")
    case True
    then obtain s1 where "processBuffer_loop handle buf dataSize (off + (2 + ?len)) s1 = Inr (s', off')"
      using "1.prems"(1) by (subst (asm) processBuffer_loop.simps) (auto simp: Let_def res_bind_Inr_iff)
    moreover have "off + (2 + ?len) \<le> dataSize" using True "1.prems"(2) by linarith
    ultimately show ?thesis using "1.IH" [OF _ refl, of s1] True "1.prems"(3) by simp
  next
    case False
    then have "off' = off" using "1.prems"(1) by (subst (asm) processBuffer_loop.simps) (auto simp: Let_def split: if_splits)
    then show ?thesis using False len "1.prems"(2) by auto
  qed
qed

lemma processBuffer_incomplete:
  assumes "processBuffer handle tc = Inr tc'" and "tc_ok tc"
  shows "tc_ok tc' \<and> incomplete tc'"
proof -
  obtain s off where loop: "processBuffer_loop handle (m_buffer tc) (m_dataSize tc) 0 (m_marketAccessor tc) = Inr (s, off)"
    "tc' = (if off > 0 then tc\<lparr>m_marketAccessor := s, m_buffer := copy_to (m_buffer tc) 0
       (take (m_dataSize tc - off) (drop off (m_buffer tc))), m_dataSize := m_dataSize tc - off\<rparr> else tc\<lparr>m_marketAccessor := s\<rparr>)"
    using assms(1) by (auto simp: processBuffer_def res_bind_Inr_iff Let_def split: if_splits)
  have ok: "length (m_buffer tc) = BUFFER_SIZE" "m_dataSize tc \<le> BUFFER_SIZE" using assms(2) by (simp_all add: tc_ok_def)
  have off: "off \<le> m_dataSize tc"
    "m_dataSize tc - off < 2 \<or> m_dataSize tc - off < 2 + be_val (take 2 (drop off (m_buffer tc)))"
    using loop_stops [OF loop(1)] ok by auto
  let ?rest = "take (m_dataSize tc - off) (drop off (m_buffer tc))"
  have rest: "length ?rest = m_dataSize tc - off" using ok by simp
  have "take 2 (copy_to (m_buffer tc) 0 ?rest) = take 2 (drop off (m_buffer tc))" if "2 \<le> m_dataSize tc - off"
    using that rest by (simp add: copy_to_def)
  then show ?thesis
    using off ok rest by (auto simp: loop(2) tc_ok_def incomplete_def length_copy_to not_less)
qed

lemma stream_ends:
  assumes "startRead_stream handle tc pending ns = Inr (tc', pending', True)"
    and "tc_ok tc" and "incomplete tc" and "\<forall>n \<in> set ns. 0 < n"
  shows "m_dataSize tc' = BUFFER_SIZE \<and> tc_ok tc' \<and> incomplete tc'"
  using assms
proof (induction ns arbitrary: tc pending)
  case (Cons n ns)
  let ?k = "min n (length (m_buffer tc) - m_dataSize tc)"
  have p: "pending \<noteq> []" using Cons.prems(1) by auto
  show ?case
  proof (cases "?k = 0")
    case True
    then have "tc' = tc" "m_dataSize tc = BUFFER_SIZE"
      using stream_step(1) [OF p refl True, of handle ns] Cons.prems by (auto simp: tc_ok_def min_def split: if_splits)
    then show ?thesis using Cons.prems(2,3) by simp
  next
    case False
    let ?tc = "readFromSocket tc (take ?k pending)"
    have "res_bind (processBuffer handle ?tc) (\<lambda>tc'. startRead_stream handle tc' (drop ?k pending) ns) = Inr (tc', pending', True)"
      using stream_step(2) [OF p refl, of n tc handle ns] False Cons.prems(1) by (simp only: neq0_conv)
    then obtain tc1 where tc1: "processBuffer handle ?tc = Inr tc1"
      "startRead_stream handle tc1 (drop ?k pending) ns = Inr (tc', pending', True)"
      by (auto simp only: res_bind_Inr_iff)
    have "tc_ok ?tc"
      using Cons.prems(2) by (auto simp: tc_ok_def readFromSocket_def length_copy_to min_def)
    then show ?thesis using Cons.IH [OF tc1(2)] processBuffer_incomplete [OF tc1(1)] Cons.prems(4) by simp
  qed
qed simp

lemma incomplete_waits:
  assumes "m_dataSize tc < 2 \<or> m_dataSize tc < 2 + be_val (take 2 (m_buffer tc))" and "m_dataSize tc \<le> length (m_buffer tc)"
  shows "processBuffer handle tc = Inr tc"
proof -
  have "unat (be16toh (get16 (m_buffer tc))) = be_val (take 2 (m_buffer tc))" if "2 \<le> m_dataSize tc"
    using that assms(2) by (intro network_order(1)) simp
  then have "processBuffer_loop handle (m_buffer tc) (m_dataSize tc) 0 (m_marketAccessor tc) = Inr (m_marketAccessor tc, 0)"
    using assms(1) by (subst processBuffer_loop.simps) (auto simp: Let_def)
  then show ?thesis by (simp add: processBuffer_def)
qed

text \<open>A packet that is longer than the buffer fills it and stays incomplete.\<close>

lemma oversized_fills:
  assumes "m_buffer tc = got @ junk" and "m_dataSize tc = length got" and "m = got @ pending"
    and "length (got @ junk) = BUFFER_SIZE" and "well_framed m" and "BUFFER_SIZE < length m"
    and "\<forall>n \<in> set ns. 0 < n" and "length junk < length ns"
  shows "\<exists>tc'. startRead_stream handle tc (pending @ rest) ns = Inr (tc', drop (length junk) (pending @ rest), True) \<and>
    m_buffer tc' = take BUFFER_SIZE m \<and> m_marketAccessor tc' = m_marketAccessor tc"
  using assms
proof (induction ns arbitrary: tc got junk pending)
  case (Cons n ns)
  define k where "k = min n (length junk)"
  have k: "k = min n (length (m_buffer tc) - m_dataSize tc)" using Cons.prems(1,2) by (simp add: k_def)
  have p: "pending @ rest \<noteq> []" using Cons.prems(3,4,6) by auto
  show ?case
  proof (cases "k = 0")
    case True
    then have "junk = []" using Cons.prems(7) by (auto simp: k_def min_def split: if_splits)
    then show ?thesis using stream_step(1) [OF p k True, of handle ns] Cons.prems(1,3,4) by simp
  next
    case False
    have le: "k \<le> length junk" "k < length pending" "0 < k"
      using False Cons.prems(3,4,6) by (auto simp: k_def)
    let ?tc = "readFromSocket tc (take k (pending @ rest))" and ?got = "got @ take k pending"
    have tc: "m_buffer ?tc = ?got @ drop k junk" "m_dataSize ?tc = length ?got" "m = ?got @ drop k pending"
      "length (?got @ drop k junk) = BUFFER_SIZE" "m_marketAccessor ?tc = m_marketAccessor tc"
      using le Cons.prems(1-4) by (auto simp: readFromSocket_def copy_to_def)
    have "take 2 (g @ x) = take 2 (g @ y)" if "2 \<le> length g" for g x y :: "byte list" using that by simp
    then have "m_dataSize ?tc < 2 \<or> take 2 (m_buffer ?tc) = take 2 m" using tc(1-3) by (metis not_less)
    moreover have "m_dataSize ?tc < 2 + be_val (take 2 m)"
      using Cons.prems(4,5,6) tc(2,4) by (auto simp: well_framed_def)
    ultimately have "processBuffer handle ?tc = Inr ?tc"
      using tc(1,2) by (intro incomplete_waits) auto
    moreover have "length (drop k junk) < length ns" using Cons.prems(8) le by simp
    note Cons.IH [OF tc(1-4) Cons.prems(5,6) _ this]
    ultimately show ?thesis
      using stream_step(2) [OF p k le(3), of handle ns] tc(5) le Cons.prems(7) by (simp add: add.commute)
  qed
qed simp

section \<open>A stream of packets\<close>

lemma frames_join: "bs = concat (fst (split_frames bs)) @ snd (split_frames bs)"
proof (induction bs rule: length_induct)
  case (1 bs)
  show ?case
  proof (cases rule: split_frames_cases [of bs])
    case (cons m bs')
    then show ?thesis using 1 split_frames_cons [of m bs'] by simp
  qed simp
qed

text \<open>What waits in the buffer is shorter than the packet it begins.\<close>

lemma waiting_short:
  assumes "fst (split_frames w) = []" and "split_frames (w @ x) = (m # ms, r)" and "well_framed m"
  shows "length w < length m"
proof (rule ccontr)
  assume "\<not> length w < length m"
  moreover have "w @ x = m @ concat ms @ r" using frames_join [of "w @ x"] assms(2) by simp
  ultimately obtain y where "w = m @ y" by (metis append_eq_append_conv_if append_take_drop_id linorder_not_less)
  then show False using split_frames_cons [OF assms(3), of y] assms(1) by simp
qed

lemma packet_bytes_short: "packet_valid p \<Longrightarrow> length (packet_bytes p) \<le> 148"
  by (cases p) (auto simp: length_sequenced response_codecs soup_LoginAccepted.put_length put_soup_LoginRejected_def
      put_soup_ServerHeartbeat_def put_soup_EndOfSession_def wire)

text \<open>The bursts that arrive between two reads, and the room they leave behind a waiting packet.\<close>

definition BURST :: nat where "BURST = BUFFER_SIZE - 150"

lemma stream_handles_packets:
  assumes "tc_ok tc" and "fst (split_frames (tc_data tc)) = []" and "split_frames (tc_data tc @ pending) = (map packet_bytes ps, [])"
    and "\<forall>p \<in> set ps. packet_valid p" and "\<forall>n \<in> set ns. 0 < n \<and> n \<le> BURST" and "length pending \<le> length ns"
  shows "\<exists>tc'. startRead_stream handleMessage tc pending ns = Inr (tc', [], False) \<and>
    m_marketAccessor tc' = fold (\<lambda>p ts. packet_step ts p) ps (m_marketAccessor tc) \<and> tc_data tc' = []"
  using assms
proof (induction ns arbitrary: tc pending ps)
  case Nil
  then show ?case using split_frames_none [of "tc_data tc"] by simp
next
  case (Cons n ns)
  show ?case
  proof (cases "pending = []")
    case True
    then show ?thesis using Cons.prems(2,3) split_frames_none [of "tc_data tc"] by simp
  next
    case False
    then obtain q qs where ps: "ps = q # qs"
      using frames_join [of "tc_data tc @ pending"] Cons.prems(3) by (cases ps) auto
    have short: "m_dataSize tc < 148"
      using waiting_short [OF Cons.prems(2), of pending "packet_bytes q"] Cons.prems(1,3,4) packet_bytes_framed [of q]
        packet_bytes_short [of q] by (simp add: ps tc_data_def tc_ok_def del: packet_bytes.simps)
    have n: "0 < n" "n = min n (length (m_buffer tc) - m_dataSize tc)" "m_dataSize tc + n + 2 \<le> BUFFER_SIZE"
      using Cons.prems(1,5) short by (auto simp: tc_ok_def BURST_def BUFFER_SIZE_def)
    let ?tc = "readFromSocket tc (take n pending)" and ?d = "tc_data tc @ take n pending"
    have tc: "tc_data ?tc = ?d" "tc_ok ?tc" "m_marketAccessor ?tc = m_marketAccessor tc" "m_dataSize ?tc + 2 \<le> BUFFER_SIZE"
      using readFromSocket_data [OF Cons.prems(1), of "take n pending"] n(3) by (auto simp: readFromSocket_def)
    obtain fs r where d: "split_frames ?d = (fs, r)" by fastforce
    obtain gs r' where g: "split_frames (r @ drop n pending) = (gs, r')" by fastforce
    have "map packet_bytes ps = fs @ gs" and r': "r' = []"
      using split_frames_append [of ?d "drop n pending"] Cons.prems(3) d g by simp_all
    then obtain ps1 ps2 where split: "ps = ps1 @ ps2" "fs = map packet_bytes ps1" "gs = map packet_bytes ps2"
      by (auto simp: map_eq_append_conv)
    have valid: "\<forall>p \<in> set ps1. packet_valid p" "\<forall>p \<in> set ps2. packet_valid p" using Cons.prems(4) split(1) by auto
    then have "\<forall>m \<in> set (fst (split_frames (tc_data ?tc))). client_good m" using d split(2) tc(1) by (auto simp: client_good_def)
    from client.processBuffer_frames [OF tc(2,4) this] obtain tc' where tc': "processBuffer handleMessage ?tc = Inr tc'"
      "m_marketAccessor tc' = fold (\<lambda>p ts. packet_step ts p) ps1 (m_marketAccessor tc)" "tc_data tc' = r" "tc_ok tc'"
      using d tc(1,3) split(2) client_steps [OF valid(1), of "m_marketAccessor tc"] by auto
    have "fst (split_frames r) = []" using split_frames_rest [of ?d] d by simp
    moreover have "length (drop n pending) \<le> length ns" using Cons.prems(6) n(1) by simp
    ultimately show ?thesis
      using Cons.IH [OF tc'(4), of "drop n pending" ps2] tc'(1-3) split g r' valid(2) Cons.prems(5)
        stream_step(2) [OF False n(2,1), of handleMessage ns] by (simp del: startRead_stream.simps)
  qed
qed

section \<open>Properties\<close>



text \<open>
  C20. On a connection that stays open the reading thread ends on its own in one case only: the buffer is full and
  what it holds is the beginning of a packet that is longer than the buffer.
\<close>

theorem reading_ends_only_when_full:
  assumes "startRead_stream handleMessage (TcpClient_ctor ts) stream ns = Inr (tc, pending, True)" and "\<forall>n \<in> set ns. 0 < n"
  shows "m_dataSize tc = BUFFER_SIZE \<and> length (m_buffer tc) = BUFFER_SIZE \<and> BUFFER_SIZE < 2 + be_val (take 2 (m_buffer tc))"
proof -
  have "tc_ok (TcpClient_ctor ts)" "incomplete (TcpClient_ctor ts)"
    by (simp_all add: TcpClient_ctor_def tc_ok_def incomplete_def)
  from stream_ends [OF assms(1) this assms(2)] show ?thesis by (auto simp: tc_ok_def incomplete_def BUFFER_SIZE_def)
qed

lemma oversized_stream:
  assumes "well_framed m" and "BUFFER_SIZE < length m" and "\<forall>n \<in> set ns. 0 < n" and "BUFFER_SIZE < length ns"
  shows "\<exists>tc. startRead_stream handleMessage (TcpClient_ctor ts) (m @ rest) ns = Inr (tc, drop BUFFER_SIZE (m @ rest), True) \<and>
    m_buffer tc = take BUFFER_SIZE m \<and> m_marketAccessor tc = ts"
  using oversized_fills [of "TcpClient_ctor ts" "[]" "replicate BUFFER_SIZE 0" m m ns handleMessage rest] assms
  by (simp add: TcpClient_ctor_def)

definition long_packet :: "byte list" where
  "long_packet = 16 # 0 # replicate 4096 0"

lemma long_packet: "well_framed long_packet" "BUFFER_SIZE < length long_packet"
  by (simp_all add: long_packet_def well_framed_def be_val_def BUFFER_SIZE_def)

theorem reading_ends_only_when_full_witness:
  "\<forall>ts. \<exists>tc pending. startRead_stream handleMessage (TcpClient_ctor ts) long_packet (replicate 5000 1) = Inr (tc, pending, True) \<and>
     m_dataSize tc = BUFFER_SIZE"
proof
  fix ts
  obtain tc where tc: "startRead_stream handleMessage (TcpClient_ctor ts) (long_packet @ []) (replicate 5000 1) =
      Inr (tc, drop BUFFER_SIZE (long_packet @ []), True)"
    using oversized_stream [OF long_packet, of "replicate 5000 1" ts "[]"] by (auto simp: BUFFER_SIZE_def)
  then show "\<exists>tc pending. startRead_stream handleMessage (TcpClient_ctor ts) long_packet (replicate 5000 1) = Inr (tc, pending, True) \<and>
     m_dataSize tc = BUFFER_SIZE"
    using reading_ends_only_when_full [OF tc] by auto
qed

text \<open>
  A packet that is longer than the buffer, which the length field allows, stops the reading thread: the full buffer
  leaves no room, \<^verbatim>\<open>::read\<close> is asked for no bytes and its answer of zero is taken for the end of the connection.
  Nothing of the packet is handled, the rest of it and everything behind it stay unread.
\<close>

theorem oversized_packet_stops_client:
  assumes "well_framed m" and "BUFFER_SIZE < length m" and "\<forall>n \<in> set ns. 0 < n" and "BUFFER_SIZE < length ns"
  shows "\<exists>tc. startRead_stream handleMessage (TcpClient_ctor ts) (m @ rest) ns = Inr (tc, drop BUFFER_SIZE (m @ rest), True) \<and>
    m_buffer tc = take BUFFER_SIZE m \<and> m_marketAccessor tc = ts"
  using assms by (rule oversized_stream)

theorem oversized_packet_stops_client_witness:
  "\<forall>ts rest. \<exists>tc. startRead_stream handleMessage (TcpClient_ctor ts) (long_packet @ rest) (replicate 5000 1) =
     Inr (tc, drop BUFFER_SIZE (long_packet @ rest), True) \<and> m_marketAccessor tc = ts"
  using oversized_packet_stops_client [OF long_packet, of "replicate 5000 1"] by (force simp: BUFFER_SIZE_def)

end
