(* ===== verification/Sockets.thy ===== *)
theory Sockets
  imports Prelude
begin

text \<open>
  The write loops of \<^verbatim>\<open>src/lib/network/tcp_socket.cpp\<close> and \<^verbatim>\<open>src/lib/network/tcp_client_connection.cpp\<close> and
  the receive loop of \<^verbatim>\<open>src/lib/network/udp_socket.cpp\<close>.  The results of the system calls are an argument,
  in the order the calls are made.
\<close>

section \<open>Write loops\<close>

text \<open>
  \<open>Wrote n\<close> is a call that took \<open>n\<close> bytes; the others are the errors the code distinguishes.  A loop that
  is still waiting for its next system call when the list ends has not returned: \<open>None\<close>.
\<close>

datatype write_result = Wrote nat | WriteEINTR | WriteEAGAIN | WriteEPIPE | WriteFailed

fun TcpSocket_write :: "byte list \<Rightarrow> write_result list \<Rightarrow> byte list option" where
  "TcpSocket_write [] rs = Some []"
| "TcpSocket_write buffer [] = None"
| "TcpSocket_write buffer (Wrote n # rs) =
     map_option (\<lambda>sent. take n buffer @ sent) (TcpSocket_write (drop n buffer) rs)"
| "TcpSocket_write buffer (WriteEINTR # rs) = TcpSocket_write buffer rs"
| "TcpSocket_write buffer (WriteEAGAIN # rs) = Some []"
| "TcpSocket_write buffer (WriteEPIPE # rs) = Some []"
| "TcpSocket_write buffer (WriteFailed # rs) = Some []"

fun TcpClientConnection_write :: "byte list \<Rightarrow> write_result list \<Rightarrow> byte list option" where
  "TcpClientConnection_write [] rs = Some []"
| "TcpClientConnection_write buffer [] = None"
| "TcpClientConnection_write buffer (Wrote n # rs) =
     map_option (\<lambda>sent. take n buffer @ sent) (TcpClientConnection_write (drop n buffer) rs)"
| "TcpClientConnection_write buffer (WriteEINTR # rs) = TcpClientConnection_write buffer rs"
| "TcpClientConnection_write buffer (WriteEAGAIN # rs) = TcpClientConnection_write buffer rs"
| "TcpClientConnection_write buffer (WriteEPIPE # rs) = Some []"
| "TcpClientConnection_write buffer (WriteFailed # rs) = Some []"

text \<open>
  Both loops keep the same promise to their callers: what is sent is a prefix of the buffer, all of it
  unless a call gives up, and the loop returns once the kernel has taken every byte.
\<close>

locale write_loop =
  fixes send :: "byte list \<Rightarrow> write_result list \<Rightarrow> byte list option" and retry :: "write_result \<Rightarrow> bool"
  assumes write_empty: "send [] rs = Some []"
    and write_blocked: "buffer \<noteq> [] \<Longrightarrow> send buffer [] = None"
    and write_some: "buffer \<noteq> [] \<Longrightarrow>
          send buffer (Wrote n # rs) = map_option (\<lambda>sent. take n buffer @ sent) (send (drop n buffer) rs)"
    and write_retry: "buffer \<noteq> [] \<Longrightarrow> retry r \<Longrightarrow> send buffer (r # rs) = send buffer rs"
    and write_stop: "buffer \<noteq> [] \<Longrightarrow> \<not> retry r \<Longrightarrow> (\<And>n. r \<noteq> Wrote n) \<Longrightarrow> send buffer (r # rs) = Some []"
    and retry_error: "\<not> retry (Wrote n)"
begin

lemma sent_prefix: "send buffer rs = Some sent \<Longrightarrow> \<exists>rest. buffer = sent @ rest"
proof (induction rs arbitrary: buffer sent)
  case (Cons r rs)
  show ?case
  proof (cases "buffer = []")
    case False
    note buffer = False
    show ?thesis
    proof (cases "retry r \<or> (\<exists>n. r = Wrote n)")
      case True
      then consider "retry r" | n where "r = Wrote n" by blast
      then show ?thesis
      proof cases
        case 2
        then obtain s where s: "send (drop n buffer) rs = Some s" "sent = take n buffer @ s"
          using Cons.prems write_some [OF buffer] by auto
        then show ?thesis using Cons.IH [OF s(1)] by (metis append.assoc append_take_drop_id)
      qed (use Cons write_retry [OF buffer] in auto)
    qed (use Cons.prems write_stop [OF buffer] in force)
  qed (use Cons.prems write_empty in auto)
next
  case Nil
  then show ?case using write_empty write_blocked by (cases "buffer = []") auto
qed

lemma all_sent:
  assumes "\<forall>r \<in> set rs. retry r \<or> (\<exists>n. r = Wrote n)"
  shows "send buffer rs = Some sent \<Longrightarrow> sent = buffer"
  using assms
proof (induction rs arbitrary: buffer sent)
  case (Cons r rs)
  show ?case
  proof (cases "buffer = []")
    case False
    from Cons.prems(2) consider "retry r" | n where "r = Wrote n" by auto
    then show ?thesis
    proof cases
      case 1
      then show ?thesis using Cons write_retry [OF False] by auto
    next
      case 2
      then show ?thesis using Cons write_some [OF False] by fastforce
    qed
  qed (use Cons.prems write_empty in auto)
next
  case Nil
  then show ?case using write_empty write_blocked by (cases "buffer = []") auto
qed

lemma returns:
  assumes "\<forall>r \<in> set rs. retry r \<or> (\<exists>n. r = Wrote n)"
    and "length buffer \<le> sum_list (map (\<lambda>r. case r of Wrote n \<Rightarrow> n | _ \<Rightarrow> 0) rs)"
  shows "send buffer rs = Some buffer"
  using assms
proof (induction rs arbitrary: buffer)
  case (Cons r rs)
  show ?case
  proof (cases "buffer = []")
    case False
    from Cons.prems(1) consider "retry r" | n where "r = Wrote n" by auto
    then show ?thesis
    proof cases
      case 1
      then have "length buffer \<le> sum_list (map (\<lambda>r. case r of Wrote n \<Rightarrow> n | _ \<Rightarrow> 0) rs)"
        using Cons.prems(2) retry_error by (auto split: write_result.splits)
      then show ?thesis using 1 Cons write_retry [OF False] by auto
    next
      case 2
      then have "send (drop n buffer) rs = Some (drop n buffer)" using Cons by auto
      then show ?thesis using 2 write_some [OF False] by simp
    qed
  qed (use write_empty in auto)
qed (use write_empty in auto)

end

lemma write_simps_nonempty:
  assumes "buffer \<noteq> []"
  shows "TcpSocket_write buffer [] = None" "TcpClientConnection_write buffer [] = None"
    "TcpSocket_write buffer (Wrote n # rs) = map_option (\<lambda>sent. take n buffer @ sent) (TcpSocket_write (drop n buffer) rs)"
    "TcpClientConnection_write buffer (Wrote n # rs) =
       map_option (\<lambda>sent. take n buffer @ sent) (TcpClientConnection_write (drop n buffer) rs)"
    "TcpSocket_write buffer (WriteEINTR # rs) = TcpSocket_write buffer rs"
    "TcpClientConnection_write buffer (WriteEINTR # rs) = TcpClientConnection_write buffer rs"
    "TcpClientConnection_write buffer (WriteEAGAIN # rs) = TcpClientConnection_write buffer rs"
    "TcpSocket_write buffer (WriteEAGAIN # rs) = Some []"
    "TcpSocket_write buffer (WriteEPIPE # rs) = Some []" "TcpSocket_write buffer (WriteFailed # rs) = Some []"
    "TcpClientConnection_write buffer (WriteEPIPE # rs) = Some []"
    "TcpClientConnection_write buffer (WriteFailed # rs) = Some []"
  using assms by (cases buffer; simp)+

interpretation client_write: write_loop TcpSocket_write "\<lambda>r. r = WriteEINTR"
proof
  fix buffer :: "byte list" and r rs
  assume "buffer \<noteq> []" "r \<noteq> WriteEINTR" "\<And>n. r \<noteq> Wrote n"
  then show "TcpSocket_write buffer (r # rs) = Some []" by (cases r) (auto simp: write_simps_nonempty)
qed (simp_all add: write_simps_nonempty)

interpretation server_write: write_loop TcpClientConnection_write "\<lambda>r. r = WriteEINTR \<or> r = WriteEAGAIN"
proof
  fix buffer :: "byte list" and r rs
  assume "buffer \<noteq> []" "\<not> (r = WriteEINTR \<or> r = WriteEAGAIN)" "\<And>n. r \<noteq> Wrote n"
  then show "TcpClientConnection_write buffer (r # rs) = Some []" by (cases r) (auto simp: write_simps_nonempty)
qed (auto simp: write_simps_nonempty)

section \<open>The multicast receive loop\<close>

text \<open>
  \<open>received\<close> are the byte counts \<^verbatim>\<open>recvfrom\<close> returns until a stop is requested.  The call that would hand
  the datagram to the client is commented out, so the loop only counts.
\<close>

fun UdpMulticastSocket_read :: "int list \<Rightarrow> nat" where
  "UdpMulticastSocket_read [] = 0"
| "UdpMulticastSocket_read (bytes_received # received) =
     (if bytes_received > 0 then Suc (UdpMulticastSocket_read received) else 0)"

section \<open>Properties\<close>

text \<open>
  C30. The client's write loop sends a prefix of the message; it returns with the whole message sent as
  soon as the kernel has taken all its bytes in any portions, interrupted calls being retried.
\<close>

theorem TcpSocket_write_sends:
  assumes "\<forall>r \<in> set rs. r = WriteEINTR \<or> (\<exists>n. r = Wrote n)"
    and "length buffer \<le> sum_list (map (\<lambda>r. case r of Wrote n \<Rightarrow> n | _ \<Rightarrow> 0) rs)"
  shows "TcpSocket_write buffer rs = Some buffer \<and>
    (TcpSocket_write buffer rs' = Some sent \<longrightarrow> (\<exists>rest. buffer = sent @ rest))"
  using client_write.returns [OF assms] client_write.sent_prefix by blast

theorem TcpSocket_write_sends_witness:
  "TcpSocket_write [1, 2, 3] [Wrote 2, WriteEINTR, Wrote 1] = Some [1, 2, 3]"
  using TcpSocket_write_sends [of "[Wrote 2, WriteEINTR, Wrote 1]" "[1, 2, 3]"] by simp

text \<open>
  The server's write loop, which also retries when the call would block, has the same behaviour.
\<close>

theorem TcpClientConnection_write_sends:
  assumes "\<forall>r \<in> set rs. (r = WriteEINTR \<or> r = WriteEAGAIN) \<or> (\<exists>n. r = Wrote n)"
    and "length buffer \<le> sum_list (map (\<lambda>r. case r of Wrote n \<Rightarrow> n | _ \<Rightarrow> 0) rs)"
  shows "TcpClientConnection_write buffer rs = Some buffer \<and>
    (TcpClientConnection_write buffer rs' = Some sent \<longrightarrow> (\<exists>rest. buffer = sent @ rest))"
  using server_write.returns [OF assms] server_write.sent_prefix by blast

theorem TcpClientConnection_write_sends_witness:
  "TcpClientConnection_write [1, 2, 3] [Wrote 2, WriteEAGAIN, Wrote 1] = Some [1, 2, 3]"
  using TcpClientConnection_write_sends [of "[Wrote 2, WriteEAGAIN, Wrote 1]" "[1, 2, 3]"] by simp

end
