(* ===== verification/Descriptors.thy ===== *)
theory Descriptors
  imports Sockets
begin

text \<open>
  Who owns which descriptor: construction, configuration and destruction of the sockets of
  \<^verbatim>\<open>src/lib/network/tcp_socket.cpp\<close>, \<^verbatim>\<open>tcp_server_socket.cpp\<close>, \<^verbatim>\<open>tcp_client_connection.cpp\<close> and
  \<^verbatim>\<open>udp_socket.cpp\<close>.  The kernel keeps the open descriptors of the process, the options that were set,
  the datagrams that were sent, and the calls of \<^verbatim>\<open>close\<close> on a descriptor that is not open.  The results of
  the system calls are arguments; a failed option is only logged.
\<close>

section \<open>The kernel\<close>

datatype sockopt =
    TCP_NODELAY | TCP_QUICKACK | SO_RCVBUF | SO_SNDBUF | SO_REUSEADDR | IP_ADD_MEMBERSHIP | IP_MULTICAST_IF | O_NONBLOCK

record kernel =
  open_fds :: "int set"
  stray_closes :: "int list"
  options_set :: "(int \<times> sockopt \<times> int) list"
  datagrams :: "(int \<times> byte list) list"

definition sys_open :: "int \<Rightarrow> kernel \<Rightarrow> kernel" where
  "sys_open fd k = (if fd < 0 then k else k\<lparr>open_fds := insert fd (open_fds k)\<rparr>)"

definition sys_close :: "int \<Rightarrow> kernel \<Rightarrow> kernel" where
  "sys_close fd k =
     (if fd \<in> open_fds k then k\<lparr>open_fds := open_fds k - {fd}\<rparr>
      else k\<lparr>stray_closes := stray_closes k @ [fd]\<rparr>)"

text \<open>\<open>res\<close> is what the call returns: negative on an error.\<close>

definition sys_setsockopt :: "int \<Rightarrow> sockopt \<Rightarrow> int \<Rightarrow> int \<Rightarrow> kernel \<Rightarrow> kernel" where
  "sys_setsockopt fd opt val res k =
     (if res < 0 then k else k\<lparr>options_set := options_set k @ [(fd, opt, val)]\<rparr>)"

section \<open>TcpSocket\<close>

text \<open>
  The constructor with the results of \<^verbatim>\<open>socket\<close>, \<^verbatim>\<open>inet_pton\<close> and \<^verbatim>\<open>connect\<close>; it returns the member
  \<^verbatim>\<open>m_socketFd\<close>, which keeps the descriptor also when the constructor has closed it.
\<close>

definition TcpSocket_ctor :: "int \<Rightarrow> int \<Rightarrow> int \<Rightarrow> kernel \<Rightarrow> int \<times> kernel" where
  "TcpSocket_ctor socket_fd pton connect k =
     (let k1 = sys_open socket_fd k in
      if socket_fd < 0 then (socket_fd, k1)
      else if pton \<le> 0 then (socket_fd, sys_close socket_fd k1)
      else if connect < 0 then (socket_fd, sys_close socket_fd k1)
      else (socket_fd, k1))"

definition TcpSocket_dtor :: "int \<Rightarrow> kernel \<Rightarrow> kernel" where
  "TcpSocket_dtor m_socketFd k = (if m_socketFd \<ge> 0 then sys_close m_socketFd k else k)"

definition enableNoDelay :: "int \<Rightarrow> bool \<Rightarrow> int \<Rightarrow> kernel \<Rightarrow> kernel" where
  "enableNoDelay m_socketFd val res = sys_setsockopt m_socketFd TCP_NODELAY (if val then 1 else 0) res"

definition enableQuickAck :: "int \<Rightarrow> bool \<Rightarrow> int \<Rightarrow> kernel \<Rightarrow> kernel" where
  "enableQuickAck m_socketFd val res = sys_setsockopt m_socketFd TCP_QUICKACK (if val then 1 else 0) res"

definition TcpSocket_optimizeForLatency :: "int \<Rightarrow> int \<Rightarrow> int \<Rightarrow> kernel \<Rightarrow> kernel" where
  "TcpSocket_optimizeForLatency m_socketFd res1 res2 k =
     enableQuickAck m_socketFd True res2 (enableNoDelay m_socketFd True res1 k)"

definition setSocketBufferSizes :: "int \<Rightarrow> int \<Rightarrow> int \<Rightarrow> int \<Rightarrow> kernel \<Rightarrow> kernel" where
  "setSocketBufferSizes m_socketFd bufSize res1 res2 k =
     sys_setsockopt m_socketFd SO_SNDBUF bufSize res2 (sys_setsockopt m_socketFd SO_RCVBUF bufSize res1 k)"

text \<open>\<^verbatim>\<open>enableBusyPolling\<close> returns before its system call.\<close>

definition enableBusyPolling :: "kernel \<Rightarrow> kernel" where
  "enableBusyPolling k = k"

section \<open>TcpClientConnection\<close>

definition TcpClientConnection_enableNoDelay :: "int \<Rightarrow> bool \<Rightarrow> int \<Rightarrow> kernel \<Rightarrow> kernel" where
  "TcpClientConnection_enableNoDelay m_socketFd val res = sys_setsockopt m_socketFd TCP_NODELAY (if val then 1 else 0) res"

definition TcpClientConnection_enableQuickAck :: "int \<Rightarrow> bool \<Rightarrow> int \<Rightarrow> kernel \<Rightarrow> kernel" where
  "TcpClientConnection_enableQuickAck m_socketFd val res = sys_setsockopt m_socketFd TCP_QUICKACK (if val then 1 else 0) res"

definition TcpClientConnection_optimizeForLatency :: "int \<Rightarrow> int \<Rightarrow> int \<Rightarrow> kernel \<Rightarrow> kernel" where
  "TcpClientConnection_optimizeForLatency m_socketFd res1 res2 k =
     TcpClientConnection_enableQuickAck m_socketFd True res2 (TcpClientConnection_enableNoDelay m_socketFd True res1 k)"

definition TcpClientConnection_ctor :: "int \<Rightarrow> int \<Rightarrow> int \<Rightarrow> kernel \<Rightarrow> int \<times> kernel" where
  "TcpClientConnection_ctor socket_fd res1 res2 k =
     (socket_fd, TcpClientConnection_optimizeForLatency socket_fd res1 res2 k)"

definition TcpClientConnection_dtor :: "int \<Rightarrow> kernel \<Rightarrow> kernel" where
  "TcpClientConnection_dtor m_socketFd k = (if m_socketFd \<ge> 0 then sys_close m_socketFd k else k)"

section \<open>TcpServerSocket\<close>

text \<open>The results of the calls of the constructor, in their order.\<close>

record server_calls =
  rc_socket :: int
  rc_reuse :: int
  rc_nodelay :: int
  rc_getfl :: int
  rc_setfl :: int
  rc_bind :: int
  rc_listen :: int

definition enableReuseAddr :: "int \<Rightarrow> bool \<Rightarrow> int \<Rightarrow> kernel \<Rightarrow> kernel" where
  "enableReuseAddr m_socketFd val res = sys_setsockopt m_socketFd SO_REUSEADDR (if val then 1 else 0) res"

definition TcpServerSocket_optimizeForLatency :: "int \<Rightarrow> int \<Rightarrow> kernel \<Rightarrow> kernel" where
  "TcpServerSocket_optimizeForLatency m_socketFd res = sys_setsockopt m_socketFd TCP_NODELAY 1 res"

definition TcpServerSocket_ctor :: "server_calls \<Rightarrow> kernel \<Rightarrow> int result \<times> kernel" where
  "TcpServerSocket_ctor rc k =
     (let fd = rc_socket rc; k0 = sys_open fd k in
      if fd < 0 then (Inl (Thrown ''Failed to create server socket''), k0)
      else
        let k1 = enableReuseAddr fd True (rc_reuse rc) k0;
            k2 = TcpServerSocket_optimizeForLatency fd (rc_nodelay rc) k1
        in if rc_getfl rc < 0 \<or> rc_setfl rc < 0
           then (Inl (Thrown ''Failed to set server socket non-blocking''), sys_close fd k2)
           else
             let k3 = k2\<lparr>options_set := options_set k2 @ [(fd, O_NONBLOCK, 1)]\<rparr> in
             if rc_bind rc < 0 then (Inl (Thrown ''Failed to bind server socket''), sys_close fd k3)
             else if rc_listen rc < 0 then (Inl (Thrown ''Failed to listen on server socket''), sys_close fd k3)
             else (Inr fd, k3))"

definition TcpServerSocket_dtor :: "int \<Rightarrow> kernel \<Rightarrow> kernel" where
  "TcpServerSocket_dtor m_socketFd k = (if m_socketFd \<ge> 0 then sys_close m_socketFd k else k)"

definition acceptConnection :: "int \<Rightarrow> kernel \<Rightarrow> int \<times> kernel" where
  "acceptConnection client_fd k = (if client_fd < 0 then (-1, k) else (client_fd, sys_open client_fd k))"

section \<open>UdpMulticastSocket\<close>

record udp_calls =
  ru_socket :: int
  ru_reuse :: int
  ru_bind :: int
  ru_join :: int
  ru_interface :: int
  ru_pton :: int

definition UdpMulticastSocket_ctor :: "udp_calls \<Rightarrow> kernel \<Rightarrow> int result \<times> kernel" where
  "UdpMulticastSocket_ctor ru k =
     (let fd = ru_socket ru; k0 = sys_open fd k in
      if fd = -1 then (Inl (Thrown ''Socket creation failed''), k0)
      else
        let k1 = sys_setsockopt fd SO_REUSEADDR 1 (ru_reuse ru) k0 in
        if ru_reuse ru < 0 then (Inl (Thrown ''setsockopt SO_REUSEADDR failed''), k1)
        else if ru_bind ru < 0 then (Inl (Thrown ''Bind failed''), k1)
        else
          let k2 = sys_setsockopt fd IP_ADD_MEMBERSHIP 1 (ru_join ru) k1 in
          if ru_join ru < 0 then (Inl (Thrown ''setsockopt IP_ADD_MEMBERSHIP failed''), k2)
          else
            let k3 = sys_setsockopt fd IP_MULTICAST_IF 1 (ru_interface ru) k2 in
            if ru_interface ru < 0 then (Inl (Thrown ''setsockopt IP_MULTICAST_IF failed''), k3)
            else if ru_pton ru \<noteq> 1 then (Inl (Thrown ''Invalid unicast destination address''), k3)
            else (Inr fd, k3))"

definition UdpMulticastSocket_dtor :: "int \<Rightarrow> kernel \<Rightarrow> kernel" where
  "UdpMulticastSocket_dtor m_socketFd k = (if m_socketFd \<noteq> -1 then sys_close m_socketFd k else k)"

definition UdpMulticastSocket_write :: "int \<Rightarrow> byte list \<Rightarrow> int \<Rightarrow> kernel \<Rightarrow> kernel" where
  "UdpMulticastSocket_write m_socketFd buffer sentBytes k =
     (if sentBytes = -1 then k else k\<lparr>datagrams := datagrams k @ [(m_socketFd, buffer)]\<rparr>)"

section \<open>Ownership\<close>

text \<open>
  What a class that owns a descriptor promises: a construction that returns a descriptor has opened it
  and nothing else, a failed one has opened nothing, and the destructor gives back what was opened.
\<close>

definition fresh :: "int \<Rightarrow> kernel \<Rightarrow> bool" where
  "fresh fd k \<longleftrightarrow> 0 \<le> fd \<and> fd \<notin> open_fds k"

definition same_descriptors :: "kernel \<Rightarrow> kernel \<Rightarrow> bool" where
  "same_descriptors k k' \<longleftrightarrow> open_fds k' = open_fds k \<and> stray_closes k' = stray_closes k"

lemma setsockopt_descriptors [simp]:
  "open_fds (sys_setsockopt fd opt v res k) = open_fds k"
  "stray_closes (sys_setsockopt fd opt v res k) = stray_closes k"
  by (simp_all add: sys_setsockopt_def)

lemma options_descriptors [simp]:
  "open_fds (enableReuseAddr fd val res k) = open_fds k"
  "open_fds (TcpServerSocket_optimizeForLatency fd res k) = open_fds k"
  "open_fds (TcpClientConnection_optimizeForLatency fd res res' k) = open_fds k"
  "stray_closes (enableReuseAddr fd val res k) = stray_closes k"
  "stray_closes (TcpServerSocket_optimizeForLatency fd res k) = stray_closes k"
  "stray_closes (TcpClientConnection_optimizeForLatency fd res res' k) = stray_closes k"
  by (simp_all add: enableReuseAddr_def TcpServerSocket_optimizeForLatency_def TcpClientConnection_optimizeForLatency_def
      TcpClientConnection_enableNoDelay_def TcpClientConnection_enableQuickAck_def)

lemma open_close: "fresh fd k \<Longrightarrow> same_descriptors k (sys_close fd (sys_open fd k))"
  by (auto simp: fresh_def same_descriptors_def sys_close_def sys_open_def)

locale descriptor_owner =
  fixes create :: "'c \<Rightarrow> kernel \<Rightarrow> int result \<times> kernel" and destroy :: "int \<Rightarrow> kernel \<Rightarrow> kernel"
    and wants :: "'c \<Rightarrow> int"
  assumes created: "create c k = (Inr fd, k') \<Longrightarrow> fresh (wants c) k \<Longrightarrow>
        fd = wants c \<and> open_fds k' = insert fd (open_fds k) \<and> stray_closes k' = stray_closes k"
    and failed: "create c k = (Inl e, k') \<Longrightarrow> wants c < 0 \<or> fresh (wants c) k \<Longrightarrow> same_descriptors k k'"
    and destroyed: "0 \<le> fd \<Longrightarrow> destroy fd k = sys_close fd k"
begin

lemma create_destroy:
  assumes "create c k = (Inr fd, k')" and "fresh (wants c) k" and "open_fds k'' = open_fds k'" and "stray_closes k'' = stray_closes k'"
  shows "same_descriptors k (destroy fd k'')"
  using created [OF assms(1,2)] assms(2-4) by (auto simp: destroyed fresh_def same_descriptors_def sys_close_def)

end

lemma server_socket_outcome:
  assumes "wants = rc_socket rc" and "wants < 0 \<or> fresh wants k" and "TcpServerSocket_ctor rc k = (r, k')"
  shows "case r of
      Inl e \<Rightarrow> same_descriptors k k'
    | Inr fd \<Rightarrow> fd = wants \<and> open_fds k' = insert fd (open_fds k) \<and> stray_closes k' = stray_closes k"
proof (cases "wants < 0")
  case True
  then show ?thesis
    using assms by (auto simp: TcpServerSocket_ctor_def sys_open_def same_descriptors_def Let_def)
next
  case False
  then have "wants \<notin> open_fds k" using assms(2) by (simp add: fresh_def)
  then show ?thesis
    using assms False
    by (auto simp: TcpServerSocket_ctor_def sys_open_def sys_close_def same_descriptors_def Let_def split: if_splits)
qed

interpretation server_socket: descriptor_owner TcpServerSocket_ctor TcpServerSocket_dtor rc_socket
proof
  show "fd = rc_socket rc \<and> open_fds k' = insert fd (open_fds k) \<and> stray_closes k' = stray_closes k"
    if "TcpServerSocket_ctor rc k = (Inr fd, k')" "fresh (rc_socket rc) k" for rc k fd k'
    using server_socket_outcome [OF refl _ that(1)] that(2) by simp
  show "same_descriptors k k'"
    if "TcpServerSocket_ctor rc k = (Inl e, k')" "rc_socket rc < 0 \<or> fresh (rc_socket rc) k" for rc k e k'
    using server_socket_outcome [OF refl that(2,1)] by simp
qed (simp add: TcpServerSocket_dtor_def)

section \<open>Properties\<close>

definition quiet_kernel :: kernel where
  "quiet_kernel = \<lparr>open_fds = {0, 1, 2}, stray_closes = [], options_set = [], datagrams = []\<rparr>"

text \<open>
  Whatever system call fails while the listening socket is set up, the constructor leaves no descriptor
  behind; when it succeeds, destroying the socket gives back the one descriptor it opened.
\<close>

theorem server_socket_no_leak:
  assumes "rc_socket rc < 0 \<or> fresh (rc_socket rc) k"
  shows "case TcpServerSocket_ctor rc k of
      (Inl e, k') \<Rightarrow> same_descriptors k k'
    | (Inr fd, k') \<Rightarrow> fresh fd k \<and> open_fds k' = insert fd (open_fds k) \<and> same_descriptors k (TcpServerSocket_dtor fd k')"
proof (cases "TcpServerSocket_ctor rc k")
  case (Pair r k')
  show ?thesis
  proof (cases r)
    case (Inl e)
    then show ?thesis using Pair server_socket.failed [of rc k e k'] assms by simp
  next
    case (Inr fd)
    have "\<not> rc_socket rc < 0" using Pair Inr by (auto simp: TcpServerSocket_ctor_def Let_def)
    then have fresh: "fresh (rc_socket rc) k" using assms by simp
    then show ?thesis
      using Pair Inr server_socket.created [of rc k fd k'] server_socket.create_destroy [of rc k fd k' k'] by auto
  qed
qed

theorem server_socket_no_leak_witness:
  "case TcpServerSocket_ctor \<lparr>rc_socket = 3, rc_reuse = 0, rc_nodelay = 0, rc_getfl = 2, rc_setfl = 0, rc_bind = -1, rc_listen = 0\<rparr>
      quiet_kernel of
     (Inl e, k') \<Rightarrow> same_descriptors quiet_kernel k' | (Inr fd, k') \<Rightarrow> False"
  using server_socket_no_leak [of "\<lparr>rc_socket = 3, rc_reuse = 0, rc_nodelay = 0, rc_getfl = 2, rc_setfl = 0, rc_bind = -1,
      rc_listen = 0\<rparr>" quiet_kernel]
  by (simp add: fresh_def quiet_kernel_def TcpServerSocket_ctor_def Let_def)

text \<open>
  A client socket that could not connect is closed by its constructor and once more by its destructor.
  If the process has been given the same descriptor number for something else in the meantime, the
  destructor closes that.
\<close>

theorem failed_connect_closes_twice:
  assumes "fresh fd k" and "pton \<le> 0 \<or> connect < 0" and "TcpSocket_ctor fd pton connect k = (m_socketFd, k1)"
  shows "same_descriptors k k1 \<and>
    stray_closes (TcpSocket_dtor m_socketFd k1) = stray_closes k1 @ [fd] \<and>
    (\<forall>k2. fd \<in> open_fds k2 \<longrightarrow> fd \<notin> open_fds (TcpSocket_dtor m_socketFd k2))"
proof -
  have eq: "m_socketFd = fd" "k1 = sys_close fd (sys_open fd k)"
    using assms by (auto simp: TcpSocket_ctor_def fresh_def Let_def split: if_splits)
  moreover have "fd \<notin> open_fds k1" using open_close [OF assms(1)] assms(1) eq by (simp add: same_descriptors_def fresh_def)
  moreover have "0 \<le> fd" using assms(1) by (simp add: fresh_def)
  ultimately show ?thesis
    using open_close [OF assms(1)] by (auto simp: TcpSocket_dtor_def sys_close_def)
qed

theorem failed_connect_closes_twice_witness:
  "stray_closes (TcpSocket_dtor 3 (snd (TcpSocket_ctor 3 1 (-1) quiet_kernel))) = [3]"
  using failed_connect_closes_twice [of 3 quiet_kernel 1 "-1" 3 "snd (TcpSocket_ctor 3 1 (-1) quiet_kernel)"]
  by (simp add: fresh_def quiet_kernel_def TcpSocket_ctor_def sys_open_def sys_close_def Let_def)

text \<open>
  The constructor of the multicast socket throws without closing the descriptor it has opened, whichever
  of the later calls fails.
\<close>

theorem udp_ctor_leaks:
  assumes "fresh (ru_socket ru) k" and "UdpMulticastSocket_ctor ru k = (Inl e, k')"
  shows "open_fds k' = insert (ru_socket ru) (open_fds k)"
proof -
  have "ru_socket ru \<noteq> -1" "\<not> ru_socket ru < 0" using assms(1) by (auto simp: fresh_def)
  then show ?thesis
    using assms(2) by (auto simp: UdpMulticastSocket_ctor_def sys_open_def Let_def split: if_splits)
qed

theorem udp_ctor_leaks_witness:
  "open_fds (snd (UdpMulticastSocket_ctor
      \<lparr>ru_socket = 3, ru_reuse = 0, ru_bind = -1, ru_join = 0, ru_interface = 0, ru_pton = 1\<rparr> quiet_kernel)) = {0, 1, 2, 3}"
  using udp_ctor_leaks [of "\<lparr>ru_socket = 3, ru_reuse = 0, ru_bind = -1, ru_join = 0, ru_interface = 0, ru_pton = 1\<rparr>" quiet_kernel
      "Thrown ''Bind failed''"]
  by (auto simp: fresh_def quiet_kernel_def UdpMulticastSocket_ctor_def Let_def)

end
