(* ===== verification/Server_Lifetime.thy ===== *)
theory Server_Lifetime
  imports Exchange_Emulator Descriptors
begin

text \<open>
  The descriptors of \<^verbatim>\<open>TcpServer\<close> (\<^verbatim>\<open>src/lib/network/tcp_server.cpp\<close>) over its whole life: the epoll instance of the
  constructor, the listening socket of \<^verbatim>\<open>start\<close>, one connection per entry of the table, and the destructor.
  The table is the one of \<open>Exchange_Emulator\<close>; here it is seen from the side of the kernel.
\<close>

section \<open>Construction and destruction\<close>

text \<open>The members that own descriptors; \<^verbatim>\<open>m_serverSocket\<close> is a pointer that is empty before \<^verbatim>\<open>start\<close>.\<close>

record server_handles =
  m_epollFd :: int
  m_serverSocket :: "int option"

definition TcpServer_create :: "int \<Rightarrow> kernel \<Rightarrow> server_handles result \<times> kernel" where
  "TcpServer_create epoll_fd k =
     (if epoll_fd < 0 then (Inl (Thrown ''Failed to create epoll''), k)
      else (Inr \<lparr>m_epollFd = epoll_fd, m_serverSocket = None\<rparr>, sys_open epoll_fd k))"

text \<open>
  \<^verbatim>\<open>start\<close> of a server that is not running, with the result of \<^verbatim>\<open>epoll_ctl\<close>.  When that call fails, the exception
  leaves the listening socket in its member.
\<close>

definition TcpServer_listen ::
  "server_handles \<Rightarrow> server_calls \<Rightarrow> int \<Rightarrow> kernel \<Rightarrow> unit result \<times> server_handles \<times> kernel" where
  "TcpServer_listen h rc epoll_ctl k =
     (case TcpServerSocket_ctor rc k of
        (Inl e, k') \<Rightarrow> (Inl e, h, k')
      | (Inr fd, k') \<Rightarrow>
          let h' = h\<lparr>m_serverSocket := Some fd\<rparr> in
          if epoll_ctl < 0 then (Inl (Thrown ''Failed to add server socket to epoll''), h', k')
          else (Inr (), h', k'))"

text \<open>
  What a notification means for the kernel: a connection is announced after it was accepted and its object
  was made, and it is announced to have ended when its object is about to be destroyed.
\<close>

definition connection_effect :: "int \<times> bool \<Rightarrow> kernel \<Rightarrow> kernel" where
  "connection_effect e k =
     (case e of (fd, connected) \<Rightarrow>
        if connected then snd (TcpClientConnection_ctor fd 0 0 (snd (acceptConnection fd k)))
        else TcpClientConnection_dtor fd k)"

definition reset_socket :: "int option \<Rightarrow> kernel \<Rightarrow> kernel" where
  "reset_socket s k = (case s of None \<Rightarrow> k | Some fd \<Rightarrow> TcpServerSocket_dtor fd k)"

text \<open>
  The destructor: \<^verbatim>\<open>stop\<close>, which does nothing unless the server runs, then the epoll instance, then the members.
  \<open>order\<close> lists the entries of the table as the loop of \<^verbatim>\<open>stop\<close> meets them.
\<close>

definition TcpServer_dtor :: "TcpServer \<Rightarrow> server_handles \<Rightarrow> int list \<Rightarrow> kernel \<Rightarrow> kernel" where
  "TcpServer_dtor sv h order k =
     (let k1 = (if m_running sv then reset_socket (m_serverSocket h) (fold TcpClientConnection_dtor order k) else k);
          k2 = (if m_epollFd h \<ge> 0 then sys_close (m_epollFd h) k1 else k1)
      in if m_running sv then k2 else reset_socket (m_serverSocket h) (fold TcpClientConnection_dtor order k2))"

section \<open>Notifications and open descriptors\<close>

text \<open>The kernel only accepts a connection under a descriptor that is not open.\<close>

fun accepts_fresh :: "kernel \<Rightarrow> (int \<times> bool) list \<Rightarrow> bool" where
  "accepts_fresh k [] \<longleftrightarrow> True"
| "accepts_fresh k (e # es) \<longleftrightarrow> (snd e \<longrightarrow> fresh (fst e) k) \<and> accepts_fresh (connection_effect e k) es"

lemma accepts_fresh_snoc:
  "accepts_fresh k (es @ [e]) \<longleftrightarrow> accepts_fresh k es \<and> (snd e \<longrightarrow> fresh (fst e) (fold connection_effect es k))"
  by (induction es arbitrary: k) auto

text \<open>Only connections that were announced end.\<close>

definition ends_announced :: "(int \<times> bool) list \<Rightarrow> bool" where
  "ends_announced es \<longleftrightarrow> (\<forall>i < length es. \<not> snd (es ! i) \<longrightarrow> announced (take i es) (fst (es ! i)))"

lemma ends_announced_snoc:
  "ends_announced (es @ [(fd, c)]) \<longleftrightarrow> ends_announced es \<and> (c \<or> announced es fd)"
  by (auto simp: ends_announced_def nth_append less_Suc_eq)

lemma connection_effect_open:
  "fresh fd k \<Longrightarrow> open_fds (connection_effect (fd, True) k) = insert fd (open_fds k)"
  "stray_closes (connection_effect (fd, True) k) = stray_closes k"
  by (simp_all add: connection_effect_def TcpClientConnection_ctor_def acceptConnection_def sys_open_def fresh_def)

lemma connection_effect_close:
  "0 \<le> fd \<Longrightarrow> fd \<in> open_fds k \<Longrightarrow> open_fds (connection_effect (fd, False) k) = open_fds k - {fd}"
  "0 \<le> fd \<Longrightarrow> fd \<in> open_fds k \<Longrightarrow> stray_closes (connection_effect (fd, False) k) = stray_closes k"
  by (simp_all add: connection_effect_def TcpClientConnection_dtor_def sys_close_def)

text \<open>Exactly the announced connections are open beside what was open before, and each was new.\<close>

lemma announced_open:
  assumes "accepts_fresh k es" and "ends_announced es"
  shows "open_fds (fold connection_effect es k) = open_fds k \<union> {fd. announced es fd} \<and>
    stray_closes (fold connection_effect es k) = stray_closes k \<and> (\<forall>fd. announced es fd \<longrightarrow> fresh fd k)"
  using assms
proof (induction es rule: rev_induct)
  case (snoc e es)
  obtain fd c where e: "e = (fd, c)" by (cases e)
  let ?k = "fold connection_effect es k"
  have IH: "open_fds ?k = open_fds k \<union> {fd. announced es fd}" "stray_closes ?k = stray_closes k"
    "\<forall>fd. announced es fd \<longrightarrow> fresh fd k"
    using snoc by (simp_all add: e accepts_fresh_snoc ends_announced_snoc)
  show ?case
  proof (cases c)
    case True
    then have "fresh fd ?k" using snoc.prems(1) by (simp add: e accepts_fresh_snoc)
    then show ?thesis
      using True IH connection_effect_open [of fd ?k] by (auto simp: e announced_snoc fresh_def)
  next
    case False
    then have "announced es fd" using snoc.prems(2) by (simp add: e ends_announced_snoc)
    then have "0 \<le> fd" "fd \<in> open_fds ?k" "fd \<notin> open_fds k" using IH by (auto simp: fresh_def)
    then show ?thesis
      using False IH connection_effect_close [of fd ?k] by (auto simp: e announced_snoc)
  qed
qed (auto simp: announced_def)

text \<open>The server ends only connections that are in its table, so only announced ones.\<close>

definition table_ends :: "TcpServer \<Rightarrow> bool" where
  "table_ends sv \<longleftrightarrow> m_running sv \<and> table_announced sv \<and> ends_announced (connection_events sv)"

lemma table_ends_remove: "table_ends sv \<Longrightarrow> table_ends (removeClient sv fd)"
  using announced_remove [of sv fd]
  by (auto simp: table_ends_def removeClient_def ends_announced_snoc table_announced_def split: option.splits)

lemma table_ends_accept: "table_ends sv \<Longrightarrow> table_ends (handleNewConnection sv accepted)"
proof (induction sv accepted rule: handleNewConnection.induct)
  case (2 sv fd nonblocking accepted)
  then show ?case
    by (auto simp: table_ends_def table_announced_def announced_snoc ends_announced_snoc split: if_splits)
qed simp

lemma table_ends_handler: "table_ends sv \<Longrightarrow> table_ends (handleSoupBinTcpMessage sv fd bytes)"
proof -
  assume sv: "table_ends sv"
  then have "table_ends (sendToClient sv fd b)" for b
    by (auto simp: table_ends_def table_announced_def sendToClient_def split: option.splits)
  then show ?thesis
    using sv table_ends_remove [OF sv] by (simp add: handleSoupBinTcpMessage_def Let_def disconnectClient_def)
qed

interpretation lifetime: server_handler handleSoupBinTcpMessage table_ends
  by unfold_locales (simp_all add: table_ends_handler table_ends_remove table_ends_accept)

lemma run_table_ends:
  assumes "exchange_emulator socket_ok epoll_ok rs = Inr sv"
  shows "table_ends sv"
proof -
  obtain sv0 where sv0: "TcpServer_start TcpServer_ctor socket_ok epoll_ok = Inr sv0"
    "serverLoop handleSoupBinTcpMessage sv0 rs = Inr sv"
    using assms by (auto simp: exchange_emulator_def res_bind_Inr_iff)
  then have "table_ends sv0"
    by (auto simp: TcpServer_start_def TcpServer_ctor_def table_ends_def table_announced_def
        announced_def ends_announced_def split: if_splits)
  then show ?thesis by (rule lifetime.keeps_loop [OF _ sv0(2)])
qed

text \<open>Closing distinct open descriptors leaves the others.\<close>

lemma close_connections:
  "distinct fds \<Longrightarrow> \<forall>fd \<in> set fds. 0 \<le> fd \<and> fd \<in> open_fds k \<Longrightarrow>
   open_fds (fold TcpClientConnection_dtor fds k) = open_fds k - set fds \<and>
   stray_closes (fold TcpClientConnection_dtor fds k) = stray_closes k"
proof (induction fds arbitrary: k)
  case (Cons fd fds)
  have "open_fds (TcpClientConnection_dtor fd k) = open_fds k - {fd}"
    "stray_closes (TcpClientConnection_dtor fd k) = stray_closes k"
    using Cons.prems(2) by (simp_all add: TcpClientConnection_dtor_def sys_close_def)
  then show ?case using Cons.IH [of "TcpClientConnection_dtor fd k"] Cons.prems by auto
qed simp

lemma close_listener:
  "0 \<le> fd \<Longrightarrow> fd \<in> open_fds k \<Longrightarrow> open_fds (TcpServerSocket_dtor fd k) = open_fds k - {fd}"
  "0 \<le> fd \<Longrightarrow> fd \<in> open_fds k \<Longrightarrow> stray_closes (TcpServerSocket_dtor fd k) = stray_closes k"
  by (simp_all add: TcpServerSocket_dtor_def sys_close_def)

lemma listen_opens:
  assumes "TcpServer_listen h rc epoll_ctl k = (Inr (), h', k')" and "fresh (rc_socket rc) k"
  shows "h' = h\<lparr>m_serverSocket := Some (rc_socket rc)\<rparr> \<and> open_fds k' = insert (rc_socket rc) (open_fds k) \<and>
    stray_closes k' = stray_closes k"
proof -
  obtain fd where "TcpServerSocket_ctor rc k = (Inr fd, k')" "h' = h\<lparr>m_serverSocket := Some fd\<rparr>"
    using assms(1) by (auto simp: TcpServer_listen_def Let_def split: prod.splits sum.splits if_splits)
  then show ?thesis using server_socket.created [OF _ assms(2), of fd k'] by simp
qed

section \<open>Properties\<close>



end
