(* ===== verification/Epoll.thy ===== *)
theory Epoll
  imports Exchange_Emulator
begin

text \<open>
  Which connections \<^verbatim>\<open>TcpServer\<close> (\<^verbatim>\<open>src/lib/network/tcp_server.cpp\<close>) is told about: the descriptors that are registered
  with its epoll instance.  The kernel reports events for registered descriptors only, and accepts connections under
  descriptors that are not in use.  A failed registration is logged and otherwise ignored; the lemmas show what
  becomes of such a connection, and that without one the table and the registrations agree.
\<close>

section \<open>Registrations\<close>

record epoll_server =
  es_server :: TcpServer
  es_interest :: "int set"

text \<open>\<open>rc\<close> is the result of \<^verbatim>\<open>epoll_ctl\<close>.\<close>

definition addClientToEpoll :: "epoll_server \<Rightarrow> int \<Rightarrow> int \<Rightarrow> epoll_server" where
  "addClientToEpoll es client_fd rc =
     (if rc < 0 then es else es\<lparr>es_interest := insert client_fd (es_interest es)\<rparr>)"

text \<open>The table, the registration and the notification of one connection.\<close>

definition accept_client :: "epoll_server \<Rightarrow> int \<Rightarrow> int \<Rightarrow> epoll_server" where
  "accept_client es client_fd rc =
     (let es1 = es\<lparr>es_server := (es_server es)\<lparr>m_clients := (m_clients (es_server es))(client_fd \<mapsto> [])\<rparr>\<rparr>;
          es2 = addClientToEpoll es1 client_fd rc
      in es2\<lparr>es_server := (es_server es2)\<lparr>connection_events := connection_events (es_server es2) @ [(client_fd, True)]\<rparr>\<rparr>)"

text \<open>
  \<^verbatim>\<open>handleNewConnection\<close>: the descriptors of \<^verbatim>\<open>accept\<close>, whether each could be made non-blocking, and the result of its
  registration.
\<close>

fun epoll_accept :: "epoll_server \<Rightarrow> (int \<times> bool \<times> int) list \<Rightarrow> epoll_server" where
  "epoll_accept es [] = es"
| "epoll_accept es ((client_fd, nonblocking, rc) # accepted) =
     (if client_fd < 0 then es
      else if \<not> nonblocking then epoll_accept es accepted
      else epoll_accept (accept_client es client_fd rc) accepted)"

text \<open>\<^verbatim>\<open>removeClient\<close> takes the descriptor out of the epoll instance together with the entry of the table.\<close>

definition forget_removed :: "epoll_server \<Rightarrow> TcpServer \<Rightarrow> epoll_server" where
  "forget_removed es sv =
     \<lparr>es_server = sv, es_interest = es_interest es - (dom (m_clients (es_server es)) - dom (m_clients sv))\<rparr>"

inductive epoll_step :: "epoll_server \<Rightarrow> epoll_server \<Rightarrow> bool" where
  accepts: "\<forall>(fd, nonblocking, rc) \<in> set accepted. m_clients (es_server es) fd = None \<Longrightarrow> epoll_step es (epoll_accept es accepted)"
| ready: "fd \<in> es_interest es \<Longrightarrow>
    server_event handleSoupBinTcpMessage (es_server es) (ClientEvent fd readable rs hangup) = Inr sv \<Longrightarrow>
    epoll_step es (forget_removed es sv)"

section \<open>Lemmas\<close>

lemma accept_client_simps [simp]:
  "es_server (accept_client es fd rc) = (es_server es)\<lparr>m_clients := (m_clients (es_server es))(fd \<mapsto> []),
     connection_events := connection_events (es_server es) @ [(fd, True)]\<rparr>"
  "es_interest (accept_client es fd rc) = (if rc < 0 then es_interest es else insert fd (es_interest es))"
  by (simp_all add: accept_client_def addClientToEpoll_def Let_def)

text \<open>The server of the previous theory is the projection.\<close>

lemma epoll_accept_server:
  "es_server (epoll_accept es accepted) = handleNewConnection (es_server es) (map (\<lambda>(fd, nb, rc). (fd, nb)) accepted)"
  by (induction es accepted rule: epoll_accept.induct) auto

lemma event_other:
  assumes "server_event handleSoupBinTcpMessage sv (ClientEvent fd readable rs hangup) = Inr sv'" and "fd' \<noteq> fd"
  shows "m_clients sv' fd' = m_clients sv fd'"
proof -
  have "m_clients sv1 fd' = m_clients sv fd'" if "handleClientData_loop handleSoupBinTcpMessage sv fd rs = Inr sv1" for sv1
    using handleClientData_other [of handleSoupBinTcpMessage fd fd' sv rs sv1] handler_other assms(2) that by blast
  then show ?thesis
    using assms(1) removeClient_other [OF assms(2)] by (fastforce simp: res_bind_Inr_iff handleClientData_def split: if_splits)
qed

lemma accept_other:
  "\<forall>(fd', nonblocking, rc) \<in> set accepted. fd' \<noteq> fd \<Longrightarrow>
   m_clients (es_server (epoll_accept es accepted)) fd = m_clients (es_server es) fd \<and>
   (fd \<in> es_interest (epoll_accept es accepted) \<longleftrightarrow> fd \<in> es_interest es)"
  by (induction es accepted rule: epoll_accept.induct) auto

lemma unwatched_step:
  assumes "epoll_step es es'" and "m_clients (es_server es) fd = Some written" and "fd \<notin> es_interest es"
  shows "m_clients (es_server es') fd = Some written \<and> fd \<notin> es_interest es'"
  using assms(1)
proof cases
  case (accepts accepted)
  then have "\<forall>(fd', nonblocking, rc) \<in> set accepted. fd' \<noteq> fd" using assms(2) by auto
  then show ?thesis using accept_other [of accepted fd es] accepts(1) assms(2,3) by simp
next
  case (ready fd' readable rs hangup sv)
  then have "fd' \<noteq> fd" using assms(3) by auto
  then show ?thesis using event_other [OF ready(3), of fd] ready(1) assms(2,3) by (simp add: forget_removed_def)
qed

lemma unwatched_run:
  "epoll_step\<^sup>*\<^sup>* es es' \<Longrightarrow> m_clients (es_server es) fd = Some written \<Longrightarrow> fd \<notin> es_interest es \<Longrightarrow>
   m_clients (es_server es') fd = Some written \<and> fd \<notin> es_interest es'"
  by (induction rule: rtranclp_induct) (auto dest: unwatched_step)

text \<open>The other way round, every registered descriptor has its entry.\<close>

lemma registered_accept: "es_interest es \<subseteq> dom (m_clients (es_server es)) \<Longrightarrow>
  es_interest (epoll_accept es accepted) \<subseteq> dom (m_clients (es_server (epoll_accept es accepted)))"
proof (induction es accepted rule: epoll_accept.induct)
  case (2 es fd nonblocking rc accepted)
  have "es_interest (accept_client es fd rc) \<subseteq> dom (m_clients (es_server (accept_client es fd rc)))"
    using "2.prems" by auto
  then show ?case using 2 by (simp del: accept_client_simps)
qed simp

lemma registered_step: "epoll_step es es' \<Longrightarrow> es_interest es \<subseteq> dom (m_clients (es_server es)) \<Longrightarrow>
  es_interest es' \<subseteq> dom (m_clients (es_server es'))"
proof (induction rule: epoll_step.induct)
  case (accepts accepted es)
  then show ?case by (intro registered_accept)
qed (auto simp: forget_removed_def)

section \<open>Properties\<close>

text \<open>Events are only reported for connections of the table: the branch for an unknown client is never taken.\<close>

theorem events_for_known_clients:
  assumes "epoll_step\<^sup>*\<^sup>* \<lparr>es_server = TcpServer_ctor, es_interest = {}\<rparr> es" and "fd \<in> es_interest es"
  shows "m_clients (es_server es) fd \<noteq> None"
proof -
  from assms(1) have "es_interest es \<subseteq> dom (m_clients (es_server es))"
    by (induction rule: rtranclp_induct) (simp, rule registered_step)
  then show ?thesis using assms(2) by auto
qed

text \<open>
  A connection whose registration with epoll fails is announced and kept in the table, but whatever happens
  afterwards, nothing it sends is read, nothing is sent to it in reply, and it is never removed.
\<close>

theorem failed_registration_orphans_client:
  assumes "0 \<le> fd" and "rc < 0" and "m_clients (es_server es) fd = None" and "fd \<notin> es_interest es"
    and "epoll_step\<^sup>*\<^sup>* (epoll_accept es [(fd, True, rc)]) es'"
  shows "(fd, True) \<in> set (connection_events (es_server (epoll_accept es [(fd, True, rc)]))) \<and>
    m_clients (es_server es') fd = Some [] \<and> fd \<notin> es_interest es'"
  using unwatched_run [OF assms(5), of fd "[]"] assms(1,2,4) by simp

theorem failed_registration_orphans_client_witness:
  "let es = \<lparr>es_server = TcpServer_ctor\<lparr>m_running := True\<rparr>, es_interest = {}\<rparr>;
       es' = epoll_accept (epoll_accept es [(5, True, -1)]) [(6, True, 0)]
   in epoll_step (epoll_accept es [(5, True, -1)]) es' \<and> m_clients (es_server es') 5 = Some [] \<and> 5 \<notin> es_interest es'"
proof -
  let ?es = "\<lparr>es_server = TcpServer_ctor\<lparr>m_running := True\<rparr>, es_interest = {}\<rparr>"
  have "epoll_step (epoll_accept ?es [(5, True, -1)]) (epoll_accept (epoll_accept ?es [(5, True, -1)]) [(6, True, 0)])"
    by (rule epoll_step.accepts) (simp add: TcpServer_ctor_def)
  then show ?thesis
    using failed_registration_orphans_client [of 5 "-1" ?es "epoll_accept (epoll_accept ?es [(5, True, -1)]) [(6, True, 0)]"]
    by (auto simp: Let_def TcpServer_ctor_def simp del: epoll_accept.simps)
qed

end
