(* ===== verification/Config_Parser.thy ===== *)
theory Config_Parser
  imports Prelude
begin

text \<open>
  \<^verbatim>\<open>src/lib/utility/config_parser.hpp\<close>: reading the configuration and the saved parameters.  The JSON
  library is an argument: a record of the operations the parser calls on a parsed document.  The file
  is an argument as well: \<open>None\<close> when it cannot be opened, and otherwise what parsing it gives.
\<close>

section \<open>The JSON library\<close>

record 'j json_lib =
  js_contains :: "'j \<Rightarrow> string \<Rightarrow> bool"
  js_at :: "'j \<Rightarrow> string \<Rightarrow> 'j result"
  js_elements :: "'j \<Rightarrow> 'j list"
  js_is_number_integer :: "'j \<Rightarrow> bool"
  js_bool :: "'j \<Rightarrow> bool result"
  js_string :: "'j \<Rightarrow> byte list result"
  js_u16 :: "'j \<Rightarrow> u16 result"
  js_u32 :: "'j \<Rightarrow> u32 result"
  js_int :: "'j \<Rightarrow> i32 result"

definition get_field :: "'j json_lib \<Rightarrow> ('j \<Rightarrow> 'a result) \<Rightarrow> 'j \<Rightarrow> string \<Rightarrow> 'a result" where
  "get_field lib conv j key = res_bind (js_at lib j key) conv"

section \<open>Configuration data\<close>

datatype InstrumentType = Equity | Derivative

record MarketDataPartitionConfig =
  mdp_name :: "byte list"
  mdp_instrumentType :: InstrumentType
  mdp_multicast_ip :: "byte list"
  mdp_multicast_port :: u16
  mdp_multicast_interface_ip :: "byte list"
  mdp_unicast_request_ip :: "byte list"
  mdp_unicast_request_port :: u16
  mdp_unicast_destination_ip :: "byte list"
  mdp_unicast_destination_port :: u16
  mdp_cpu :: i32

record OrderEntryPartitionConfig =
  oep_name :: "byte list"
  oep_instrumentType :: InstrumentType
  oep_ip :: "byte list"
  oep_port :: u16
  oep_port_str :: "byte list"
  oep_username :: "byte list"
  oep_password :: "byte list"

record OrderEntryConfig =
  oe_client_account :: "byte list"
  oe_exchange_info :: "byte list"
  oe_partition_configs :: "OrderEntryPartitionConfig list"

text \<open>The saved token index has no value before it is read.\<close>

record ConfigParser =
  m_marketDataConfig :: "MarketDataPartitionConfig list"
  m_orderEntryConfig :: OrderEntryConfig
  last_used_token_index :: "u32 option"

definition ConfigParser_ctor :: ConfigParser where
  "ConfigParser_ctor =
     \<lparr>m_marketDataConfig = [],
      m_orderEntryConfig = \<lparr>oe_client_account = [], oe_exchange_info = [], oe_partition_configs = []\<rparr>,
      last_used_token_index = None\<rparr>"

section \<open>Operations\<close>

definition parseAppParameters ::
  "'j json_lib \<Rightarrow> ConfigParser \<Rightarrow> 'j result option \<Rightarrow> (ConfigParser \<times> bool) result" where
  "parseAppParameters lib cp file =
     (case file of
        None \<Rightarrow> Inr (cp, False)
      | Some (Inl e) \<Rightarrow> Inr (cp, False)
      | Some (Inr j) \<Rightarrow>
          res_bind
            (if js_contains lib j ''last_used_order_token_index''
             then get_field lib (\<lambda>v. Inr (js_is_number_integer lib v)) j ''last_used_order_token_index''
             else Inr False)
            (\<lambda>ok. if ok
                  then res_bind (get_field lib (js_u32 lib) j ''last_used_order_token_index'')
                         (\<lambda>v. Inr (cp\<lparr>last_used_token_index := Some v\<rparr>, True))
                  else Inr (cp, False)))"

text \<open>
  The arguments of a log statement are evaluated when its level is enabled (\<open>info\<close>); here they look up
  and convert the name of the partition.
\<close>

definition log_name :: "'j json_lib \<Rightarrow> bool \<Rightarrow> 'j \<Rightarrow> unit result" where
  "log_name lib info j =
     (if info then res_bind (get_field lib (js_string lib) j ''name'') (\<lambda>_. Inr ()) else Inr ())"

definition is_active :: "'j json_lib \<Rightarrow> 'j \<Rightarrow> bool result" where
  "is_active lib j =
     (if js_contains lib j ''is_active'' then get_field lib (js_bool lib) j ''is_active'' else Inr True)"

definition market_partition ::
  "'j json_lib \<Rightarrow> 'j \<Rightarrow> InstrumentType \<Rightarrow> 'j \<Rightarrow> MarketDataPartitionConfig result" where
  "market_partition lib instrument_json type part =
     res_bind (get_field lib (js_string lib) part ''name'') (\<lambda>name.
     res_bind (get_field lib (js_string lib) instrument_json ''itch_multicast_ip'') (\<lambda>multicast_ip.
     res_bind (get_field lib (js_string lib) instrument_json ''itch_multicast_interface_ip'') (\<lambda>interface_ip.
     res_bind (get_field lib (js_string lib) instrument_json ''rewinder_unicast_request_ip'') (\<lambda>request_ip.
     res_bind (get_field lib (js_string lib) instrument_json ''rewinder_unicast_destination_ip'') (\<lambda>destination_ip.
     res_bind (get_field lib (js_u16 lib) part ''multicast_port'') (\<lambda>multicast_port.
     res_bind (get_field lib (js_u16 lib) part ''unicast_request_port'') (\<lambda>request_port.
     res_bind (get_field lib (js_u16 lib) part ''unicast_destination_port'') (\<lambda>destination_port.
     res_bind (get_field lib (js_int lib) part ''cpu'') (\<lambda>cpu.
       Inr \<lparr>mdp_name = name, mdp_instrumentType = type, mdp_multicast_ip = multicast_ip,
            mdp_multicast_port = multicast_port, mdp_multicast_interface_ip = interface_ip,
            mdp_unicast_request_ip = request_ip, mdp_unicast_request_port = request_port,
            mdp_unicast_destination_ip = destination_ip, mdp_unicast_destination_port = destination_port,
            mdp_cpu = cpu\<rparr>)))))))))"

fun parseInstrumentConfig_loop ::
  "'j json_lib \<Rightarrow> bool \<Rightarrow> 'j \<Rightarrow> InstrumentType \<Rightarrow> ConfigParser \<Rightarrow> 'j list \<Rightarrow> (ConfigParser \<times> bool) result" where
  "parseInstrumentConfig_loop lib info instrument_json type cp [] = Inr (cp, True)"
| "parseInstrumentConfig_loop lib info instrument_json type cp (part # partitions) =
     res_bind (is_active lib part) (\<lambda>active.
     res_bind (log_name lib info part) (\<lambda>_.
       if \<not> active then parseInstrumentConfig_loop lib info instrument_json type cp partitions
       else if \<not> js_contains lib part ''name'' \<or> \<not> js_contains lib part ''multicast_port''
          \<or> \<not> js_contains lib part ''unicast_request_port''
          \<or> \<not> js_contains lib part ''unicast_destination_port'' \<or> \<not> js_contains lib part ''cpu''
       then Inr (cp, False)
       else res_bind (market_partition lib instrument_json type part) (\<lambda>config.
              parseInstrumentConfig_loop lib info instrument_json type
                (cp\<lparr>m_marketDataConfig := m_marketDataConfig cp @ [config]\<rparr>) partitions)))"

definition parseInstrumentConfig ::
  "'j json_lib \<Rightarrow> bool \<Rightarrow> ConfigParser \<Rightarrow> 'j \<Rightarrow> InstrumentType \<Rightarrow> string \<Rightarrow> (ConfigParser \<times> bool) result" where
  "parseInstrumentConfig lib info cp market_data type key =
     (if \<not> js_contains lib market_data key then Inr (cp, False)
      else res_bind (js_at lib market_data key) (\<lambda>instrument_json.
        if \<not> js_contains lib instrument_json ''partitions'' then Inr (cp, False)
        else res_bind (js_at lib instrument_json ''partitions'') (\<lambda>partitions.
          parseInstrumentConfig_loop lib info instrument_json type cp (js_elements lib partitions))))"

definition order_entry_partition :: "'j json_lib \<Rightarrow> string \<Rightarrow> 'j \<Rightarrow> OrderEntryPartitionConfig result" where
  "order_entry_partition lib key entry_json =
     res_bind (get_field lib (js_string lib) entry_json ''name'') (\<lambda>name.
     res_bind (get_field lib (js_string lib) entry_json ''ip'') (\<lambda>ip.
     res_bind (get_field lib (js_u16 lib) entry_json ''port'') (\<lambda>port.
     res_bind (get_field lib (js_string lib) entry_json ''username'') (\<lambda>username.
     res_bind (get_field lib (js_string lib) entry_json ''password'') (\<lambda>password.
       Inr \<lparr>oep_name = name, oep_instrumentType = (if key = ''equity'' then Equity else Derivative),
            oep_ip = ip, oep_port = port, oep_port_str = [], oep_username = username,
            oep_password = password\<rparr>)))))"

fun parseOrderEntryConfig_loop ::
  "'j json_lib \<Rightarrow> bool \<Rightarrow> 'j \<Rightarrow> ConfigParser \<Rightarrow> string list \<Rightarrow> (ConfigParser \<times> bool) result" where
  "parseOrderEntryConfig_loop lib info order_entry cp [] = Inr (cp, True)"
| "parseOrderEntryConfig_loop lib info order_entry cp (key # keys) =
     (if \<not> js_contains lib order_entry key then Inr (cp, False)
      else res_bind (js_at lib order_entry key) (\<lambda>entry_json.
           res_bind (is_active lib entry_json) (\<lambda>active.
           res_bind (log_name lib info entry_json) (\<lambda>_.
             if \<not> active then parseOrderEntryConfig_loop lib info order_entry cp keys
             else if \<not> js_contains lib entry_json ''name'' \<or> \<not> js_contains lib entry_json ''ip''
                \<or> \<not> js_contains lib entry_json ''port'' \<or> \<not> js_contains lib entry_json ''username''
                \<or> \<not> js_contains lib entry_json ''password''
             then Inr (cp, False)
             else res_bind (order_entry_partition lib key entry_json) (\<lambda>config.
                    parseOrderEntryConfig_loop lib info order_entry
                      (cp\<lparr>m_orderEntryConfig := (m_orderEntryConfig cp)
                           \<lparr>oe_partition_configs := oe_partition_configs (m_orderEntryConfig cp) @ [config]\<rparr>\<rparr>) keys)))))"

definition parseOrderEntryConfig ::
  "'j json_lib \<Rightarrow> bool \<Rightarrow> ConfigParser \<Rightarrow> 'j \<Rightarrow> (ConfigParser \<times> bool) result" where
  "parseOrderEntryConfig lib info cp order_entry =
     (if \<not> js_contains lib order_entry ''client_account'' \<or> \<not> js_contains lib order_entry ''exchange_info''
      then Inr (cp, False)
      else
        res_bind (get_field lib (js_string lib) order_entry ''client_account'') (\<lambda>client_account.
        res_bind (get_field lib (js_string lib) order_entry ''exchange_info'') (\<lambda>exchange_info.
          parseOrderEntryConfig_loop lib info order_entry
            (cp\<lparr>m_orderEntryConfig := (m_orderEntryConfig cp)
                 \<lparr>oe_client_account := client_account, oe_exchange_info := exchange_info\<rparr>\<rparr>)
            [''equity'', ''derivative''])))"

text \<open>A step that returned \<^verbatim>\<open>false\<close> ends the parse.\<close>

definition then_parse ::
  "(ConfigParser \<times> bool) result \<Rightarrow> (ConfigParser \<Rightarrow> (ConfigParser \<times> bool) result) \<Rightarrow> (ConfigParser \<times> bool) result" where
  "then_parse r f = res_bind r (\<lambda>(cp, ok). if ok then f cp else Inr (cp, False))"

definition parseConfig ::
  "'j json_lib \<Rightarrow> bool \<Rightarrow> ConfigParser \<Rightarrow> 'j result option \<Rightarrow> (ConfigParser \<times> bool) result" where
  "parseConfig lib info cp file =
     (case file of
        None \<Rightarrow> Inr (cp, False)
      | Some (Inl e) \<Rightarrow> Inr (cp, False)
      | Some (Inr j) \<Rightarrow>
          if \<not> js_contains lib j ''market_data'' \<or> \<not> js_contains lib j ''order_entry'' then Inr (cp, False)
          else
            res_bind (js_at lib j ''market_data'') (\<lambda>market_data.
              then_parse (parseInstrumentConfig lib info cp market_data Equity ''equity'') (\<lambda>cp.
              then_parse (parseInstrumentConfig lib info cp market_data Derivative ''derivative'') (\<lambda>cp.
                res_bind (js_at lib j ''order_entry'') (\<lambda>order_entry.
                  parseOrderEntryConfig lib info cp order_entry)))))"

section \<open>Access and printing\<close>

definition getMarketDataPartitionConfigs :: "ConfigParser \<Rightarrow> MarketDataPartitionConfig list" where
  "getMarketDataPartitionConfigs cp = m_marketDataConfig cp"

definition getOrderEntryConfig :: "ConfigParser \<Rightarrow> OrderEntryConfig" where
  "getOrderEntryConfig cp = m_orderEntryConfig cp"

definition getAppParameters :: "ConfigParser \<Rightarrow> u32 option" where
  "getAppParameters cp = last_used_token_index cp"

text \<open>
  The formatting library is an argument, \<open>fmt\<close>; a format string has one \<^verbatim>\<open>{}\<close> for each of its arguments.  \<open>printConfig\<close>
  gives the format strings and arguments that it hands to the logger.
\<close>

datatype fmt_arg = FmtStr "byte list" | FmtInt int

definition instrument_name :: "InstrumentType \<Rightarrow> byte list" where
  "instrument_name t = map ascii (if t = Equity then ''Equity'' else ''Derivative'')"

definition market_partition_args :: "MarketDataPartitionConfig \<Rightarrow> fmt_arg list" where
  "market_partition_args c =
     [FmtStr (mdp_name c), FmtStr (instrument_name (mdp_instrumentType c)), FmtStr (mdp_multicast_ip c),
      FmtInt (uint (mdp_multicast_port c)), FmtStr (mdp_multicast_interface_ip c), FmtStr (mdp_unicast_request_ip c),
      FmtInt (uint (mdp_unicast_request_port c)), FmtStr (mdp_unicast_destination_ip c),
      FmtInt (uint (mdp_unicast_destination_port c)), FmtInt (mdp_cpu c)]"

definition MarketDataPartitionConfig_toString ::
  "(string \<Rightarrow> fmt_arg list \<Rightarrow> byte list) \<Rightarrow> MarketDataPartitionConfig \<Rightarrow> byte list" where
  "MarketDataPartitionConfig_toString fmt c =
     fmt (''Name: {}, Type: {}, Multicast IP: {}, Multicast Port: {}, '' @
          ''Multicast Interface IP: {}, Unicast Request IP: {}, '' @
          ''Unicast Request Port: {}, Unicast Destination IP: {}, '' @
          ''Unicast Destination Port: {}, CPU: {}'')
       (market_partition_args c)"

definition entry_partition_args :: "OrderEntryPartitionConfig \<Rightarrow> fmt_arg list" where
  "entry_partition_args c =
     [FmtStr (oep_name c), FmtStr (instrument_name (oep_instrumentType c)), FmtStr (oep_ip c), FmtInt (uint (oep_port c)),
      FmtStr (oep_username c), FmtStr (oep_password c)]"

definition OrderEntryPartitionConfig_toString ::
  "(string \<Rightarrow> fmt_arg list \<Rightarrow> byte list) \<Rightarrow> OrderEntryPartitionConfig \<Rightarrow> byte list" where
  "OrderEntryPartitionConfig_toString fmt c =
     fmt ''Name: {}, Type: {}, IP: {}, Port: {}, Username: {}, Password: {}'' (entry_partition_args c)"

definition printConfig :: "ConfigParser \<Rightarrow> (string \<times> fmt_arg list) list" where
  "printConfig cp =
     map (\<lambda>partition. (''Market Data Partition: {}, Type: {}, Multicast IP: {}, Port: {}, Interface IP: {}, '' @
         ''Unicast Request IP: {}, Request Port: {}, Destination IP: {}, Destination Port: {}, CPU: {}'',
         market_partition_args partition)) (m_marketDataConfig cp) @
     [(''Client Account: {}'', [FmtStr (oe_client_account (m_orderEntryConfig cp))]),
      (''Exchange Info: {}'', [FmtStr (oe_exchange_info (m_orderEntryConfig cp))])] @
     map (\<lambda>entry. (''Order Entry Partition: {}, Type: {}, IP: {}, Port: {}, Username: {}, Password: {}'',
         entry_partition_args entry)) (oe_partition_configs (m_orderEntryConfig cp))"

fun placeholders :: "string \<Rightarrow> nat" where
  "placeholders (a # b # s) = (if a = CHR ''{'' \<and> b = CHR ''}'' then Suc (placeholders s) else placeholders (b # s))"
| "placeholders _ = 0"

text \<open>Every line that is printed has an argument for each of its placeholders.\<close>

lemma printConfig_formats: "list_all (\<lambda>(format, args). placeholders format = length args) (printConfig cp)"
  by (auto simp: printConfig_def list_all_iff market_partition_args_def entry_partition_args_def)

section \<open>What a successful parse has read\<close>

text \<open>The active elements of a list of partitions, and the configuration that belongs to one.\<close>

definition active_elements :: "'j json_lib \<Rightarrow> 'j list \<Rightarrow> 'j list" where
  "active_elements lib = filter (\<lambda>j. is_active lib j = Inr True)"

definition reads_partition ::
  "'j json_lib \<Rightarrow> 'j \<Rightarrow> InstrumentType \<Rightarrow> 'j \<Rightarrow> MarketDataPartitionConfig \<Rightarrow> bool" where
  "reads_partition lib instrument_json type p c \<longleftrightarrow>
     mdp_instrumentType c = type \<and>
     get_field lib (js_string lib) p ''name'' = Inr (mdp_name c) \<and>
     get_field lib (js_u16 lib) p ''multicast_port'' = Inr (mdp_multicast_port c) \<and>
     get_field lib (js_u16 lib) p ''unicast_request_port'' = Inr (mdp_unicast_request_port c) \<and>
     get_field lib (js_u16 lib) p ''unicast_destination_port'' = Inr (mdp_unicast_destination_port c) \<and>
     get_field lib (js_int lib) p ''cpu'' = Inr (mdp_cpu c) \<and>
     get_field lib (js_string lib) instrument_json ''itch_multicast_ip'' = Inr (mdp_multicast_ip c) \<and>
     get_field lib (js_string lib) instrument_json ''itch_multicast_interface_ip'' = Inr (mdp_multicast_interface_ip c) \<and>
     get_field lib (js_string lib) instrument_json ''rewinder_unicast_request_ip'' = Inr (mdp_unicast_request_ip c) \<and>
     get_field lib (js_string lib) instrument_json ''rewinder_unicast_destination_ip'' = Inr (mdp_unicast_destination_ip c)"

text \<open>The partitions of one kind of instrument in a market data section.\<close>

definition partitions_of :: "'j json_lib \<Rightarrow> 'j \<Rightarrow> string \<Rightarrow> ('j \<times> 'j list) option" where
  "partitions_of lib market_data key =
     (case js_at lib market_data key of
        Inl e \<Rightarrow> None
      | Inr inst \<Rightarrow> (case js_at lib inst ''partitions'' of
            Inl e \<Rightarrow> None | Inr ps \<Rightarrow> Some (inst, js_elements lib ps)))"

lemma market_partition_reads:
  "market_partition lib inst type p = Inr c \<Longrightarrow> reads_partition lib inst type p c"
  by (auto simp: market_partition_def reads_partition_def res_bind_Inr_iff)

lemma partitions_loop:
  "parseInstrumentConfig_loop lib info inst type cp ps = Inr (cp', True) \<Longrightarrow>
   \<exists>cs. cp' = cp\<lparr>m_marketDataConfig := m_marketDataConfig cp @ cs\<rparr> \<and>
     list_all2 (reads_partition lib inst type) (active_elements lib ps) cs"
proof (induction ps arbitrary: cp)
  case Nil
  then show ?case by (intro exI [of _ "[]"]) (simp add: active_elements_def)
next
  case (Cons p ps)
  then obtain active where active: "is_active lib p = Inr active"
    by (auto simp: res_bind_Inr_iff)
  show ?case
  proof (cases active)
    case False
    then show ?thesis
      using Cons.prems active Cons.IH [of cp] by (auto simp: res_bind_Inr_iff active_elements_def)
  next
    case True
    then obtain c where c: "market_partition lib inst type p = Inr c"
      "parseInstrumentConfig_loop lib info inst type (cp\<lparr>m_marketDataConfig := m_marketDataConfig cp @ [c]\<rparr>) ps = Inr (cp', True)"
      using Cons.prems active by (auto simp: res_bind_Inr_iff split: if_splits)
    obtain cs where "cp' = cp\<lparr>m_marketDataConfig := m_marketDataConfig cp @ c # cs\<rparr>"
      "list_all2 (reads_partition lib inst type) (active_elements lib ps) cs"
      using Cons.IH [OF c(2)] by auto
    then show ?thesis
      using market_partition_reads [OF c(1)] active True
      by (intro exI [of _ "c # cs"]) (simp add: active_elements_def)
  qed
qed

lemma parseInstrumentConfig_reads:
  assumes "parseInstrumentConfig lib info cp market_data type key = Inr (cp', True)"
  shows "\<exists>inst ps cs. partitions_of lib market_data key = Some (inst, ps) \<and>
    cp' = cp\<lparr>m_marketDataConfig := m_marketDataConfig cp @ cs\<rparr> \<and>
    list_all2 (reads_partition lib inst type) (active_elements lib ps) cs"
proof -
  obtain inst ps where at: "js_at lib market_data key = Inr inst" "js_at lib inst ''partitions'' = Inr ps"
    and loop: "parseInstrumentConfig_loop lib info inst type cp (js_elements lib ps) = Inr (cp', True)"
    using assms by (auto simp: parseInstrumentConfig_def res_bind_Inr_iff split: if_splits)
  then show ?thesis using partitions_loop [OF loop] by (auto simp: partitions_of_def)
qed

lemma orderEntry_loop_frame:
  "parseOrderEntryConfig_loop lib info oe cp keys = Inr (cp', ok) \<Longrightarrow>
   m_marketDataConfig cp' = m_marketDataConfig cp \<and>
   (\<exists>new. oe_partition_configs (m_orderEntryConfig cp') = oe_partition_configs (m_orderEntryConfig cp) @ new \<and>
      (\<forall>c \<in> set new. oep_port_str c = []))"
proof (induction keys arbitrary: cp)
  case (Cons key keys)
  show ?case
  proof (cases "parseOrderEntryConfig_loop lib info oe cp keys = Inr (cp', ok) \<or> cp' = cp")
    case True
    then show ?thesis using Cons.IH [of cp] by auto
  next
    case False
    then obtain e c where c: "order_entry_partition lib key e = Inr c"
      "parseOrderEntryConfig_loop lib info oe (cp\<lparr>m_orderEntryConfig := (m_orderEntryConfig cp)
         \<lparr>oe_partition_configs := oe_partition_configs (m_orderEntryConfig cp) @ [c]\<rparr>\<rparr>) keys = Inr (cp', ok)"
      using Cons.prems by (auto simp: res_bind_Inr_iff split: if_splits)
    then show ?thesis
      using Cons.IH [OF c(2)] by (auto simp: order_entry_partition_def res_bind_Inr_iff)
  qed
qed simp

lemma parseOrderEntryConfig_frame:
  assumes "parseOrderEntryConfig lib info cp oe = Inr (cp', ok)"
  shows "m_marketDataConfig cp' = m_marketDataConfig cp"
proof (cases "js_contains lib oe ''client_account'' \<and> js_contains lib oe ''exchange_info''")
  case True
  then obtain a x where "parseOrderEntryConfig_loop lib info oe
      (cp\<lparr>m_orderEntryConfig := (m_orderEntryConfig cp)\<lparr>oe_client_account := a, oe_exchange_info := x\<rparr>\<rparr>)
      [''equity'', ''derivative''] = Inr (cp', ok)"
    using assms unfolding parseOrderEntryConfig_def by (auto simp only: res_bind_Inr_iff if_False simp_thms)
  from orderEntry_loop_frame [OF this] show ?thesis by simp
next
  case False
  then show ?thesis using assms by (auto simp: parseOrderEntryConfig_def)
qed

definition named_inactive :: "'j json_lib \<Rightarrow> 'j \<Rightarrow> bool" where
  "named_inactive lib j \<longleftrightarrow>
     is_active lib j = Inr False \<and> (\<exists>name. get_field lib (js_string lib) j ''name'' = Inr name)"

lemma skip_inactive:
  "\<forall>q \<in> set inactive. named_inactive lib q \<Longrightarrow>
   parseInstrumentConfig_loop lib info inst type cp (inactive @ ps) =
   parseInstrumentConfig_loop lib info inst type cp ps"
  by (induction inactive) (auto simp: named_inactive_def log_name_def)

lemma then_parse_True:
  "then_parse r f = Inr (cp', True) \<longleftrightarrow> (\<exists>cp. r = Inr (cp, True) \<and> f cp = Inr (cp', True))"
  by (auto simp: then_parse_def res_bind_Inr_iff split: if_splits)

section \<open>A concrete document type\<close>

text \<open>
  An instance of the library's operations for the witnesses: an index into an object without the key
  runs off the end, a conversion of another kind of value throws, numbers are converted by wrapping.
\<close>

datatype json = JBool bool | JNumber int | JString "byte list" | JArray "json list" | JObject "(string \<times> json) list"

fun json_object :: "json \<Rightarrow> string \<Rightarrow> json option" where
  "json_object (JObject members) key = map_of members key"
| "json_object _ key = None"

fun json_values :: "json \<Rightarrow> json list" where
  "json_values (JArray js) = js"
| "json_values (JObject members) = map snd members"
| "json_values j = [j]"

fun json_number :: "json \<Rightarrow> int result" where
  "json_number (JNumber n) = Inr n"
| "json_number _ = Inl (Thrown ''type_error'')"

definition json_ops :: "json json_lib" where
  "json_ops =
     \<lparr>js_contains = (\<lambda>j k. json_object j k \<noteq> None),
      js_at = (\<lambda>j k. case json_object j k of None \<Rightarrow> Inl EndDereference | Some v \<Rightarrow> Inr v),
      js_elements = json_values,
      js_is_number_integer = (\<lambda>j. case j of JNumber n \<Rightarrow> True | _ \<Rightarrow> False),
      js_bool = (\<lambda>j. case j of JBool b \<Rightarrow> Inr b | _ \<Rightarrow> Inl (Thrown ''type_error'')),
      js_string = (\<lambda>j. case j of JString s \<Rightarrow> Inr s | _ \<Rightarrow> Inl (Thrown ''type_error'')),
      js_u16 = (\<lambda>j. map_sum id of_int (json_number j)),
      js_u32 = (\<lambda>j. map_sum id of_int (json_number j)),
      js_int = json_number\<rparr>"

definition sample_partition :: "int \<Rightarrow> bool \<Rightarrow> json" where
  "sample_partition n active = JObject
     [(''name'', JString [of_int n]), (''multicast_port'', JNumber (21000 + n)), (''unicast_request_port'', JNumber 53300),
      (''unicast_destination_port'', JNumber 24001), (''cpu'', JNumber n), (''is_active'', JBool active)]"

definition sample_instrument :: "json list \<Rightarrow> json" where
  "sample_instrument ps = JObject
     [(''itch_multicast_ip'', JString []), (''itch_multicast_interface_ip'', JString []),
      (''rewinder_unicast_request_ip'', JString []), (''rewinder_unicast_destination_ip'', JString []),
      (''partitions'', JArray ps)]"

definition sample_entry :: json where
  "sample_entry = JObject [(''name'', JString []), (''ip'', JString []), (''port'', JNumber 18458),
     (''username'', JString []), (''password'', JString [])]"

definition sample_config :: json where
  "sample_config = JObject
     [(''market_data'', JObject [(''equity'', sample_instrument [sample_partition 1 True, sample_partition 2 False]),
        (''derivative'', sample_instrument [sample_partition 3 True])]),
      (''order_entry'', JObject [(''client_account'', JString []), (''exchange_info'', JString []),
        (''equity'', sample_entry), (''derivative'', sample_entry)])]"

lemmas json_eval = json_ops_def get_field_def is_active_def log_name_def

section \<open>Properties\<close>



text \<open>
  A partition without a name is meant to be reported and refused, and is when informational messages
  are disabled; when they are enabled the name is looked up for a message before it is checked, so the
  parse ends in whatever the library does on a missing key.
\<close>

theorem missing_name_not_reported:
  assumes "js_contains lib market_data key" and "js_at lib market_data key = Inr inst"
    and "js_contains lib inst ''partitions''" and "js_at lib inst ''partitions'' = Inr ps"
    and "js_elements lib ps = inactive @ p # rest" and "\<forall>q \<in> set inactive. named_inactive lib q"
    and "is_active lib p = Inr True" and "\<not> js_contains lib p ''name''" and "js_at lib p ''name'' = Inl e"
  shows "parseInstrumentConfig lib False cp market_data type key = Inr (cp, False) \<and>
    parseInstrumentConfig lib True cp market_data type key = Inl e"
proof -
  have "parseInstrumentConfig lib info cp market_data type key =
      parseInstrumentConfig_loop lib info inst type cp (p # rest)" for info
    using assms(1-5) skip_inactive [OF assms(6), of info inst type cp "p # rest"]
    by (simp add: parseInstrumentConfig_def del: parseInstrumentConfig_loop.simps)
  then show ?thesis using assms(7-9) by (simp add: log_name_def get_field_def)
qed

theorem missing_name_not_reported_witness:
  "\<forall>cp. parseInstrumentConfig json_ops False cp
      (JObject [(''equity'', sample_instrument [sample_partition 2 False, JObject []])]) Equity ''equity'' = Inr (cp, False) \<and>
    parseInstrumentConfig json_ops True cp
      (JObject [(''equity'', sample_instrument [sample_partition 2 False, JObject []])]) Equity ''equity'' = Inl EndDereference"
proof
  fix cp
  show "parseInstrumentConfig json_ops False cp
      (JObject [(''equity'', sample_instrument [sample_partition 2 False, JObject []])]) Equity ''equity'' = Inr (cp, False) \<and>
    parseInstrumentConfig json_ops True cp
      (JObject [(''equity'', sample_instrument [sample_partition 2 False, JObject []])]) Equity ''equity'' = Inl EndDereference"
    by (rule missing_name_not_reported [where inactive = "[sample_partition 2 False]" and p = "JObject []" and rest = "[]"
          and ps = "JArray [sample_partition 2 False, JObject []]"
          and inst = "sample_instrument [sample_partition 2 False, JObject []]"])
      (simp_all add: json_eval named_inactive_def sample_instrument_def sample_partition_def)
qed

end
