(* ===== verification/Parser_Tests.thy ===== *)
theory Parser_Tests
  imports Itch_Parser
begin

text \<open>
  \<^verbatim>\<open>src/test/itch_parser_test.cpp\<close> and the tool that makes its input,
  \<^verbatim>\<open>src/tools/generate_dummy_moldudp64_pcap.py\<close>.  The packets that the capture library returns are an argument, as
  are the link, network and transport headers that the packet library puts before the payload.
\<close>

section \<open>The generator\<close>

text \<open>\<^verbatim>\<open>struct.pack\<close> in network order.\<close>

definition be_bytes :: "nat \<Rightarrow> nat \<Rightarrow> byte list" where
  "be_bytes n v = rev (le_bytes n v)"

definition make_add_order :: "u64 \<Rightarrow> u32 \<Rightarrow> byte \<Rightarrow> u32 \<Rightarrow> u64 \<Rightarrow> u32 \<Rightarrow> byte list" where
  "make_add_order order_id orderbook_id side orderbook_pos quantity price =
     [ascii CHR ''A''] @ be_bytes 4 123456789 @ be_bytes 8 (unat order_id) @ be_bytes 4 (unat orderbook_id) @ [side] @
     be_bytes 4 (unat orderbook_pos) @ be_bytes 8 (unat quantity) @ be_bytes 4 (unat price) @ be_bytes 2 0 @ [0]"

definition SESSION_ID :: "byte list" where
  "SESSION_ID = map ascii ''SESSION1''"

definition make_moldudp64_packet :: "u64 \<Rightarrow> byte list list \<Rightarrow> byte list" where
  "make_moldudp64_packet sequence_number messages =
     (let session = SESSION_ID @ replicate (10 - length SESSION_ID) 0;
          header = session @ be_bytes 8 (unat sequence_number) @ be_bytes 2 (length messages)
      in header @ concat (map (\<lambda>msg. be_bytes 2 (length msg) @ msg) messages))"

definition dummy_add_orders :: "byte list list" where
  "dummy_add_orders =
     [make_add_order 1001 1 (ascii CHR ''B'') 1 100 1000, make_add_order 1002 1 (ascii CHR ''S'') 2 200 1010,
      make_add_order 1003 1 (ascii CHR ''B'') 3 150 1020]"

section \<open>The tests\<close>

text \<open>Each call of \<^verbatim>\<open>pcap_next_ex\<close> returns a code and, when it is positive, a packet; \<open>None\<close>: the file cannot be opened.\<close>

fun loadPcap_loop :: "(int \<times> byte list) list \<Rightarrow> byte list list" where
  "loadPcap_loop [] = []"
| "loadPcap_loop ((ret, data) # rs) =
     (if ret < 0 then [] else if ret = 0 then loadPcap_loop rs else data # loadPcap_loop rs)"

definition loadPcap :: "(int \<times> byte list) list option \<Rightarrow> byte list list result" where
  "loadPcap file = (case file of None \<Rightarrow> Inl (Thrown ''pcap_open_offline'') | Some rs \<Rightarrow> Inr (loadPcap_loop rs))"

definition payload_offset :: nat where
  "payload_offset = 14 + 20 + 8"

record ExpectedOrder =
  ex_orderbook_id :: u32
  ex_order_id :: u64
  ex_side :: byte
  ex_qty :: u64
  ex_price :: i32

definition expected_orders :: "ExpectedOrder list" where
  "expected_orders =
     [\<lparr>ex_orderbook_id = 1, ex_order_id = 1001, ex_side = ascii CHR ''B'', ex_qty = 100, ex_price = 1000\<rparr>,
      \<lparr>ex_orderbook_id = 1, ex_order_id = 1002, ex_side = ascii CHR ''S'', ex_qty = 200, ex_price = 1010\<rparr>,
      \<lparr>ex_orderbook_id = 1, ex_order_id = 1003, ex_side = ascii CHR ''B'', ex_qty = 150, ex_price = 1020\<rparr>]"

text \<open>The checks of one order; the accessor throws on an order that is not there.\<close>

definition check_order :: "OrderbookBuilder \<Rightarrow> ExpectedOrder \<Rightarrow> bool result" where
  "check_order b eo =
     res_bind (getOrder b (ex_orderbook_id eo) (ex_order_id eo) (ex_side eo)) (\<lambda>order.
       Inr (hasOrder b (ex_orderbook_id eo) (ex_order_id eo) (ex_side eo) \<and> io_left_qty order = ex_qty eo \<and>
            io_price order = ex_price eo \<and> io_side order = ex_side eo \<and> io_orderbook_id order = ex_orderbook_id eo))"

text \<open>A test passes when all its assertions and expectations hold and nothing is thrown.\<close>

definition ParseAddOrders :: "byte list list \<Rightarrow> bool result" where
  "ParseAddOrders packets =
     (if length packets \<noteq> 1 then Inr False
      else let raw_packet = packets ! 0 in
        if length raw_packet < payload_offset then Inr False
        else res_bind (ItchParser_parse concrete_ops \<lparr>m_builder = empty_builder, m_session = []\<rparr>
               (Some (drop payload_offset raw_packet)) (length raw_packet - payload_offset)) (\<lambda>(parser, seq, msg_count).
             res_fold (\<lambda>ok eo. res_bind (check_order (m_builder parser) eo) (\<lambda>c. Inr (ok \<and> c)))
               (seq = 1 \<and> msg_count = 3) expected_orders))"

definition ForwardMessagesToBuilder :: "byte list list \<Rightarrow> bool result" where
  "ForwardMessagesToBuilder packets =
     (if length packets \<noteq> 1 then Inr False
      else let raw_packet = packets ! 0 in
        if length raw_packet < payload_offset then Inr False
        else res_bind (ItchParser_parse mock_ops
               \<lparr>m_builder = \<lparr>add_calls = 0, exec_calls = 0, del_calls = 0\<rparr>, m_session = []\<rparr>
               (Some (drop payload_offset raw_packet)) (length raw_packet - payload_offset)) (\<lambda>(parser, seq, msg_count).
             Inr (add_calls (m_builder parser) = 3 \<and> exec_calls (m_builder parser) = 0 \<and> del_calls (m_builder parser) = 0)))"

section \<open>What the generator writes\<close>

lemma put_network_order:
  "put16 (be16toh w) = be_bytes 2 (unat w)" "put32 (be32toh v) = be_bytes 4 (unat v)" "put64 (be64toh u) = be_bytes 8 (unat u)"
  using le_bytes_le_val [of "rev (le_bytes 2 (unat w))"] le_bytes_le_val [of "rev (le_bytes 4 (unat v))"]
    le_bytes_le_val [of "rev (le_bytes 8 (unat u))"]
  by (simp_all add: put16_def put32_def put64_def be_bytes_def unat_be16toh unat_be32toh unat_be64toh bswap_def)

definition generated :: "u64 \<Rightarrow> u32 \<Rightarrow> byte \<Rightarrow> u32 \<Rightarrow> u64 \<Rightarrow> u32 \<Rightarrow> itch_AddOrder" where
  "generated order_id orderbook_id side orderbook_pos quantity price =
     \<lparr>ao_type = MessageType_val MessageType_AddOrder, ao_nanoseconds = be32toh 123456789, ao_order_id = be64toh order_id,
      ao_orderbook_id = be32toh orderbook_id, ao_side = side, ao_orderbook_position = be32toh orderbook_pos,
      ao_quantity = be64toh quantity, ao_price = be32toh price, ao_order_attributes = be16toh 0, ao_lot_type = 0\<rparr>"

lemma make_add_order_eq:
  "make_add_order oid ob side pos qty price = event_block (Add (generated oid ob side pos qty price))"
  by (simp add: make_add_order_def generated_def put_itch_AddOrder_def put_network_order put8_def)

lemma session_padding: "replicate (10 - length SESSION_ID) 0 = [0, 0 :: byte]" "length SESSION_ID = 8"
  by (simp_all add: SESSION_ID_def numeral_2_eq_2)

lemma make_moldudp64_packet_eq:
  assumes "length messages < 2 ^ 16" and "\<forall>m \<in> set messages. length m < 2 ^ 16"
  shows "make_moldudp64_packet seq messages = mold_packet (SESSION_ID @ [0, 0]) seq messages"
proof -
  have "map (\<lambda>msg. be_bytes 2 (length msg) @ msg) messages = map frame_block messages"
    using assms(2) by (simp add: frame_block_def put_network_order unat_of_nat)
  then show ?thesis
    using assms(1)
    by (simp del: map_eq_conv add: make_moldudp64_packet_def mold_packet_def put_mold_DownstreamHeader_def put_network_order unat_of_nat
        session_padding(1))
qed

text \<open>The order that the builder keeps for a generated message.\<close>

definition stored :: "u64 \<Rightarrow> u32 \<Rightarrow> byte \<Rightarrow> u64 \<Rightarrow> u32 \<Rightarrow> ItchOrder" where
  "stored oid ob side qty price =
     \<lparr>io_id = oid, io_price = sint price, io_left_qty = qty, io_side = side, io_orderbook_id = ob\<rparr>"

definition dummy_events :: "itch_event list" where
  "dummy_events =
     [Add (generated 1001 1 (ascii CHR ''B'') 1 100 1000), Add (generated 1002 1 (ascii CHR ''S'') 2 200 1010),
      Add (generated 1003 1 (ascii CHR ''B'') 3 150 1020)]"

lemma dummy_events_blocks: "dummy_add_orders = map event_block dummy_events"
  by (simp add: dummy_add_orders_def dummy_events_def make_add_order_eq)

lemma dummy_events_typed: "\<forall>e \<in> set dummy_events. event_typed e"
  by (simp add: dummy_events_def generated_def)

lemma dummy_blocks_sized: "\<forall>m \<in> set dummy_add_orders. well_sized m" "\<forall>m \<in> set dummy_add_orders. length m < 2 ^ 16"
  "length dummy_add_orders = 3"
  using event_block_sound(2) dummy_events_typed by (auto simp: dummy_events_blocks well_sized_def) (simp add: dummy_events_def)

lemma parse_dummy:
  "ItchParser_parse ops ps (Some (make_moldudp64_packet 1 dummy_add_orders)) n =
   res_bind (res_fold (ops_step ops) (m_builder ps) dummy_events)
     (\<lambda>b'. Inr (ps\<lparr>m_session := SESSION_ID @ [0, 0], m_builder := b'\<rparr>, 1, 3))"
  using parse_packet [OF dummy_blocks_sized(1), of "SESSION_ID @ [0, 0]" ops ps 1 n] dummy_blocks_sized
    packet_events_blocks [OF dummy_events_typed]
  by (simp add: make_moldudp64_packet_eq session_padding dummy_events_blocks)

lemma dummy_builder:
  "\<exists>b. res_fold (ops_step concrete_ops) empty_builder dummy_events = Inr b \<and>
     m_orderMap b =
       [(1, 1001, ascii CHR ''B'') \<mapsto> stored 1001 1 (ascii CHR ''B'') 100 1000,
        (1, 1002, ascii CHR ''S'') \<mapsto> stored 1002 1 (ascii CHR ''S'') 200 1010,
        (1, 1003, ascii CHR ''B'') \<mapsto> stored 1003 1 (ascii CHR ''B'') 150 1020]"
  by (simp add: dummy_events_def concrete_ops_def addOrder_def generated_def stored_def empty_builder_def Let_def)

section \<open>Properties\<close>



end
