(* ===== verification/Message_Printers.thy ===== *)
theory Message_Printers
  imports Itch_Messages Ouch_Messages
begin

text \<open>
  The stream insertions of the messages (\<^verbatim>\<open>operator<<\<close> in every header of \<^verbatim>\<open>src/lib/protocol\<close>), which produce the
  text that is logged.  The names of enumerators come from the \<^verbatim>\<open>magic_enum\<close> library: a printer takes them as
  a function of the enumeration and the value.
\<close>

section \<open>Output streams\<close>

text \<open>
  A stream with its pending field width.  The width applies to the next value or text and is then reset;
  shorter output is padded with spaces on the left.
\<close>

record ostream =
  os_out :: "byte list"
  os_width :: nat

datatype insertion =
    Lit string
  | Setw nat
  | Num nat
  | SNum int
  | Chars "byte list"

abbreviation quot :: string where "quot \<equiv> [CHR 0x22]"
abbreviation apos :: string where "apos \<equiv> [CHR 0x27]"
abbreviation newline :: string where "newline \<equiv> [CHR 0x0A]"

definition int_string :: "int \<Rightarrow> byte list" where
  "int_string i = (if i < 0 then ascii CHR ''-'' # to_string (nat (- i)) else to_string (nat i))"

definition os_text :: "ostream \<Rightarrow> byte list \<Rightarrow> ostream" where
  "os_text os s =
     \<lparr>os_out = os_out os @ replicate (os_width os - length s) (ascii CHR '' '') @ s, os_width = 0\<rparr>"

fun os_insert :: "ostream \<Rightarrow> insertion \<Rightarrow> ostream" where
  "os_insert os (Lit s) = os_text os (map ascii s)"
| "os_insert os (Setw w) = os\<lparr>os_width := w\<rparr>"
| "os_insert os (Num n) = os_text os (to_string n)"
| "os_insert os (SNum i) = os_text os (int_string i)"
| "os_insert os (Chars s) = os_text os s"

definition os_run :: "ostream \<Rightarrow> insertion list \<Rightarrow> ostream" where
  "os_run os xs = foldl os_insert os xs"

section \<open>Printers\<close>

named_theorems printers "definitions of the printers"

text \<open>The first eight bytes of a match identifier, in host order.\<close>

definition parseUint64 :: "byte list \<Rightarrow> u64" where
  "parseUint64 data = get64 data"

definition print_mold_DownstreamHeader :: "(string \<Rightarrow> byte \<Rightarrow> byte list) \<Rightarrow> mold_DownstreamHeader \<Rightarrow> insertion list" where [printers]:
  "print_mold_DownstreamHeader enum_name m =
     [Lit (''{ session: '' @ quot), Chars (dh_session m), Lit quot,
      Lit ('', sequence_number: '' @ quot), Num (unat (be64toh (dh_sequence_number m))), Lit quot,
      Lit '', message_count: '', Num (unat (be16toh (dh_message_count m))), Lit '' }'']"

definition print_mold_MessageBlock :: "(string \<Rightarrow> byte \<Rightarrow> byte list) \<Rightarrow> mold_MessageBlock \<Rightarrow> insertion list" where [printers]:
  "print_mold_MessageBlock enum_name m =
     [Lit ''{ length: '', Num (unat (be32toh (ucast (mb_length m)))), Lit '' }'']"

definition print_itch_AddOrder :: "(string \<Rightarrow> byte \<Rightarrow> byte list) \<Rightarrow> itch_AddOrder \<Rightarrow> insertion list" where [printers]:
  "print_itch_AddOrder enum_name m =
     [Lit ''{'', Lit '' type: '', Chars (enum_name ''MessageType'' (ao_type m)),
      Lit '', nanoseconds: '', Setw 10, Num (unat (be32toh (ao_nanoseconds m))), Lit '', order_id: '',
      Num (unat (be64toh (ao_order_id m))), Lit '', orderbook_id: '', Setw 10,
      Num (unat (be32toh (ao_orderbook_id m))), Lit '', side: '',
      Chars (enum_name ''Side'' (ao_side m)), Lit '', orderbook_position: '', Setw 3,
      Num (unat (be32toh (ao_orderbook_position m))), Lit '', quantity: '', Setw 6,
      Num (unat (be64toh (ao_quantity m))), Lit '', price: '', Setw 6,
      Num (unat (be32toh (ao_price m))), Lit '', order_attributes: '',
      Num (unat (be16toh (ao_order_attributes m))), Lit '', lot_type: '',
      Chars (enum_name ''LotType'' (ao_lot_type m)), Lit ('' }'' @ newline)]"

definition print_itch_AddOrderWithMPID :: "(string \<Rightarrow> byte \<Rightarrow> byte list) \<Rightarrow> itch_AddOrderWithMPID \<Rightarrow> insertion list" where [printers]:
  "print_itch_AddOrderWithMPID enum_name m =
     [Lit ''{'', Lit '' type: '', Chars (enum_name ''MessageType'' (aom_type m)),
      Lit '', nanoseconds: '', Setw 10, Num (unat (be32toh (aom_nanoseconds m))), Lit '', order_id: '',
      Setw 10, Num (unat (be64toh (aom_order_id m))), Lit '', orderbook_id: '', Setw 10,
      Num (unat (be32toh (aom_orderbook_id m))), Lit '', side: '',
      Chars (enum_name ''Side'' (aom_side m)), Lit '', orderbook_position: '', Setw 3,
      Num (unat (be32toh (aom_orderbook_position m))), Lit '', quantity: '', Setw 6,
      Num (unat (be64toh (aom_quantity m))), Lit '', price: '', Setw 6,
      Num (unat (be32toh (aom_price m))), Lit '', order_attributes: '',
      Num (unat (be16toh (aom_order_attributes m))), Lit '', lot_type: '',
      Chars (enum_name ''LotType'' (aom_lot_type m)), Lit ('', participant_id: '' @ quot),
      Chars (aom_participant_id m), Lit quot, Lit ('' }'' @ newline)]"

definition print_itch_OrderDelete :: "(string \<Rightarrow> byte \<Rightarrow> byte list) \<Rightarrow> itch_OrderDelete \<Rightarrow> insertion list" where [printers]:
  "print_itch_OrderDelete enum_name m =
     [Lit ''{'', Lit '' type: '', Chars (enum_name ''MessageType'' (od_type m)),
      Lit '', nanoseconds: '', Setw 10, Num (unat (be32toh (od_nanoseconds m))), Lit '', order_id: '',
      Num (unat (be64toh (od_order_id m))), Lit '', orderbook_id: '', Setw 10,
      Num (unat (be32toh (od_orderbook_id m))), Lit '', side: '',
      Chars (enum_name ''Side'' (od_side m)), Lit ('' }'' @ newline)]"

definition print_itch_OrderExecuted :: "(string \<Rightarrow> byte \<Rightarrow> byte list) \<Rightarrow> itch_OrderExecuted \<Rightarrow> insertion list" where [printers]:
  "print_itch_OrderExecuted enum_name m =
     [Lit ''{'', Lit '' type: '', Chars (enum_name ''MessageType'' (oe_type m)),
      Lit '', nanoseconds: '', Setw 10, Num (unat (be32toh (oe_nanoseconds m))), Lit '', order_id: '',
      Num (unat (be64toh (oe_order_id m))), Lit '', orderbook_id: '', Setw 10,
      Num (unat (be32toh (oe_orderbook_id m))), Lit '', side: '',
      Chars (enum_name ''Side'' (oe_side m)), Lit '', quantity: '', Setw 6,
      Num (unat (be64toh (oe_quantity m))), Lit '', match_id: '', Num (unat (be64toh (oe_match_id m))),
      Lit '', combo_group_id: '', Num (unat (be64toh (ucast (oe_combo_group_id m)))),
      Lit ('' }'' @ newline)]"

definition print_itch_OrderExecutedWithPrice :: "(string \<Rightarrow> byte \<Rightarrow> byte list) \<Rightarrow> itch_OrderExecutedWithPrice \<Rightarrow> insertion list" where [printers]:
  "print_itch_OrderExecutedWithPrice enum_name m =
     [Lit ''{'', Lit '' type: '', Chars (enum_name ''MessageType'' (oep_type m)),
      Lit '', nanoseconds: '', Setw 10, Num (unat (be32toh (oep_nanoseconds m))), Lit '', order_id: '',
      Num (unat (be64toh (oep_order_id m))), Lit '', orderbook_id: '', Setw 10,
      Num (unat (be32toh (oep_orderbook_id m))), Lit '', side: '',
      Chars (enum_name ''Side'' (oep_side m)), Lit '', quantity: '', Setw 6,
      Num (unat (be64toh (oep_quantity m))), Lit '', match_id: '',
      Num (unat (be64toh (oep_match_id m))), Lit '', combo_group_id: '',
      Num (unat (be64toh (ucast (oep_combo_group_id m)))), Lit '', trade_price: '', Setw 6,
      Num (unat (be32toh (oep_trade_price m))), Lit '', occurred_at_cross: '',
      Chars (enum_name ''OccurredAtCross'' (oep_occurred_at_cross m)), Lit '', printable: '',
      Chars (enum_name ''Printable'' (oep_printable m)), Lit ('' }'' @ newline)]"

definition print_itch_OrderReplace :: "(string \<Rightarrow> byte \<Rightarrow> byte list) \<Rightarrow> itch_OrderReplace \<Rightarrow> insertion list" where [printers]:
  "print_itch_OrderReplace enum_name m =
     [Lit ''{'', Lit '' type: '', Chars (enum_name ''MessageType'' (orp_type m)),
      Lit '', nanoseconds: '', Setw 10, Num (unat (be32toh (orp_nanoseconds m))), Lit '', order_id: '',
      Num (unat (be64toh (orp_order_id m))), Lit '', orderbook_id: '', Setw 10,
      Num (unat (be32toh (orp_orderbook_id m))), Lit '', side: '',
      Chars (enum_name ''Side'' (orp_side m)), Lit '', orderbook_position: '', Setw 3,
      Num (unat (be32toh (orp_orderbook_position m))), Lit '', quantity: '', Setw 6,
      Num (unat (be64toh (orp_quantity m))), Lit '', price: '', Setw 6,
      Num (unat (be32toh (orp_price m))), Lit '', order_attributes: '',
      Num (unat (be16toh (orp_order_attributes m))), Lit ('' }'' @ newline)]"

definition print_itch_Trade :: "(string \<Rightarrow> byte \<Rightarrow> byte list) \<Rightarrow> itch_Trade \<Rightarrow> insertion list" where [printers]:
  "print_itch_Trade enum_name m =
     [Lit ''{'', Lit '' type: '', Chars (enum_name ''MessageType'' (tr_type m)),
      Lit '', nanoseconds: '', Setw 10, Num (unat (be32toh (tr_nanoseconds m))), Lit '', match_id: '',
      Setw 10, Num (unat (be64toh (tr_match_id m))), Lit '', combo_group_id: '', Setw 10,
      Num (unat (be32toh (tr_combo_group_id m))), Lit '', side: '',
      Chars (enum_name ''Side'' (tr_side m)), Lit '', quantity: '', Setw 6,
      Num (unat (be64toh (tr_quantity m))), Lit '', orderbook_id: '', Setw 10,
      Num (unat (be32toh (tr_orderbook_id m))), Lit '', trade_price: '', Setw 10,
      Num (unat (be32toh (tr_trade_price m))), Lit '', printable: '',
      Chars (enum_name ''Printable'' (tr_printable m)), Lit '', occurred_at_cross: '',
      Chars (enum_name ''OccurredAtCross'' (tr_occurred_at_cross m)), Lit ('' }'' @ newline)]"

definition print_itch_EquilibriumPriceUpdate :: "(string \<Rightarrow> byte \<Rightarrow> byte list) \<Rightarrow> itch_EquilibriumPriceUpdate \<Rightarrow> insertion list" where [printers]:
  "print_itch_EquilibriumPriceUpdate enum_name m =
     [Lit ''{'', Lit '' type: '', Chars (enum_name ''MessageType'' (epu_type m)),
      Lit '', nanoseconds: '', Setw 10, Num (unat (be32toh (epu_nanoseconds m))),
      Lit '', orderbook_id: '', Setw 10, Num (unat (be32toh (epu_orderbook_id m))),
      Lit '', available_bid_quantity: '', Setw 6, Num (unat (be64toh (epu_available_bid_quantity m))),
      Lit '', available_ask_quantity: '', Setw 6, Num (unat (be64toh (epu_available_ask_quantity m))),
      Lit '', equilibrium_price: '', Setw 10, Num (unat (be32toh (epu_equilibrium_price m))),
      Lit '', best_bid_price: '', Setw 10, Num (unat (be32toh (epu_best_bid_price m))),
      Lit '', best_ask_price: '', Setw 10, Num (unat (be32toh (epu_best_ask_price m))),
      Lit '', best_bid_quantity: '', Setw 6, Num (unat (be64toh (epu_best_bid_quantity m))),
      Lit '', best_ask_quantity: '', Setw 6, Num (unat (be64toh (epu_best_ask_quantity m))),
      Lit ('' }'' @ newline)]"

definition print_itch_OrderbookFlush :: "(string \<Rightarrow> byte \<Rightarrow> byte list) \<Rightarrow> itch_OrderbookFlush \<Rightarrow> insertion list" where [printers]:
  "print_itch_OrderbookFlush enum_name m =
     [Lit ''{'', Lit '' type: '', Chars (enum_name ''MessageType'' (obf_type m)),
      Lit '', nanoseconds: '', Setw 10, Num (unat (be32toh (obf_nanoseconds m))),
      Lit '', orderbook_id: '', Setw 10, Num (unat (be32toh (obf_orderbook_id m))),
      Lit ('' }'' @ newline)]"

definition print_itch_Seconds :: "(string \<Rightarrow> byte \<Rightarrow> byte list) \<Rightarrow> itch_Seconds \<Rightarrow> insertion list" where [printers]:
  "print_itch_Seconds enum_name m =
     [Lit ''{'', Lit '' type: '', Chars (enum_name ''MessageType'' (sec_type m)), Lit '', second: '',
      Setw 10, Num (unat (be32toh (sec_second m))), Lit ('' }'' @ newline)]"

definition print_itch_OrderBookDirectory :: "(string \<Rightarrow> byte \<Rightarrow> byte list) \<Rightarrow> itch_OrderBookDirectory \<Rightarrow> insertion list" where [printers]:
  "print_itch_OrderBookDirectory enum_name m =
     [Lit ''{'', Lit '' type: '', Chars (enum_name ''MessageType'' (obd_type m)),
      Lit '', nanoseconds: '', Setw 10, Num (unat (be32toh (obd_nanoseconds m))),
      Lit '', orderbook_id: '', Setw 10, Num (unat (be32toh (obd_orderbook_id m))), Lit '', symbol: '',
      Chars (obd_symbol m), Lit '', long_name: '', Chars (obd_long_name m), Lit '', isin: '',
      Chars (obd_isin m), Lit '', financial_product: '',
      Chars (enum_name ''FinancialProduct'' (obd_financial_product m)), Lit '', trading_currency: '',
      Chars (obd_trading_currency m), Lit '', num_decimals_in_price: '', Setw 2,
      Num (unat (be16toh (obd_num_decimals_in_price m))), Lit '', num_decimals_in_nominal_price: '',
      Setw 2, Num (unat (be16toh (obd_num_decimals_in_nominal_price m))), Lit '', odd_lot_size: '',
      Setw 6, Num (unat (be32toh (obd_odd_lot_size m))), Lit '', round_lot_size: '', Setw 6,
      Num (unat (be32toh (obd_round_lot_size m))), Lit '', block_lot_size: '', Setw 6,
      Num (unat (be32toh (obd_block_lot_size m))), Lit '', nominal_value: '', Setw 10,
      Num (unat (be64toh (obd_nominal_value m))), Lit '', num_legs: '', Setw 2, Chars [obd_num_legs m],
      Lit '', underlying_orderbook_id: '', Setw 10,
      Num (unat (be32toh (obd_underlying_orderbook_id m))), Lit '', strike_price: '', Setw 10,
      Num (unat (be32toh (obd_strike_price m))), Lit '', expiration_date: '', Setw 10,
      Num (unat (be32toh (obd_expiration_date m))), Lit '', num_decimals_in_strike_price: '', Setw 2,
      Num (unat (be16toh (obd_num_decimals_in_strike_price m))), Lit '', put_or_call: '',
      Chars (enum_name ''PutOrCall'' (obd_put_or_call m)), Lit ('' }'' @ newline)]"

definition print_itch_CombinationOrderbookLeg :: "(string \<Rightarrow> byte \<Rightarrow> byte list) \<Rightarrow> itch_CombinationOrderbookLeg \<Rightarrow> insertion list" where [printers]:
  "print_itch_CombinationOrderbookLeg enum_name m =
     [Lit ''{'', Lit '' type: '', Chars (enum_name ''MessageType'' (col_type m)),
      Lit '', nanoseconds: '', Setw 10, Num (unat (be32toh (col_nanoseconds m))),
      Lit '', combination_orderbook_id: '', Setw 10,
      Num (unat (be32toh (col_combination_orderbook_id m))), Lit '', leg_orderbook_id: '', Setw 10,
      Num (unat (be32toh (col_leg_orderbook_id m))), Lit '', leg_side: '',
      Chars (enum_name ''LegSide'' (col_leg_side m)), Lit '', leg_ratio: '', Setw 4,
      Num (unat (be32toh (col_leg_ratio m))), Lit ('' }'' @ newline)]"

definition print_itch_TickSizeTableEntry :: "(string \<Rightarrow> byte \<Rightarrow> byte list) \<Rightarrow> itch_TickSizeTableEntry \<Rightarrow> insertion list" where [printers]:
  "print_itch_TickSizeTableEntry enum_name m =
     [Lit ''{'', Lit '' type: '', Chars (enum_name ''MessageType'' (tst_type m)),
      Lit '', nanoseconds: '', Setw 10, Num (unat (be32toh (tst_nanoseconds m))),
      Lit '', orderbook_id: '', Setw 10, Num (unat (be32toh (tst_orderbook_id m))),
      Lit '', tick_size: '', Setw 6, Num (unat (be64toh (tst_tick_size m))), Lit '', price_from: '',
      Setw 10, Num (unat (be32toh (tst_price_from m))), Lit '', price_to: '', Setw 10,
      Num (unat (be32toh (tst_price_to m))), Lit ('' }'' @ newline)]"

definition print_itch_ShortSellStatus :: "(string \<Rightarrow> byte \<Rightarrow> byte list) \<Rightarrow> itch_ShortSellStatus \<Rightarrow> insertion list" where [printers]:
  "print_itch_ShortSellStatus enum_name m =
     [Lit ''{'', Lit '' type: '', Chars (enum_name ''MessageType'' (sss_type m)),
      Lit '', nanoseconds: '', Setw 10, Num (unat (be32toh (sss_nanoseconds m))),
      Lit '', orderbook_id: '', Setw 10, Num (unat (be32toh (sss_orderbook_id m))),
      Lit '', short_sell_restriction: '',
      Chars (enum_name ''ShortSellRestriction'' (sss_short_sell_restriction m)),
      Lit '', short_sell_validation: '',
      Chars (enum_name ''ShortSellValidation'' (sss_short_sell_validation m)), Lit ('' }'' @ newline)]"

definition print_itch_SystemEvent :: "(string \<Rightarrow> byte \<Rightarrow> byte list) \<Rightarrow> itch_SystemEvent \<Rightarrow> insertion list" where [printers]:
  "print_itch_SystemEvent enum_name m =
     [Lit ''{'', Lit '' type: '', Chars (enum_name ''MessageType'' (se_type m)),
      Lit '', nanoseconds: '', Setw 10, Num (unat (be32toh (se_nanoseconds m))), Lit '', event_code: '',
      Chars (enum_name ''EventCode'' (se_event_code m)), Lit ('' }'' @ newline)]"

definition print_itch_OrderBookState :: "(string \<Rightarrow> byte \<Rightarrow> byte list) \<Rightarrow> itch_OrderBookState \<Rightarrow> insertion list" where [printers]:
  "print_itch_OrderBookState enum_name m =
     [Lit ''{'', Lit '' type: '', Chars (enum_name ''MessageType'' (obs_type m)),
      Lit '', nanoseconds: '', Setw 10, Num (unat (be32toh (obs_nanoseconds m))),
      Lit '', orderbook_id: '', Setw 10, Num (unat (be32toh (obs_orderbook_id m))),
      Lit ('', state_name: '' @ quot), Chars (obs_state_name m), Lit quot, Lit ('' }'' @ newline)]"

definition print_soup_LoginRequest :: "(string \<Rightarrow> byte \<Rightarrow> byte list) \<Rightarrow> soup_LoginRequest \<Rightarrow> insertion list" where [printers]:
  "print_soup_LoginRequest enum_name m =
     [Lit ''{ packetLength: '', Num (unat (be16toh (lr_packetLength m))), Lit '', packetType: '',
      Chars (enum_name ''PacketType'' (lr_packetType m)), Lit ('', username: '' @ quot),
      Chars (lr_username m), Lit quot, Lit ('', password: '' @ quot), Chars (lr_password m),
      Lit quot, Lit ('', sessionName: '' @ quot), Chars (lr_sessionName m), Lit quot,
      Lit ('', sequenceNumber: '' @ quot), Chars (lr_sequenceNumber m), Lit quot,
      Lit ('' }'' @ newline)]"

definition print_soup_LoginAccepted :: "(string \<Rightarrow> byte \<Rightarrow> byte list) \<Rightarrow> soup_LoginAccepted \<Rightarrow> insertion list" where [printers]:
  "print_soup_LoginAccepted enum_name m =
     [Lit ''{ packetLength: '', Num (unat (la_packetLength m)), Lit ('', packetType: '' @ apos),
      Chars (enum_name ''PacketType'' (la_packetType m)), Lit apos, Lit ('', session_name: '' @ quot),
      Chars (la_session_name m), Lit quot, Lit ('', sequenceNumber: '' @ quot),
      Chars (la_sequenceNumber m), Lit quot, Lit '' }'']"

definition print_soup_LoginRejected :: "(string \<Rightarrow> byte \<Rightarrow> byte list) \<Rightarrow> soup_LoginRejected \<Rightarrow> insertion list" where [printers]:
  "print_soup_LoginRejected enum_name m =
     [Lit ''{ packetLength: '', Num (unat (lj_packetLength m)), Lit ('', packetType: '' @ apos),
      Chars (enum_name ''PacketType'' (lj_packetType m)), Lit apos, Lit '', reject_reason_code: '',
      Chars (enum_name ''RejectReasonCode'' (lj_reject_reason_code m)), Lit '' }'']"

definition print_soup_LogoutRequest :: "(string \<Rightarrow> byte \<Rightarrow> byte list) \<Rightarrow> soup_LogoutRequest \<Rightarrow> insertion list" where [printers]:
  "print_soup_LogoutRequest enum_name m =
     [Lit ''{ packetLength: '', Num (unat (be16toh (lo_packetLength m))), Lit '', packetType: '',
      Chars (enum_name ''PacketType'' (lo_packetType m)), Lit ('' }'' @ newline)]"

definition print_soup_SequencedData :: "(string \<Rightarrow> byte \<Rightarrow> byte list) \<Rightarrow> soup_SequencedData \<Rightarrow> insertion list" where [printers]:
  "print_soup_SequencedData enum_name m =
     [Lit ''{ packetLength: '', Num (unat (be16toh (sd_packetLength m))),
      Lit ('', packetType: '' @ apos), Chars (enum_name ''PacketType'' (sd_packetType m)),
      Lit (apos @ '' }'')]"

definition print_soup_ClientHeartbeat :: "(string \<Rightarrow> byte \<Rightarrow> byte list) \<Rightarrow> soup_ClientHeartbeat \<Rightarrow> insertion list" where [printers]:
  "print_soup_ClientHeartbeat enum_name m =
     [Lit ''{ packetLength: '', Num (unat (be32toh (ucast (ch_packetLength m)))),
      Lit '', packetType: '', Chars (enum_name ''PacketType'' (ch_packetType m)), Lit ('' }'' @ newline)]"

definition print_soup_ServerHeartbeat :: "(string \<Rightarrow> byte \<Rightarrow> byte list) \<Rightarrow> soup_ServerHeartbeat \<Rightarrow> insertion list" where [printers]:
  "print_soup_ServerHeartbeat enum_name m =
     [Lit ''{ packetLength: '', Num (unat (sh_packetLength m)), Lit ('', packetType: '' @ apos),
      Chars (enum_name ''PacketType'' (sh_packetType m)), Lit (apos @ '' }'')]"

definition print_soup_EndOfSession :: "(string \<Rightarrow> byte \<Rightarrow> byte list) \<Rightarrow> soup_EndOfSession \<Rightarrow> insertion list" where [printers]:
  "print_soup_EndOfSession enum_name m =
     [Lit ''{ packetLength: '', Num (unat (eos_packetLength m)), Lit ('', packetType: '' @ apos),
      Chars (enum_name ''PacketType'' (eos_packetType m)), Lit (apos @ '' }'')]"

definition print_ouch_EnterOrder :: "(string \<Rightarrow> byte \<Rightarrow> byte list) \<Rightarrow> ouch_EnterOrder \<Rightarrow> insertion list" where [printers]:
  "print_ouch_EnterOrder enum_name m =
     [Lit ''{'', Lit '' type: '', Chars (enum_name ''MessageType'' (eo_type m)),
      Lit ('', order_token: '' @ quot), Chars (eo_order_token m), Lit quot, Lit '', orderbook_id: '',
      Num (unat (be32toh (eo_orderbook_id m))), Lit '', side: '',
      Chars (enum_name ''Side'' (eo_side m)), Lit '', quantity: '',
      Num (unat (be64toh (eo_quantity m))), Lit '', price: '', Num (unat (be32toh (eo_price m))),
      Lit '', time_in_force: '', Chars (enum_name ''TimeInForce'' (eo_time_in_force m)),
      Lit '', open_close: '', Chars (enum_name ''OpenClose'' (eo_open_close m)),
      Lit '', client_account: '', Chars (eo_client_account m), Lit '', customer_info: '',
      Chars (eo_customer_info m), Lit '', exchange_info: '', Chars (eo_exchange_info m),
      Lit '', display_quantity: '', Num (unat (be64toh (eo_display_quantity m))),
      Lit '', client_category: '', Chars (enum_name ''ClientCategory'' (eo_client_category m)),
      Lit '', offhours: '', Chars (enum_name ''OffHours'' (eo_offhours m)),
      Lit ('', reserved: '' @ quot), Chars (eo_reserved m), Lit quot, Lit ('' }'' @ newline)]"

definition print_ouch_ReplaceOrder :: "(string \<Rightarrow> byte \<Rightarrow> byte list) \<Rightarrow> ouch_ReplaceOrder \<Rightarrow> insertion list" where [printers]:
  "print_ouch_ReplaceOrder enum_name m =
     [Lit ''{'', Lit ('' type: '' @ quot), Chars (enum_name ''MessageType'' (ro_type m)), Lit quot,
      Lit ('', existing_order_token: '' @ quot), Chars (ro_existing_order_token m), Lit quot,
      Lit ('', replacement_order_token: '' @ quot), Chars (ro_replacement_order_token m), Lit quot,
      Lit '', quantity: '', Num (unat (be64toh (ro_quantity m))), Lit '', price: '',
      Num (unat (be32toh (ro_price m))), Lit '', open_close: '', Num (unat (ro_open_close m)),
      Lit ('', client_account: '' @ quot), Chars (ro_client_account m), Lit quot,
      Lit ('', customer_info: '' @ quot), Chars (ro_customer_info m), Lit quot,
      Lit ('', exchange_info: '' @ quot), Chars (ro_exchange_info m), Lit quot,
      Lit '', display_quantity: '', Num (unat (be64toh (ro_display_quantity m))),
      Lit '', client_category: '', Num (unat (ro_client_category m)), Lit ('' }'' @ newline)]"

definition print_ouch_CancelOrder :: "(string \<Rightarrow> byte \<Rightarrow> byte list) \<Rightarrow> ouch_CancelOrder \<Rightarrow> insertion list" where [printers]:
  "print_ouch_CancelOrder enum_name m =
     [Lit ''{'', Lit '' type: '', Chars (enum_name ''MessageType'' (co_type m)),
      Lit ('', order_token: '' @ quot), Chars (co_order_token m), Lit quot, Lit ('' }'' @ newline)]"

definition print_ouch_CancelOrderByOrderId :: "(string \<Rightarrow> byte \<Rightarrow> byte list) \<Rightarrow> ouch_CancelOrderByOrderId \<Rightarrow> insertion list" where [printers]:
  "print_ouch_CancelOrderByOrderId enum_name m =
     [Lit ''{'', Lit ('' type: '' @ quot), Chars (enum_name ''MessageType'' (coi_type m)), Lit quot,
      Lit '', order_book_id: '', Num (unat (be32toh (coi_orderbook_id m))), Lit ('', side: '' @ quot),
      Chars [coi_side m], Lit quot, Lit '', order_id: '', Num (unat (be64toh (coi_order_id m))),
      Lit ('' }'' @ newline)]"

definition print_ouch_OrderAccepted :: "(string \<Rightarrow> byte \<Rightarrow> byte list) \<Rightarrow> ouch_OrderAccepted \<Rightarrow> insertion list" where [printers]:
  "print_ouch_OrderAccepted enum_name m =
     [Lit ''{'', Lit '' type: '', Chars (enum_name ''MessageType'' (oa_type m)), Lit '', timestamp: '',
      Num (unat (be64toh (oa_timestamp m))), Lit ('', order_token: '' @ quot), Chars (oa_order_token m),
      Lit quot, Lit '', orderbook_id: '', Num (unat (be32toh (oa_orderbook_id m))), Lit '', side: '',
      Chars (enum_name ''Side'' (oa_side m)), Lit '', order_id: '',
      Num (unat (be64toh (oa_order_id m))), Lit '', quantity: '', Num (unat (be64toh (oa_quantity m))),
      Lit '', price: '', Num (unat (be32toh (oa_price m))), Lit '', time_in_force: '',
      Chars (enum_name ''TimeInForce'' (oa_time_in_force m)), Lit '', open_close: '',
      Chars (enum_name ''OpenClose'' (oa_open_close m)), Lit ('', client_account: '' @ quot),
      Chars (oa_client_account m), Lit quot, Lit '', order_state: '',
      Chars (enum_name ''OrderState'' (oa_order_state m)), Lit ('', customer_info: '' @ quot),
      Chars (oa_customer_info m), Lit quot, Lit ('', exchange_info: '' @ quot),
      Chars (oa_exchange_info m), Lit quot, Lit '', pre_trade_quantity: '',
      Num (unat (be64toh (oa_pre_trade_quantity m))), Lit '', display_quantity: '',
      Num (unat (be64toh (oa_display_quantity m))), Lit '', client_category: '',
      Chars (enum_name ''ClientCategory'' (oa_client_category m)), Lit '', offhours: '',
      Chars (enum_name ''OffHours'' (oa_offhours m)), Lit ('', reserved: '' @ quot),
      Chars (oa_reserved m), Lit quot, Lit ('' }'' @ newline)]"

definition print_ouch_OrderCanceled :: "(string \<Rightarrow> byte \<Rightarrow> byte list) \<Rightarrow> ouch_OrderCanceled \<Rightarrow> insertion list" where [printers]:
  "print_ouch_OrderCanceled enum_name m =
     [Lit ''{'', Lit '' type: '', Chars (enum_name ''MessageType'' (ocn_type m)), Lit '', timestamp: '',
      Num (unat (ocn_timestamp m)), Lit ('', order_token: '' @ quot), Chars (ocn_order_token m),
      Lit quot, Lit '', orderbook_id: '', Num (unat (ocn_orderbook_id m)), Lit '', side: '',
      Chars (enum_name ''Side'' (ocn_side m)), Lit '', order_id: '', Num (unat (ocn_order_id m)),
      Lit '', cancel_reason: '', Chars (enum_name ''CancelReason'' (ocn_cancel_reason m)),
      Lit ('' }'' @ newline)]"

definition print_ouch_OrderExecuted :: "(string \<Rightarrow> byte \<Rightarrow> byte list) \<Rightarrow> ouch_OrderExecuted \<Rightarrow> insertion list" where [printers]:
  "print_ouch_OrderExecuted enum_name m =
     [Lit ''{'', Lit '' type: '', Chars (enum_name ''MessageType'' (oex_type m)), Lit '', timestamp: '',
      Num (unat (oex_timestamp m)), Lit ('', order_token: '' @ quot), Chars (oex_order_token m),
      Lit quot, Lit '', orderbook_id: '', Num (unat (oex_orderbook_id m)),
      Lit '', traded_quantity: '', Num (unat (oex_traded_quantity m)), Lit '', trade_price: '',
      SNum (sint (oex_trade_price m)), Lit '', match_id: '', Num (unat (parseUint64 (oex_match_id m))),
      Lit '', client_category: '', Chars (enum_name ''ClientCategory'' (oex_client_category m)),
      Lit ('', reserved: '' @ quot), Chars (oex_reserved m), Lit quot, Lit ('' }'' @ newline)]"

definition print_ouch_OrderRejected :: "(string \<Rightarrow> byte \<Rightarrow> byte list) \<Rightarrow> ouch_OrderRejected \<Rightarrow> insertion list" where [printers]:
  "print_ouch_OrderRejected enum_name m =
     [Lit ''{'', Lit ('' type: '' @ apos), Chars (enum_name ''MessageType'' (orj_type m)), Lit apos,
      Lit '', timestamp: '', Num (unat (orj_timestamp m)), Lit ('', order_token: '' @ quot),
      Chars (orj_order_token m), Lit quot, Lit '', reject_code: '', SNum (sint (orj_reject_code m)),
      Lit ('' }'' @ newline)]"

definition print_ouch_OrderReplaced :: "(string \<Rightarrow> byte \<Rightarrow> byte list) \<Rightarrow> ouch_OrderReplaced \<Rightarrow> insertion list" where [printers]:
  "print_ouch_OrderReplaced enum_name m =
     [Lit ''{'', Lit ('' type: '' @ apos), Chars (enum_name ''MessageType'' (ord_type m)), Lit apos,
      Lit '', timestamp: '', Num (unat (ord_timestamp m)), Lit ('', replacement_order_token: '' @ quot),
      Chars (ord_replacement_order_token m), Lit quot, Lit ('', previous_order_token: '' @ quot),
      Chars (ord_previous_order_token m), Lit quot, Lit '', orderbook_id: '',
      Num (unat (ord_orderbook_id m)), Lit ('', side: '' @ apos),
      Chars (enum_name ''Side'' (ord_side m)), Lit apos, Lit '', order_id: '',
      Num (unat (ord_order_id m)), Lit '', quantity: '', Num (unat (ord_quantity m)), Lit '', price: '',
      SNum (sint (ord_price m)), Lit '', time_in_force: '',
      Chars (enum_name ''TimeInForce'' (ord_time_in_force m)), Lit '', open_close: '',
      Chars (enum_name ''OpenClose'' (ord_open_close m)), Lit ('', client_account: '' @ quot),
      Chars (ord_client_account m), Lit quot, Lit '', order_state: '',
      Chars (enum_name ''OrderState'' (ord_order_state m)), Lit ('', customer_info: '' @ quot),
      Chars (ord_customer_info m), Lit quot, Lit ('', exchange_info: '' @ quot),
      Chars (ord_exchange_info m), Lit quot, Lit '', pre_trade_quantity: '',
      Num (unat (ord_pre_trade_quantity m)), Lit '', display_quantity: '',
      Num (unat (ord_display_quantity m)), Lit '', client_category: '',
      Chars (enum_name ''ClientCategory'' (ord_client_category m)), Lit ('' }'' @ newline)]"

text \<open>
  The printer of \<^verbatim>\<open>UnsequencedData\<close> writes the memory behind the header; \<open>mem\<close> is what may be read there.  The count is
  unsigned and wraps when the length field is less than three.
\<close>

definition print_soup_UnsequencedData ::
  "(string \<Rightarrow> byte \<Rightarrow> byte list) \<Rightarrow> soup_UnsequencedData \<Rightarrow> byte list \<Rightarrow> insertion list result" where
  "print_soup_UnsequencedData enum_name m mem =
     (let count = (ucast (be16toh (ud_packetLength m)) - 2 - 1 :: u64) in
      if unat count > length mem then Inl OutOfBoundsRead
      else Inr
        [Lit ''{ packetLength: '', Num (unat (be16toh (ud_packetLength m))),
         Lit '', packetType: '', Chars (enum_name ''PacketType'' (ud_packetType m)), Lit ('', raw data: '' @ quot),
         Chars (take (unat count) mem), Lit (quot @ '' }'' @ newline)])"

section \<open>Lemmas\<close>

text \<open>A list of insertions that never leaves a width pending at its end.\<close>

fun ends_clean :: "insertion list \<Rightarrow> bool" where
  "ends_clean [] \<longleftrightarrow> True"
| "ends_clean [Setw w] \<longleftrightarrow> False"
| "ends_clean [x] \<longleftrightarrow> True"
| "ends_clean (x # y # xs) \<longleftrightarrow> ends_clean (y # xs)"

lemma os_run_simps [simp]: "os_run os [] = os" "os_run os (x # xs) = os_run (os_insert os x) xs"
  by (simp_all add: os_run_def)

lemma os_insert_prefix: "\<exists>t. os_out (os_insert os x) = os_out os @ t"
  by (cases x) (simp_all add: os_text_def)

lemma os_run_prefix: "\<exists>t. os_out (os_run os xs) = os_out os @ t"
proof (induction xs arbitrary: os)
  case (Cons x xs)
  obtain t where "os_out (os_insert os x) = os_out os @ t" using os_insert_prefix by blast
  then show ?case using Cons [of "os_insert os x"] by auto
qed simp

lemma ends_clean_width: "ends_clean xs \<Longrightarrow> xs \<noteq> [] \<Longrightarrow> os_width (os_run os xs) = 0"
proof (induction xs arbitrary: os rule: ends_clean.induct)
  case (4 x y xs)
  then show ?case by simp
qed (simp_all add: os_text_def)

definition prints_cleanly :: "((string \<Rightarrow> byte \<Rightarrow> byte list) \<Rightarrow> 'm \<Rightarrow> insertion list) \<Rightarrow> bool" where
  "prints_cleanly print \<longleftrightarrow>
     (\<forall>enum_name m os. os_width (os_run os (print enum_name m)) = 0 \<and>
        (\<exists>t. os_out (os_run os (print enum_name m)) = os_out os @ t))"

lemma prints_cleanlyI:
  "(\<And>enum_name m. ends_clean (print enum_name m) \<and> print enum_name m \<noteq> []) \<Longrightarrow> prints_cleanly print"
  unfolding prints_cleanly_def using ends_clean_width os_run_prefix by blast

text \<open>A byte swap at twice the width of a value moves it to the upper half.\<close>

lemma le_val_append: "le_val (xs @ ys) = le_val xs + 256 ^ length xs * le_val ys"
  by (induction xs) (simp_all add: algebra_simps)

lemma le_val_zeros: "le_val (replicate n 0) = 0"
  by (induction n) simp_all

lemma le_bytes_zero: "le_bytes n 0 = replicate n 0"
  by (induction n) simp_all

lemma le_bytes_widen: "v < 256 ^ n \<Longrightarrow> le_bytes (n + m) v = le_bytes n v @ replicate m 0"
proof (induction n arbitrary: v)
  case (Suc n)
  then have "v div 256 < 256 ^ n" by (simp add: less_mult_imp_div_less mult.commute)
  then show ?case using Suc.IH by simp
qed (simp add: le_bytes_zero)

lemma bswap_widen: "v < 256 ^ n \<Longrightarrow> bswap (n + m) v = 256 ^ m * bswap n v"
  by (simp add: bswap_def le_bytes_widen le_val_append le_val_zeros)

lemma be64toh_ucast: "unat (be64toh (ucast (w :: u32))) = 2 ^ 32 * unat (be32toh w)"
  using bswap_widen [of "unat w" 4 4] unat_bound [of w]
  by (simp add: unat_be64toh unat_be32toh unat_ucast_wide)

lemma be32toh_ucast: "unat (be32toh (ucast (w :: u16))) = 2 ^ 16 * unat (be16toh w)"
  using bswap_widen [of "unat w" 2 2] unat_bound [of w]
  by (simp add: unat_be32toh unat_be16toh unat_ucast_wide)

section \<open>Properties\<close>

text \<open>
  Every printer only appends to the stream and leaves no field width behind for what is printed next.
\<close>

theorem printers_leave_stream_clean:
  "prints_cleanly print_mold_DownstreamHeader \<and>
     prints_cleanly print_mold_MessageBlock \<and>
     prints_cleanly print_itch_AddOrder \<and>
     prints_cleanly print_itch_AddOrderWithMPID \<and>
     prints_cleanly print_itch_OrderDelete \<and>
     prints_cleanly print_itch_OrderExecuted \<and>
     prints_cleanly print_itch_OrderExecutedWithPrice \<and>
     prints_cleanly print_itch_OrderReplace \<and>
     prints_cleanly print_itch_Trade \<and>
     prints_cleanly print_itch_EquilibriumPriceUpdate \<and>
     prints_cleanly print_itch_OrderbookFlush \<and>
     prints_cleanly print_itch_Seconds \<and>
     prints_cleanly print_itch_OrderBookDirectory \<and>
     prints_cleanly print_itch_CombinationOrderbookLeg \<and>
     prints_cleanly print_itch_TickSizeTableEntry \<and>
     prints_cleanly print_itch_ShortSellStatus \<and>
     prints_cleanly print_itch_SystemEvent \<and>
     prints_cleanly print_itch_OrderBookState \<and>
     prints_cleanly print_soup_LoginRequest \<and>
     prints_cleanly print_soup_LoginAccepted \<and>
     prints_cleanly print_soup_LoginRejected \<and>
     prints_cleanly print_soup_LogoutRequest \<and>
     prints_cleanly print_soup_SequencedData \<and>
     prints_cleanly print_soup_ClientHeartbeat \<and>
     prints_cleanly print_soup_ServerHeartbeat \<and>
     prints_cleanly print_soup_EndOfSession \<and>
     prints_cleanly print_ouch_EnterOrder \<and>
     prints_cleanly print_ouch_ReplaceOrder \<and>
     prints_cleanly print_ouch_CancelOrder \<and>
     prints_cleanly print_ouch_CancelOrderByOrderId \<and>
     prints_cleanly print_ouch_OrderAccepted \<and>
     prints_cleanly print_ouch_OrderCanceled \<and>
     prints_cleanly print_ouch_OrderExecuted \<and>
     prints_cleanly print_ouch_OrderRejected \<and>
     prints_cleanly print_ouch_OrderReplaced"
  by (intro conjI prints_cleanlyI; simp add: printers)

text \<open>
  Fields that are swapped at a wider type than their own are printed with their value in the upper half:
  the combination group of an execution, the length of a message block and the length of a heartbeat.
\<close>

theorem widened_fields_misprinted:
  "Num (2 ^ 32 * unat (be32toh (oe_combo_group_id e))) \<in> set (print_itch_OrderExecuted enum_name e) \<and>
   Num (2 ^ 32 * unat (be32toh (oep_combo_group_id p))) \<in> set (print_itch_OrderExecutedWithPrice enum_name p) \<and>
   print_mold_MessageBlock enum_name b =
     [Lit ''{ length: '', Num (2 ^ 16 * unat (be16toh (mb_length b))), Lit '' }''] \<and>
   Num (2 ^ 16 * unat (be16toh (ch_packetLength h))) \<in> set (print_soup_ClientHeartbeat enum_name h)"
  by (simp add: printers be64toh_ucast be32toh_ucast)

text \<open>
  The printer of \<^verbatim>\<open>UnsequencedData\<close> leaves out the last two bytes of the payload of a packet, and reads outside of
  the packet when the payload has fewer than two.
\<close>

theorem unsequenced_printer_drops_two:
  assumes "Suc (length body) < 2 ^ 16" and "m = \<lparr>ud_packetLength = be16toh (of_nat (Suc (length body))), ud_packetType = t\<rparr>"
  shows "print_soup_UnsequencedData enum_name m body =
    (if length body < 2 then Inl OutOfBoundsRead
     else Inr [Lit ''{ packetLength: '', Num (Suc (length body)), Lit '', packetType: '', Chars (enum_name ''PacketType'' t),
       Lit ('', raw data: '' @ quot), Chars (take (length body - 2) body), Lit (quot @ '' }'' @ newline)])"
proof -
  let ?len = "of_nat (Suc (length body)) :: u16"
  have len: "unat ?len = Suc (length body)" using assms(1) by (simp add: unat_of_nat del: of_nat_Suc)
  have count: "(ucast ?len - 2 - 1 :: u64) = ucast ?len - 3" by simp
  have wide: "unat (ucast ?len :: u64) = Suc (length body)" using len by (simp add: unat_ucast_wide del: of_nat_Suc)
  have "unat (ucast ?len - 3 :: u64) = length body - 2" if "2 \<le> length body"
    using that wide by (subst unat_sub) (simp_all add: word_le_nat_alt)
  moreover have "length body < unat (ucast ?len - 3 :: u64)" if "length body < 2"
    using that by (cases body; cases "tl body") (auto simp: unsigned_minus_1_eq_mask mask_eq_exp_minus_1)
  ultimately show ?thesis
    using len by (auto simp: print_soup_UnsequencedData_def assms(2) count Let_def simp del: of_nat_Suc)
qed

theorem unsequenced_printer_drops_two_witness:
  "print_soup_UnsequencedData (\<lambda>_ _. []) \<lparr>ud_packetLength = be16toh 4, ud_packetType = 85\<rparr> [79, 80, 81] =
   Inr [Lit ''{ packetLength: '', Num 4, Lit '', packetType: '', Chars [],
     Lit ('', raw data: '' @ quot), Chars [79], Lit (quot @ '' }'' @ newline)]"
  using unsequenced_printer_drops_two [of "[79, 80, 81]" _ 85 "\<lambda>_ _. []"] by simp

end
