(* ===== verification/Static_Checks.thy ===== *)
theory Static_Checks
  imports Itch_Messages Order_Entry_Client
begin

text \<open>
  What the compiler checks and what stands beside it: the \<^verbatim>\<open>static_assert\<close> declarations of the headers as pairs of a
  constant and the number it is compared with, the character constants that repeat the enumerations, and the small
  copy loops that turn fixed arrays into strings.
\<close>

section \<open>Offsets and sizes\<close>

definition asserts_constants :: "(nat \<times> nat) list" where [layout]:
  "asserts_constants =
     [(TIMESTAMP_NANOSECONDS_OFFSET, 1)]"

definition asserts_itch_add_order :: "(nat \<times> nat) list" where [layout]:
  "asserts_itch_add_order =
     [(ADD_ORDER_MSG_ORDER_ID_OFFSET, 5),
      (ADD_ORDER_MSG_ORDERBOOK_ID_OFFSET, 13),
      (ADD_ORDER_MSG_SIDE_OFFSET, 17),
      (ADD_ORDER_MSG_ORDERBOOK_POS_OFFSET, 18),
      (ADD_ORDER_MSG_QUANTITY_OFFSET, 22),
      (ADD_ORDER_MSG_PRICE_OFFSET, 30),
      (ADD_ORDER_MSG_ORDER_ATTR_OFFSET, 34),
      (ADD_ORDER_MSG_LOT_TYPE_OFFSET, 36),
      (ADD_ORDER_MSG_SIZE, 37)]"

definition asserts_itch_add_order_with_mpid :: "(nat \<times> nat) list" where [layout]:
  "asserts_itch_add_order_with_mpid =
     [(ADD_ORDER_WITH_MPID_MSG_ORDER_ID_OFFSET, 5),
      (ADD_ORDER_WITH_MPID_MSG_ORDERBOOK_ID_OFFSET, 13),
      (ADD_ORDER_WITH_MPID_MSG_SIDE_OFFSET, 17),
      (ADD_ORDER_WITH_MPID_MSG_ORDERBOOK_POS_OFFSET, 18),
      (ADD_ORDER_WITH_MPID_MSG_QUANTITY_OFFSET, 22),
      (ADD_ORDER_WITH_MPID_MSG_PRICE_OFFSET, 30),
      (ADD_ORDER_WITH_MPID_MSG_ORDER_ATTR_OFFSET, 34),
      (ADD_ORDER_WITH_MPID_MSG_LOT_TYPE_OFFSET, 36),
      (ADD_ORDER_WITH_MPID_MSG_PARTICIPANT_ID_OFFSET, 37),
      (ADD_ORDER_WITH_MPID_MSG_SIZE, 44)]"

definition asserts_itch_combination_orderbook_leg :: "(nat \<times> nat) list" where [layout]:
  "asserts_itch_combination_orderbook_leg =
     [(COMBO_ORDERBOOK_LEG_MSG_COMBO_ORDERBOOK_ID_OFFSET, 5),
      (COMBO_ORDERBOOK_LEG_MSG_LEG_ORDERBOOK_ID_OFFSET, 9),
      (COMBO_ORDERBOOK_LEG_MSG_LEG_SIDE_OFFSET, 13),
      (COMBO_ORDERBOOK_LEG_MSG_LEG_RATIO_OFFSET, 14),
      (COMBO_ORDERBOOK_LEG_MSG_SIZE, 18)]"

definition asserts_itch_equilibrium_price_update :: "(nat \<times> nat) list" where [layout]:
  "asserts_itch_equilibrium_price_update =
     [(EQUILIBRIUM_PRICE_UPDATE_MSG_ORDERBOOK_ID_OFFSET, 5),
      (EQUILIBRIUM_PRICE_UPDATE_MSG_AVAILABLE_BID_QTY_EQUI_PX_OFFSET, 9),
      (EQUILIBRIUM_PRICE_UPDATE_MSG_AVAILABLE_ASK_QTY_EQUI_PX_OFFSET, 17),
      (EQUILIBRIUM_PRICE_UPDATE_MSG_EQUI_PX_OFFSET, 25),
      (EQUILIBRIUM_PRICE_UPDATE_MSG_BEST_BID_PRICE_OFFSET, 29),
      (EQUILIBRIUM_PRICE_UPDATE_MSG_BEST_ASK_PRICE_OFFSET, 33),
      (EQUILIBRIUM_PRICE_UPDATE_MSG_BEST_BID_QTY_OFFSET, 37),
      (EQUILIBRIUM_PRICE_UPDATE_MSG_BEST_ASK_QTY_OFFSET, 45),
      (EQUILIBRIUM_PRICE_UPDATE_MSG_SIZE, 53)]"

definition asserts_itch_order_delete :: "(nat \<times> nat) list" where [layout]:
  "asserts_itch_order_delete =
     [(ORDER_DELETE_MSG_ORDER_ID_OFFSET, 5),
      (ORDER_DELETE_MSG_ORDERBOOK_ID_OFFSET, 13),
      (ORDER_DELETE_MSG_SIDE_OFFSET, 17),
      (ORDER_DELETE_MSG_SIZE, 18)]"

definition asserts_itch_order_executed :: "(nat \<times> nat) list" where [layout]:
  "asserts_itch_order_executed =
     [(ORDER_EXEC_MSG_ORDER_ID_OFFSET, 5),
      (ORDER_EXEC_MSG_ORDERBOOK_ID_OFFSET, 13),
      (ORDER_EXEC_MSG_SIDE_OFFSET, 17),
      (ORDER_EXEC_MSG_EXEC_QTY_OFFSET, 18),
      (ORDER_EXEC_MSG_MATCH_ID_OFFSET, 26),
      (ORDER_EXEC_MSG_COMBO_GROUP_ID_OFFSET, 34)]"

definition asserts_itch_order_executed_with_price :: "(nat \<times> nat) list" where [layout]:
  "asserts_itch_order_executed_with_price =
     [(ORDER_EXEC_WITH_PX_MSG_ORDER_ID_OFFSET, 5),
      (ORDER_EXEC_WITH_PX_MSG_ORDERBOOK_ID_OFFSET, 13),
      (ORDER_EXEC_WITH_PX_MSG_SIDE_OFFSET, 17),
      (ORDER_EXEC_WITH_PX_MSG_EXEC_QTY_OFFSET, 18),
      (ORDER_EXEC_WITH_PX_MSG_MATCH_ID_OFFSET, 26),
      (ORDER_EXEC_WITH_PX_MSG_COMBO_GROUP_ID_OFFSET, 34),
      (ORDER_EXEC_WITH_PX_MSG_TRADE_PX_OFFSET, 52),
      (ORDER_EXEC_WITH_PX_MSG_OCCURRED_AT_CROSS_OFFSET, 56),
      (ORDER_EXEC_WITH_PX_MSG_PRINTABLE_OFFSET, 57),
      (ORDER_EXEC_WITH_PX_MSG_SIZE, 58)]"

definition asserts_itch_order_replace :: "(nat \<times> nat) list" where [layout]:
  "asserts_itch_order_replace =
     [(REPLACE_ORDER_MSG_ORDER_ID_OFFSET, 5),
      (REPLACE_ORDER_MSG_ORDERBOOK_ID_OFFSET, 13),
      (REPLACE_ORDER_MSG_SIDE_OFFSET, 17),
      (REPLACE_ORDER_MSG_ORDERBOOK_POS_OFFSET, 18),
      (REPLACE_ORDER_MSG_QUANTITY_OFFSET, 22),
      (REPLACE_ORDER_MSG_PRICE_OFFSET, 30),
      (REPLACE_ORDER_MSG_ORDER_ATTR_OFFSET, 34),
      (REPLACE_ORDER_MSG_SIZE, 36)]"

definition asserts_itch_orderbook_directory :: "(nat \<times> nat) list" where [layout]:
  "asserts_itch_orderbook_directory =
     [(ORDERBOOK_DIRECTORY_MSG_ORDERBOOK_ID_OFFSET, 5),
      (ORDERBOOK_DIRECTORY_MSG_SYMBOL_OFFSET, 9),
      (ORDERBOOK_DIRECTORY_MSG_LONG_NAME_OFFSET, 41),
      (ORDERBOOK_DIRECTORY_MSG_ISIN_OFFSET, 73),
      (ORDERBOOK_DIRECTORY_MSG_FINANCIAL_PRODUCT_OFFSET, 85),
      (ORDERBOOK_DIRECTORY_MSG_TRADING_CURRENCY_OFFSET, 86),
      (ORDERBOOK_DIRECTORY_MSG_NUM_DECIMALS_IN_PRICE_OFFSET, 89),
      (ORDERBOOK_DIRECTORY_MSG_NUM_DECIMALS_IN_NOMINAL_VAL_OFFSET, 91),
      (ORDERBOOK_DIRECTORY_MSG_ODD_LOT_SIZE_OFFSET, 93),
      (ORDERBOOK_DIRECTORY_MSG_ROUND_LOT_SIZE_OFFSET, 97),
      (ORDERBOOK_DIRECTORY_MSG_BLOCK_LOT_SIZE_OFFSET, 101),
      (ORDERBOOK_DIRECTORY_MSG_NOMINAL_VAL_OFFSET, 105),
      (ORDERBOOK_DIRECTORY_MSG_NUM_OF_LEGS_OFFSET, 113),
      (ORDERBOOK_DIRECTORY_MSG_UNDERLYING_ORDERBOOK_ID_OFFSET, 114),
      (ORDERBOOK_DIRECTORY_MSG_STRIKE_PRICE_OFFSET, 118),
      (ORDERBOOK_DIRECTORY_MSG_EXPIRATION_DATE_OFFSET, 122),
      (ORDERBOOK_DIRECTORY_MSG_NUM_OF_DECIMALS_IN_STRIKE_PRICE_OFFSET, 126),
      (ORDERBOOK_DIRECTORY_MSG_PUT_OR_CALL_OFFSET, 128),
      (ORDERBOOK_DIRECTORY_MSG_SIZE, 129)]"

definition asserts_itch_orderbook_flush :: "(nat \<times> nat) list" where [layout]:
  "asserts_itch_orderbook_flush =
     [(ORDERBOOK_FLUSH_MSG_ORDERBOOK_ID_OFFSET, 5),
      (ORDERBOOK_FLUSH_MSG_SIZE, 9)]"

definition asserts_itch_orderbook_state :: "(nat \<times> nat) list" where [layout]:
  "asserts_itch_orderbook_state =
     [(ORDERBOOK_STATE_MSG_ORDERBOOK_ID_OFFSET, 5),
      (ORDERBOOK_STATE_MSG_STATE_NAME_OFFSET, 9),
      (ORDERBOOK_STATE_MSG_SIZE, 29)]"

definition asserts_itch_seconds :: "(nat \<times> nat) list" where [layout]:
  "asserts_itch_seconds =
     [(SECONDS_MSG_SIZE, 5)]"

definition asserts_itch_short_sell_status :: "(nat \<times> nat) list" where [layout]:
  "asserts_itch_short_sell_status =
     [(SHORT_SELL_MSG_ORDERBOOK_ID_OFFSET, 5),
      (SHORT_SELL_MSG_RESTRICTION_OFFSET, 9),
      (SHORT_SELL_MSG_VALIDATION_OFFSET, 10),
      (SHORT_SELL_MSG_SIZE, 11)]"

definition asserts_itch_system_event :: "(nat \<times> nat) list" where [layout]:
  "asserts_itch_system_event =
     [(SYSTEM_EVENT_MSG_EVENT_CODE_OFFSET, 5),
      (SYSTEM_EVENT_MSG_SIZE, 6)]"

definition asserts_itch_tick_size_table_entry :: "(nat \<times> nat) list" where [layout]:
  "asserts_itch_tick_size_table_entry =
     [(TICK_SIZE_MSG_ORDERBOOK_ID_OFFSET, 5),
      (TICK_SIZE_MSG_TICK_SIZE_OFFSET, 9),
      (TICK_SIZE_MSG_PRICE_FROM_OFFSET, 17),
      (TICK_SIZE_MSG_PRICE_TO_OFFSET, 21),
      (TICK_SIZE_MSG_SIZE, 25)]"

definition asserts_itch_trade :: "(nat \<times> nat) list" where [layout]:
  "asserts_itch_trade =
     [(TRADE_MSG_MATCH_ID_OFFSET, 5),
      (TRADE_MSG_COMBO_GROUP_ID_OFFSET, 13),
      (TRADE_MSG_SIDE_OFFSET, 17),
      (TRADE_MSG_QUANTITY_OFFSET, 18),
      (TRADE_MSG_ORDERBOOK_ID_OFFSET, 26),
      (TRADE_MSG_TRADE_PRICE_OFFSET, 30),
      (TRADE_MSG_PRINTABLE_OFFSET, 48),
      (TRADE_MSG_OCCURRED_AT_CROSS_OFFSET, 49),
      (TRADE_MSG_SIZE, 50)]"

definition asserts_ouch_constants :: "(nat \<times> nat) list" where [layout]:
  "asserts_ouch_constants =
     [(LOGIN_REQUEST_PACKET_LENGTH, 47)]"

definition static_asserts :: "(nat \<times> nat) list" where
  "static_asserts = concat
     [asserts_constants,
      asserts_itch_add_order,
      asserts_itch_add_order_with_mpid,
      asserts_itch_combination_orderbook_leg,
      asserts_itch_equilibrium_price_update,
      asserts_itch_order_delete,
      asserts_itch_order_executed,
      asserts_itch_order_executed_with_price,
      asserts_itch_order_replace,
      asserts_itch_orderbook_directory,
      asserts_itch_orderbook_flush,
      asserts_itch_orderbook_state,
      asserts_itch_seconds,
      asserts_itch_short_sell_status,
      asserts_itch_system_event,
      asserts_itch_tick_size_table_entry,
      asserts_itch_trade,
      asserts_ouch_constants]"

text \<open>The assertions of the headers hold, all of them, of the constants as the headers compute them.\<close>

theorem static_asserts_hold: "list_all (\<lambda>(constant, number). constant = number) static_asserts"
  by (simp add: static_asserts_def layout)

section \<open>Character constants\<close>

definition PACKET_TYPE_DEBUG :: byte where "PACKET_TYPE_DEBUG = ascii CHR ''+''"
definition PACKET_TYPE_LOGIN_ACCEPTED :: byte where "PACKET_TYPE_LOGIN_ACCEPTED = ascii CHR ''A''"
definition PACKET_TYPE_LOGIN_REJECTED :: byte where "PACKET_TYPE_LOGIN_REJECTED = ascii CHR ''J''"
definition PACKET_TYPE_SEQUENCED_DATA :: byte where "PACKET_TYPE_SEQUENCED_DATA = ascii CHR ''S''"
definition PACKET_TYPE_SERVER_HEARTBEAT :: byte where "PACKET_TYPE_SERVER_HEARTBEAT = ascii CHR ''H''"
definition PACKET_TYPE_END_OF_SESSION :: byte where "PACKET_TYPE_END_OF_SESSION = ascii CHR ''Z''"
definition PACKET_TYPE_LOGIN_REQUEST :: byte where "PACKET_TYPE_LOGIN_REQUEST = ascii CHR ''L''"
definition PACKET_TYPE_UNSEQUENCED_DATA :: byte where "PACKET_TYPE_UNSEQUENCED_DATA = ascii CHR ''U''"
definition PACKET_TYPE_CLIENT_HEARTBEAT :: byte where "PACKET_TYPE_CLIENT_HEARTBEAT = ascii CHR ''R''"
definition PACKET_TYPE_LOGOUT_REQUEST :: byte where "PACKET_TYPE_LOGOUT_REQUEST = ascii CHR ''O''"
definition LOGIN_REJECT_CODE_NOT_AUTHORIZED :: byte where "LOGIN_REJECT_CODE_NOT_AUTHORIZED = ascii CHR ''A''"
definition LOGIN_REJECT_CODE_SESSION_NOT_AVAILABLE :: byte where "LOGIN_REJECT_CODE_SESSION_NOT_AVAILABLE = ascii CHR ''S''"
definition MAX_PACKET_LENGTH :: nat where "MAX_PACKET_LENGTH = 65535"
definition YES :: byte where "YES = ascii CHR ''Y''"
definition NO :: byte where "NO = ascii CHR ''N''"
definition SIDE_ANON :: byte where "SIDE_ANON = ascii CHR '' ''"

definition packet_type_constants :: "(byte \<times> PacketType) list" where
  "packet_type_constants =
     [(PACKET_TYPE_DEBUG, PacketType_Debug),
      (PACKET_TYPE_LOGIN_ACCEPTED, PacketType_LoginAccepted),
      (PACKET_TYPE_LOGIN_REJECTED, PacketType_LoginRejected),
      (PACKET_TYPE_SEQUENCED_DATA, PacketType_SequencedData),
      (PACKET_TYPE_SERVER_HEARTBEAT, PacketType_ServerHeartbeat),
      (PACKET_TYPE_END_OF_SESSION, PacketType_EndOfSession),
      (PACKET_TYPE_LOGIN_REQUEST, PacketType_LoginRequest),
      (PACKET_TYPE_UNSEQUENCED_DATA, PacketType_UnsequencedData),
      (PACKET_TYPE_CLIENT_HEARTBEAT, PacketType_ClientHeartbeat),
      (PACKET_TYPE_LOGOUT_REQUEST, PacketType_LogoutRequest)]"

text \<open>Each constant is the value of its enumerator, and the enumeration has no other: the two lists describe one code.\<close>

theorem packet_type_constants_agree:
  "list_all (\<lambda>(c, t). c = PacketType_val t) packet_type_constants \<and> (\<forall>t. t \<in> snd ` set packet_type_constants) \<and>
   distinct (map fst packet_type_constants)"
proof -
  have "list_all (\<lambda>(c, t). c = PacketType_val t) packet_type_constants"
    by (simp add: packet_type_constants_def PACKET_TYPE_DEBUG_def PACKET_TYPE_LOGIN_ACCEPTED_def PACKET_TYPE_LOGIN_REJECTED_def PACKET_TYPE_SEQUENCED_DATA_def PACKET_TYPE_SERVER_HEARTBEAT_def PACKET_TYPE_END_OF_SESSION_def PACKET_TYPE_LOGIN_REQUEST_def PACKET_TYPE_UNSEQUENCED_DATA_def PACKET_TYPE_CLIENT_HEARTBEAT_def PACKET_TYPE_LOGOUT_REQUEST_def)
  moreover have all: "t \<in> snd ` set packet_type_constants" for t by (cases t) (simp_all add: packet_type_constants_def)
  moreover have "distinct (map fst packet_type_constants)"
  proof -
    have "map fst packet_type_constants = map PacketType_val (map snd packet_type_constants)"
      using calculation(1) by (auto simp: list_all_iff)
    moreover have "distinct (map snd packet_type_constants)" by (simp add: packet_type_constants_def)
    moreover have "inj_on PacketType_val A" for A by (simp add: inj_on_def PacketType_val_inject)
    ultimately show ?thesis by (simp only: distinct_map)
  qed
  ultimately show ?thesis by blast
qed

section \<open>Strings from arrays\<close>

text \<open>A string of null characters of the length of the array, overwritten one character after the other.\<close>

primrec copy_chars :: "nat \<Rightarrow> byte list \<Rightarrow> byte list \<Rightarrow> byte list" where
  "copy_chars 0 arr str = str"
| "copy_chars (Suc n) arr str = (copy_chars n arr str)[n := arr ! n]"

definition toString :: "order_token \<Rightarrow> byte list" where
  "toString token = copy_chars (length token) token (replicate (length token) 0)"

definition toStringSession :: "byte list \<Rightarrow> byte list" where
  "toStringSession token = copy_chars (length token) token (replicate (length token) 0)"

lemma copy_chars_take:
  "n \<le> length arr \<Longrightarrow> length str = length arr \<Longrightarrow> copy_chars n arr str = take n arr @ drop n str"
proof (induction n)
  case (Suc n)
  then show ?case
    by (simp add: list_update_append take_Suc_conv_app_nth Cons_nth_drop_Suc [symmetric])
qed simp

theorem array_strings: "toString token = token" "toStringSession session = session"
  by (simp_all add: toString_def toStringSession_def copy_chars_take)

text \<open>The helper of the emulator fills an array with the pad and copies over it; with a blank it is the helper of the client.\<close>

definition padded_array :: "nat \<Rightarrow> byte list \<Rightarrow> byte \<Rightarrow> byte list" where
  "padded_array N input pad =
     (let arr = replicate N pad; n = min (length input) (length arr) in copy_to arr 0 (take n input))"

theorem padded_arrays_agree: "padded_array N input (ascii CHR '' '') = toPaddedArray N input"
  by (simp add: padded_array_def toPaddedArray_def copy_to_def Let_def min_def)

end
