(* ===== verification/Threads.thy ===== *)
theory Threads
  imports Prelude
begin

text \<open>
  \<^verbatim>\<open>src/lib/utility/thread.cpp\<close>: name, affinity and scheduling of the calling thread.  The number of cores and
  the results of the system calls are arguments; a call that succeeds changes the attribute.
\<close>

record thread_attributes =
  thread_name :: "byte list"
  thread_cpus :: "int set"
  thread_policy :: int
  thread_priority :: int

text \<open>\<^verbatim>\<open>c_str()\<close> ends at the first null character.\<close>

definition setThreadName :: "byte list \<Rightarrow> int \<Rightarrow> thread_attributes \<Rightarrow> thread_attributes" where
  "setThreadName name res t =
     (if length name > 15 then t
      else if res \<noteq> 0 then t
      else t\<lparr>thread_name := takeWhile (\<lambda>c. c \<noteq> 0) name\<rparr>)"

text \<open>\<^verbatim>\<open>CPU_SET\<close> ignores a number that does not fit the 1024 bits of a \<^verbatim>\<open>cpu_set_t\<close>.\<close>

definition CPU_SETSIZE :: int where "CPU_SETSIZE = 1024"

definition cpu_set :: "int \<Rightarrow> int set" where
  "cpu_set core = (if 0 \<le> core \<and> core < CPU_SETSIZE then {core} else {})"

definition pinThreadToCore :: "u32 \<Rightarrow> i32 \<Rightarrow> int \<Rightarrow> thread_attributes \<Rightarrow> thread_attributes \<times> bool" where
  "pinThreadToCore numCores core res t =
     (if core < 0 \<or> core \<ge> sint numCores then (t, False)
      else if res \<noteq> 0 then (t, False)
      else (t\<lparr>thread_cpus := cpu_set core\<rparr>, True))"

text \<open>The number the error message names as the last core; the subtraction is unsigned.\<close>

definition last_core_logged :: "u32 \<Rightarrow> u32" where
  "last_core_logged numCores = numCores - 1"

definition SCHED_OTHER :: int where "SCHED_OTHER = 0"
definition SCHED_FIFO :: int where "SCHED_FIFO = 1"
definition SCHED_RR :: int where "SCHED_RR = 2"

definition policyName :: "int \<Rightarrow> string" where
  "policyName currentPolicy =
     (if currentPolicy = SCHED_FIFO then ''SCHED_FIFO''
      else if currentPolicy = SCHED_RR then ''SCHED_RR''
      else if currentPolicy = SCHED_OTHER then ''SCHED_OTHER''
      else ''Unknown'')"

text \<open>\<open>set_res\<close> and \<open>current\<close> are the results of \<^verbatim>\<open>sched_setscheduler\<close> and \<^verbatim>\<open>sched_getscheduler\<close>.\<close>

definition setSchedulerPolicy :: "int \<Rightarrow> int \<Rightarrow> int \<Rightarrow> int \<Rightarrow> thread_attributes \<Rightarrow> thread_attributes \<times> bool" where
  "setSchedulerPolicy policy priority set_res current t =
     (if set_res = -1 then (t, False)
      else
        let t' = t\<lparr>thread_policy := policy, thread_priority := priority\<rparr> in
        if current = -1 then (t', False) else (t', True))"

section \<open>Properties\<close>


text \<open>The last core an error message names is \<open>4294967295\<close> when the number of cores is not known.\<close>

lemma last_core_logged_unknown: "last_core_logged 0 = 4294967295"
  by (simp add: last_core_logged_def)

end
