(* ===== verification/Spec2Isabelle.thy ===== *)
theory Spec2Isabelle
  imports Recovery Shutdown Order_Dialogue Send_Race Socket_Reads Server_Lifetime Epoll Config_Parser Parser_Tests Message_Printers
    Static_Checks Threads
begin

text \<open>
  A model of the trading client for Borsa Istanbul in \<^verbatim>\<open>src/\<close>: the ITCH market data side (MoldUDP64 packets
  to order books), the OUCH order entry side (SoupBinTCP sessions over TCP), the exchange emulator it is
  tested against, and the configuration it reads.

  \<^bold>\<open>Parts and theories.\<close>
  \<^item> \<open>Prelude\<close>: machine integers, faults (\<open>fault\<close>, \<open>result\<close>) and little-endian memory with the byte-order functions.
  \<^item> \<open>Wire\<close>: the locale \<open>wire_codec\<close> that every packed structure satisfies.
  \<^item> \<open>Protocol_Types\<close>, \<open>Itch_Messages\<close>, \<open>Ouch_Messages\<close>: fields, enumerations and every structure of
    \<^verbatim>\<open>lib/types.hpp\<close>, \<^verbatim>\<open>lib/protocol/itch\<close>, \<^verbatim>\<open>moldudp64\<close>, \<^verbatim>\<open>ouch\<close> and \<^verbatim>\<open>soupbintcp\<close>; each has an encoder \<open>put_\<close>, a
    decoder \<open>get_\<close> and an interpretation of \<open>wire_codec\<close>, so the sizes the code asserts are the lengths of the
    encodings and decoding inverts encoding.
  \<^item> \<open>Level_Book\<close>: the contract of a book of price levels, and what follows from it for sequences of orders.
  \<^item> \<open>L2_Orderbook\<close> (\<^verbatim>\<open>lib/core/l2_orderbook.hpp\<close>): the two level vectors and \<open>AddOrder\<close>, \<open>DeleteOrder\<close>, \<open>ReplaceOrder\<close>,
    \<open>ExecuteOrder\<close>, \<open>GetBestPrices\<close>, \<open>Dump\<close>; they refine the map of levels.
  \<^item> \<open>Orderbook_Builder\<close> (\<^verbatim>\<open>lib/core/orderbook_builder.hpp\<close>): the map of live orders and the handlers of the three
    messages.  \<open>feed\<close> is the relation of runs that announce an order once and never execute more than is
    left; under it the books are a function of the live orders.
  \<^item> \<open>Itch_Parser\<close> (\<^verbatim>\<open>lib/protocol/itch/itch_parser.hpp\<close>): header, block loop and dispatch, over a record of builder
    operations that is instantiated with the builder above and with the counting builder of
    \<^verbatim>\<open>test/itch_parser_test.cpp\<close>.
  \<^item> \<open>Parser_Tests\<close> (\<^verbatim>\<open>test/itch_parser_test.cpp\<close>, \<^verbatim>\<open>tools/generate_dummy_moldudp64_pcap.py\<close>): both unit tests and the tool
    that generates their input.
  \<^item> \<open>Message_Printers\<close>: the stream printers of the structures, as sequences of insertions into an output stream.
  \<^item> \<open>Market_Data_Client\<close> (\<^verbatim>\<open>lib/client/market_data_client.cpp\<close>): sequence numbers, gaps, recovery, rewind requests.
  \<^item> \<open>Recovery\<close>: the dialogue of this client with the rewinder of the exchange, which is an argument.
  \<^item> \<open>Order_Manager\<close> (\<^verbatim>\<open>lib/core/order_manager.hpp\<close>): the store of own orders and the token generator.
  \<^item> \<open>Order_Entry_Client\<close> (\<^verbatim>\<open>lib/client/order_entry_client.cpp\<close>): the session, its prepared packets and its requests.
  \<^item> \<open>Tcp_Client\<close> (\<^verbatim>\<open>lib/network/tcp_client.cpp\<close>): the receive buffer, reassembly and dispatch of responses.
  \<^item> \<open>Socket_Reads\<close> (\<^verbatim>\<open>lib/network/tcp_socket.hpp\<close>, \<^verbatim>\<open>tcp_client_connection.hpp\<close>): single reads, and the reading thread of the
    client on the stream of a connection that stays open.
  \<^item> \<open>Order_Responses\<close>: from the bytes of the connection to the stored orders; \<open>Session_Tokens\<close>: the order tokens of a whole
    session of requests and responses; \<open>Reactions\<close>: the requests that the client sends on its own account;
    \<open>Order_Dialogue\<close>: these requests and the answers of an exchange, which is an argument.
  \<^item> \<open>Send_Race\<close>: the requests of \<^verbatim>\<open>order_entry_client.cpp\<close> and \<^verbatim>\<open>OrderManager::nextToken\<close> as statements of two threads.
  \<^item> \<open>Exchange_Emulator\<close> (\<^verbatim>\<open>lib/network/tcp_server.cpp\<close>, \<^verbatim>\<open>apps/exchange_emulator.cpp\<close>): the connection table, the event
    loop and the login service.
  \<^item> \<open>Sockets\<close> (\<^verbatim>\<open>lib/network/tcp_socket.cpp\<close>, \<^verbatim>\<open>tcp_client_connection.cpp\<close>, \<^verbatim>\<open>udp_socket.cpp\<close>): the loops around the system
    calls.
  \<^item> \<open>Descriptors\<close> (the same files and \<^verbatim>\<open>tcp_server_socket.cpp\<close>): construction, destruction and options of the sockets over
    the descriptors of the process; \<open>Server_Lifetime\<close>: the descriptors of the server over its life.
  \<^item> \<open>Epoll\<close> (\<^verbatim>\<open>lib/network/tcp_server.cpp\<close>): the registrations of the connections of the server.
  \<^item> \<open>Session_System\<close>: client and emulator as one transition system; \<open>Shutdown\<close>: its end, with the destructor of the
    session and the reading thread it joins.
  \<^item> \<open>Config_Parser\<close> (\<^verbatim>\<open>lib/utility/config_parser.hpp\<close>): the configuration, its printing and the saved parameters.
  \<^item> \<open>Threads\<close> (\<^verbatim>\<open>lib/utility/thread.cpp\<close>): name, affinity and scheduling of a thread.
  \<^item> \<open>Static_Checks\<close>: the static assertions of the headers, the character constants and the helpers that copy arrays.
  \<^item> This theory: \<^verbatim>\<open>apps/trading_client.cpp\<close> and the properties that span components.

  \<^bold>\<open>How the model corresponds to the code.\<close>  A class is a record with its members, an operation a function from
  the record to the record, with the name of the source.  What the C++ standard leaves undefined and what
  ends the process is a value of \<open>fault\<close>: reads and writes outside an object, dereferenced end iterators,
  erased iterators, \<^verbatim>\<open>exit\<close>, exceptions.  Integers that can wrap are words of their width; prices, which are only
  compared and copied, are integers.  A loop over a container is a recursion over it; the loops that are
  not structural (\<open>populateVector_loop\<close>, \<open>processBuffer_loop\<close>, \<open>split_frames\<close>) have termination
  proofs, so no fuel is used; \<open>recovery_rounds\<close> and \<open>dialogue\<close> count the rounds of a dialogue, and their theorems say how many are enough.  System calls are arguments: the bytes of each read, the result of each
  write, the events of each wait; a loop that would go on waiting at the end of such a list returns its
  state, or \<open>None\<close> where returning is the question (\<open>Sockets\<close>).  The JSON library is a record of operations, an
  argument of the parser; the formatting library and the names of enumerators are arguments of the printers.
  In \<open>Session_System\<close> and in \<open>Shutdown\<close>, which adds the steps of the destructor and the ends of the reading loop, a step is one request of the application, one read of the server (any number of whole packets
  of the client) or one read of the client (a piece of any size of the replies), in any order.
  Everywhere else the operations of one object run one after the other; \<open>Send_Race\<close> splits the requests into their
  statements, one assignment, one digit of the token or one write each, and interleaves those of two threads.

  \<^bold>\<open>What is shown.\<close>  Books: every operation keeps the level vectors sorted and acts as its specification on
  the map of levels, faults included (\<open>L2_Orderbook\<close>); after any feed a level holds the sum of what is left of
  its orders, books do not depend on history, and no message of a feed faults (\<open>Orderbook_Builder\<close>).  Parsing:
  encoded packets are parsed back to the messages, in any split, and the two ways a packet can make the
  parser read outside it (\<open>Itch_Parser\<close>).  Recovery: joining late requests exactly the missing numbers and ends
  when they arrive, a later gap is never requested and a rewound packet handed to
  \<^verbatim>\<open>processRewoundPackets\<close> is misread (\<open>Market_Data_Client\<close>), and the dialogue with a rewinder ends exactly
  when fewer than 65536 messages are missing (\<open>Recovery\<close>).  Orders: the store keeps each
  order by its own responses, the value of the next token, when it is an increment, and distinctness
  (\<open>Order_Manager\<close>).  Wire: requests are framed and decode to what was asked (\<open>Order_Entry_Client\<close>); responses are
  handled once and in order however the stream is cut, each is copied two bytes too far
  (\<open>Tcp_Client\<close>), and the stored order is a function of its own responses (\<open>Order_Responses\<close>); no token is used twice in
  a session (\<open>Session_Tokens\<close>); what the client sends while it reads decodes to the reactions of a small machine (\<open>Reactions\<close>), and
  with an exchange that follows the protocol this comes to an end after four rounds (\<open>Order_Dialogue\<close>); the reading thread takes in the whole of a stream of packets and stops on its own on a packet that is longer than its buffer and on no
  other (\<open>Socket_Reads\<close>).  Threads: requests of two threads that share neither the token generator nor a packet
  behave as one after the other, two that take a token can take the same one (\<open>Send_Race\<close>).
  Server: the table agrees with the notifications, connections do not disturb each other, a refused login leads to an access through an erased entry (\<open>Exchange_Emulator\<close>), every descriptor is given back
  (\<open>Server_Lifetime\<close>), a connection whose registration fails is kept and never heard of again (\<open>Epoll\<close>).  System: in every reachable state only the right credentials give a continuous session, and the
  client handles whatever part of the replies arrives (\<open>Session_System\<close>); the destructor of an idle session
  never returns, because the server takes the logout for an incomplete packet (\<open>Shutdown\<close>).  Kernel: which constructors leak a descriptor
  or close it twice (\<open>Descriptors\<close>), which cores are accepted (\<open>Threads\<close>).  Tests: both pass on the generated packet
  (\<open>Parser_Tests\<close>).  Printing: no printer leaves a field width behind, and some fields are converted at the wrong
  width (\<open>Message_Printers\<close>).  Here: a market data session from the first packet to the books, a login from the client
  through the server and back, and a restart through the parameter file.

  \<^bold>\<open>Interfaces.\<close>  Each locale is interpreted on the definitions of the model:
  \<^item> \<open>wire_codec\<close> (\<open>Wire\<close>): a structure and its bytes; \<open>prepared_packet\<close> (\<open>Order_Entry_Client\<close>) extends it to the buffers
    that are filled in before sending.
  \<^item> \<open>price_order\<close> (\<open>L2_Orderbook\<close>): the two sides of a book; \<open>level_book\<close> (\<open>Level_Book\<close>): a book and its builder.
  \<^item> \<open>itch_builder\<close> (\<open>Itch_Parser\<close>): the parser and a builder.
  \<^item> \<open>order_store\<close> (\<open>Order_Manager\<close>): the stored orders and the responses.
  \<^item> \<open>frame_handler\<close> (\<open>Tcp_Client\<close>): reassembly and dispatch; interpreted again in \<open>Session_System\<close> for the packets that need
    nothing behind them.
  \<^item> \<open>server_handler\<close> (\<open>Exchange_Emulator\<close>): the server and its message handler; interpreted again in \<open>Server_Lifetime\<close>
    for the notifications.
  \<^item> \<open>commuting_steps\<close> (\<open>Send_Race\<close>): interleavings and the steps that may be exchanged.
  \<^item> \<open>write_loop\<close> (\<open>Sockets\<close>): the two write loops; \<open>descriptor_owner\<close> (\<open>Descriptors\<close>): a class that owns a descriptor.

  \<^bold>\<open>Not modelled.\<close>  The logging library and its set-up in \<^verbatim>\<open>lib/utility/quill_wrapper.cpp\<close>, which only configures a library
  outside the repository; the benchmark, a placeholder that adds square roots in floating point; and what the memory
  model of C++ allows beyond interleavings when two threads use an object without synchronisation.  What is left of the
  sources are declarations of what is modelled elsewhere, includes, comments and log statements.
\<close>

section \<open>The trading client and the exchange emulator\<close>

text \<open>
  \<^verbatim>\<open>main\<close> of \<^verbatim>\<open>src/apps/trading_client.cpp\<close>: it constructs a session with fixed parameters and logs in.
\<close>

definition trading_client :: "BistMarketAccessor result" where
  "trading_client =
     res_bind (BistMarketAccessor_ctor (map ascii ''TEST'') (map ascii ''TEST_PWD'') True (map ascii ''EXCINFO'') 1)
       (\<lambda>acc. Inr (login acc))"

lemma trading_client_login:
  "\<exists>acc pkt. trading_client = Inr (login acc) \<and> acc_ok acc \<and> tcp_written acc = [] \<and> tcp_written (login acc) = [pkt] \<and>
     partition_username acc = map ascii ''TEST'' \<and> partition_password acc = map ascii ''TEST_PWD'' \<and>
     partition_isEquity acc \<and> bma_sessionName acc = []"
  using BistMarketAccessor_ctor_ok [of "map ascii ''EXCINFO''" 1 "map ascii ''TEST''" "map ascii ''TEST_PWD''" True] login_packet
  by (auto simp: trading_client_def)

text \<open>The order the client sends for testing once it is logged in.\<close>

definition first_order :: "byte list \<Rightarrow> bool" where
  "first_order pkt \<longleftrightarrow> well_framed pkt \<and>
     be32toh (eo_orderbook_id (get_ouch_EnterOrder (drop 3 pkt))) = 78436 \<and>
     unat (be64toh (eo_quantity (get_ouch_EnterOrder (drop 3 pkt)))) = 5000 \<and>
     sint (be32toh (eo_price (get_ouch_EnterOrder (drop 3 pkt)))) = 770000"

lemma onLoginAccepted_orders:
  assumes "acc_ok acc" and "partition_isEquity acc"
  shows "\<exists>order. tcp_written (onLoginAccepted acc m) = tcp_written acc @ [order] \<and> first_order order \<and>
    bma_state (onLoginAccepted acc m) = bma_Continuous \<and> bma_sessionName (onLoginAccepted acc m) = la_session_name m"
proof -
  let ?acc = "acc\<lparr>bma_state := bma_Continuous, bma_sessionName := la_session_name m\<rparr>"
  have "acc_ok ?acc" using assms(1) by (simp add: acc_ok_def)
  from enter_order_packet [OF this, of 770000 78436 "Side_val Side_Sell" 5000] assms(2) show ?thesis
    by (auto simp: onLoginAccepted_def sendEnterOrder_def tcp_write_def first_order_def Let_def split: prod.splits)
qed

lemma login_reply_handled:
  assumes "acc_ok acc" and "partition_isEquity acc"
    and "concat cs = put_soup_LoginAccepted (login_reply fd [])" and "[] \<notin> set cs"
  shows "\<exists>tc acc' order.
    startRead handleMessage (TcpClient_ctor \<lparr>session_accessor = acc, session_overruns = []\<rparr>) (map ReadBytes cs) = Inr tc \<and>
    m_marketAccessor tc = \<lparr>session_accessor = acc', session_overruns = []\<rparr> \<and> bma_state acc' = bma_Continuous \<and>
    bma_sessionName acc' = toPaddedArray 10 (map ascii ''SES_'' @ to_string (nat fd)) \<and>
    tcp_written acc' = tcp_written acc @ [order] \<and> first_order order"
proof -
  let ?m = "login_reply fd []"
  have "length (concat cs) = 33"
    using assms(3) soup_LoginAccepted.put_length [of ?m] login_reply_valid [of fd "[]"] by simp
  then have "chunks_fit 2 [] cs" using assms(4) by (intro small_chunks_fit) (simp_all add: BUFFER_SIZE_def)
  then have "\<exists>tc. startRead handleMessage (TcpClient_ctor \<lparr>session_accessor = acc, session_overruns = []\<rparr>)
        (map ReadBytes cs) = Inr tc \<and>
      m_marketAccessor tc = \<lparr>session_accessor = onLoginAccepted acc ?m, session_overruns = []\<rparr>"
    using client_stream [of "[SrvLoginAccepted ?m]" cs "\<lparr>session_accessor = acc, session_overruns = []\<rparr>"]
      login_reply_valid [of fd "[]"] assms(3) by auto
  moreover have "la_session_name ?m = toPaddedArray 10 (map ascii ''SES_'' @ to_string (nat fd))"
    by (simp add: login_reply_def)
  ultimately show ?thesis using onLoginAccepted_orders [OF assms(1,2), of ?m] by auto
qed

text \<open>
  C5. The login of the trading client against the emulator succeeds: the server answers the login packet with
  one reply, and however that reply is cut into reads, the client ends in the continuous state, in the
  session named after its connection, with no copy past the end of a structure, and has sent one framed
  order for 5000 shares at 770000.
\<close>

theorem trading_session:
  assumes "m_clients sv fd = Some []"
  shows "\<exists>acc sv' reply.
    trading_client = Inr acc \<and>
    handleClientData handleSoupBinTcpMessage sv fd [ReadBytes (concat (tcp_written acc))] = Inr sv' \<and>
    m_clients sv' = (m_clients sv)(fd \<mapsto> [reply]) \<and>
    (\<forall>cs. concat cs = reply \<and> [] \<notin> set cs \<longrightarrow>
      (\<exists>tc acc' order.
        startRead handleMessage (TcpClient_ctor \<lparr>session_accessor = acc, session_overruns = []\<rparr>) (map ReadBytes cs) = Inr tc \<and>
        m_marketAccessor tc = \<lparr>session_accessor = acc', session_overruns = []\<rparr> \<and> bma_state acc' = bma_Continuous \<and>
        bma_sessionName acc' = toPaddedArray 10 (map ascii ''SES_'' @ to_string (nat fd)) \<and>
        tcp_written acc' = tcp_written acc @ [order] \<and> first_order order))"
proof -
  obtain acc pkt where acc: "trading_client = Inr (login acc)" "acc_ok acc" "tcp_written acc = []" "tcp_written (login acc) = [pkt]"
    "partition_username acc = map ascii ''TEST''" "partition_password acc = map ascii ''TEST_PWD''"
    "partition_isEquity acc" "bma_sessionName acc = []"
    using trading_client_login by blast
  have pkt: "tcp_written (login acc) = tcp_written acc @ [pkt]" using acc(3,4) by simp
  let ?reply = "put_soup_LoginAccepted (login_reply fd [])"
  have server: "handleClientData handleSoupBinTcpMessage sv fd [ReadBytes (concat (tcp_written (login acc)))] =
      Inr (sendToClient sv fd ?reply)"
    using login_answered [OF pkt acc(5,6), of sv fd "[]"] login_fields(2) [OF refl pkt] assms acc(4,8)
    by (auto simp: handleClientData_def handleClientData_loop.simps sendToClient_def)
  have sent: "m_clients (sendToClient sv fd ?reply) = (m_clients sv)(fd \<mapsto> [?reply])"
    using assms by (simp add: sendToClient_def)
  have logged: "acc_ok (login acc)" using acc(2) by simp
  have equity: "partition_isEquity (login acc)" using acc(7) by (simp add: login_def tcp_write_def Let_def)
  show ?thesis
    by (intro exI [of _ "login acc"] exI [of _ "sendToClient sv fd ?reply"] exI [of _ ?reply] conjI allI impI acc(1) server sent
        login_reply_handled [OF logged equity]) simp_all
qed

theorem trading_session_witness:
  "\<exists>acc sv' reply. trading_client = Inr acc \<and>
    handleClientData handleSoupBinTcpMessage sample_server 5 [ReadBytes (concat (tcp_written acc))] = Inr sv' \<and>
    m_clients sv' 5 = Some [reply] \<and>
    (\<exists>tc acc'. startRead handleMessage (TcpClient_ctor \<lparr>session_accessor = acc, session_overruns = []\<rparr>)
        (map ReadBytes (map (\<lambda>b. [b]) reply)) = Inr tc \<and>
      m_marketAccessor tc = \<lparr>session_accessor = acc', session_overruns = []\<rparr> \<and> bma_state acc' = bma_Continuous)"
proof -
  obtain acc sv' reply where "trading_client = Inr acc"
    "handleClientData handleSoupBinTcpMessage sample_server 5 [ReadBytes (concat (tcp_written acc))] = Inr sv'"
    "m_clients sv' = (m_clients sample_server)(5 \<mapsto> [reply])"
    and cs: "\<forall>cs. concat cs = reply \<and> [] \<notin> set cs \<longrightarrow>
      (\<exists>tc acc' order.
        startRead handleMessage (TcpClient_ctor \<lparr>session_accessor = acc, session_overruns = []\<rparr>) (map ReadBytes cs) = Inr tc \<and>
        m_marketAccessor tc = \<lparr>session_accessor = acc', session_overruns = []\<rparr> \<and> bma_state acc' = bma_Continuous \<and>
        bma_sessionName acc' = toPaddedArray 10 (map ascii ''SES_'' @ to_string (nat 5)) \<and>
        tcp_written acc' = tcp_written acc @ [order] \<and> first_order order)"
    using trading_session [OF sample_server_client] by blast
  moreover obtain tc acc' where
    "startRead handleMessage (TcpClient_ctor \<lparr>session_accessor = acc, session_overruns = []\<rparr>)
      (map ReadBytes (map (\<lambda>b. [b]) reply)) = Inr tc"
    "m_marketAccessor tc = \<lparr>session_accessor = acc', session_overruns = []\<rparr>" "bma_state acc' = bma_Continuous"
    using cs [rule_format, of "map (\<lambda>b. [b]) reply"] by (auto simp del: startRead.simps)
  moreover have "m_clients sv' 5 = Some [reply]" using calculation(3) by simp
  ultimately show ?thesis by blast
qed

section \<open>Restarting the order manager\<close>



section \<open>A market data session\<close>



end
